theory Spec2Isabelle
  imports Main "HOL-Library.Char_ord" "HOL-Library.List_Lexorder" "HOL-Library.Product_Lexorder"
begin

section \<open>Version algebra (libmport/version_cmp.c)\<close>

text \<open>
  C strings are modelled as byte lists.  A buffer obtained from \<open>strdup\<close> is the list of
  its bytes including the terminating NUL; a pointer into a buffer is the suffix of the
  buffer that starts at the pointer, so \<open>p++\<close> is \<open>tl p\<close> and the empty list is the
  pointer one past the end of the allocation.  Reading through that pointer is undefined
  behaviour in C; the model returns \<open>None\<close> there.
\<close>

definition NUL :: char where
  "NUL = CHR 0x00"

definition strdup :: "string \<Rightarrow> char list" where
  "strdup s = takeWhile (\<lambda>c. c \<noteq> NUL) s @ [NUL]"

text \<open>\<open>rindex(s, c)\<close>: the position of the last occurrence of \<open>c\<close> in the buffer, or NULL.\<close>

definition rindex :: "char list \<Rightarrow> char \<Rightarrow> nat option" where
  "rindex s c = (if c \<in> set s
                 then Some (length s - 1 - length (takeWhile (\<lambda>x. x \<noteq> c) (rev s)))
                 else None)"

definition isdigit :: "char \<Rightarrow> bool" where
  "isdigit c = (48 \<le> (of_char c :: nat) \<and> (of_char c :: nat) \<le> 57)"

definition isspace :: "char \<Rightarrow> bool" where
  "isspace c = ((of_char c :: nat) = 32 \<or> (9 \<le> (of_char c :: nat) \<and> (of_char c :: nat) \<le> 13))"

definition digit_val :: "char \<Rightarrow> int" where
  "digit_val c = int (of_char c) - 48"

definition dec :: "char list \<Rightarrow> int" where
  "dec ds = foldl (\<lambda>v c. v * 10 + digit_val c) 0 ds"

text \<open>\<open>long\<close> is 64 bits wide and \<open>int\<close> 32 bits wide (the amd64 ABI).\<close>

definition LONG_MAX :: int where
  "LONG_MAX = 2 ^ 63 - 1"

definition LONG_MIN :: int where
  "LONG_MIN = - (2 ^ 63)"

text \<open>
  \<open>strtol(p, &end, 10)\<close>: skips white space, takes an optional sign and the longest run of
  decimal digits, and saturates at \<open>LONG_MIN\<close> and \<open>LONG_MAX\<close>.  Without a digit the
  result is 0 and the end pointer is \<open>p\<close>.  The result is the value and the end pointer.
\<close>

definition strtol :: "char list \<Rightarrow> int \<times> char list" where
  "strtol p =
     (let p1 = dropWhile isspace p;
          neg = (p1 \<noteq> [] \<and> hd p1 = CHR ''-'');
          p2 = (if p1 \<noteq> [] \<and> (hd p1 = CHR ''-'' \<or> hd p1 = CHR ''+'') then tl p1 else p1);
          ds = takeWhile isdigit p2;
          v = (if neg then - dec ds else dec ds)
      in if ds = [] then (0, p)
         else (max LONG_MIN (min LONG_MAX v), dropWhile isdigit p2))"

text \<open>The conversion \<open>(int) x\<close> of a \<open>long\<close>: the low 32 bits, read as a signed number.\<close>

definition c_int :: "int \<Rightarrow> int" where
  "c_int v = (v + 2 ^ 31) mod 2 ^ 32 - 2 ^ 31"

text \<open>The conversion \<open>(int) *a\<close> of a \<open>char\<close>, which is a signed type on x86.\<close>

definition char_to_int :: "char \<Rightarrow> int" where
  "char_to_int c = (if (of_char c :: nat) < 128 then int (of_char c) else int (of_char c) - 256)"

record version =
  version :: "char list"
  revision :: int
  epoch :: int

definition parse_version :: "string \<Rightarrow> version" where
  "parse_version inp =
     (let s = strdup inp;
          underscore = rindex s CHR ''_'';
          comma = rindex s CHR '','';
          lessthan = rindex s CHR ''<'';
          greaterthan = rindex s CHR ''>'';
          s1 = (case lessthan of None \<Rightarrow> s | Some i \<Rightarrow> s[i := NUL]);
          s2 = (case greaterthan of None \<Rightarrow> s1 | Some i \<Rightarrow> s1[i := NUL]);
          s3 = (case comma of None \<Rightarrow> s2 | Some i \<Rightarrow> s2[i := NUL]);
          e = (case comma of None \<Rightarrow> 0 | Some i \<Rightarrow> c_int (fst (strtol (drop (i + 1) s3))));
          s4 = (case underscore of None \<Rightarrow> s3 | Some i \<Rightarrow> s3[i := NUL]);
          r = (case underscore of None \<Rightarrow> 0 | Some i \<Rightarrow> c_int (fst (strtol (drop (i + 1) s4))))
      in \<lparr> version = s4, revision = r, epoch = e \<rparr>)"

definition cmp_ints :: "int \<Rightarrow> int \<Rightarrow> int" where
  "cmp_ints a b = (if a = b then 0 else if a < b then - 1 else 1)"

text \<open>
  One side of the loop body of \<open>cmp_versions\<close>: the number read at the pointer and the
  pointer afterwards.  On a NUL the number is 0 and the pointer stays.  Otherwise the run
  of \<open>.\<close> and \<open>+\<close> is skipped; a digit starts a \<open>strtol\<close>, any other byte (the NUL
  included) is taken as its own value and stepped over.
\<close>

definition is_sep :: "char \<Rightarrow> bool" where
  "is_sep c = (c = CHR ''.'' \<or> c = CHR ''+'')"

definition next_sub :: "char list \<Rightarrow> (int \<times> char list) option" where
  "next_sub p =
     (case p of
        [] \<Rightarrow> None
      | c # _ \<Rightarrow>
          if c = NUL then Some (0, p)
          else (case dropWhile is_sep p of
                  [] \<Rightarrow> None
                | d # r \<Rightarrow>
                    if isdigit d then Some (c_int (fst (strtol (d # r))), snd (strtol (d # r)))
                    else Some (char_to_int d, r)))"

lemma strtol_digit_length:
  "isdigit d \<Longrightarrow> length (snd (strtol (d # r))) \<le> length r"
proof -
  assume d: "isdigit d"
  then have ns: "\<not> isspace d" and nm: "d \<noteq> CHR ''-''" and np: "d \<noteq> CHR ''+''"
    by (auto simp: isdigit_def isspace_def)
  have "length (dropWhile isdigit r) \<le> length r"
    by (rule length_dropWhile_le)
  with d ns nm np show ?thesis
    by (simp add: strtol_def Let_def)
qed

lemma next_sub_length:
  assumes "next_sub p = Some (v, p')"
  shows "length p' \<le> length p"
proof (cases p)
  case Nil
  with assms show ?thesis by (simp add: next_sub_def)
next
  case (Cons c cs)
  show ?thesis
  proof (cases "c = NUL")
    case True
    with assms Cons show ?thesis by (simp add: next_sub_def)
  next
    case False
    have le: "length (dropWhile is_sep p) \<le> length p"
      by (rule length_dropWhile_le)
    show ?thesis
    proof (cases "dropWhile is_sep p")
      case Nil
      with assms Cons False show ?thesis by (simp add: next_sub_def)
    next
      case (Cons d r)
      with le have lr: "length r < length p" by simp
      show ?thesis
      proof (cases "isdigit d")
        case True
        from strtol_digit_length[OF True, of r] lr
        have "length (snd (strtol (d # r))) \<le> length p" by simp
        with assms \<open>p = c # cs\<close> False Cons True show ?thesis
          by (auto simp: next_sub_def)
      next
        case nd: False
        with assms \<open>p = c # cs\<close> False Cons lr show ?thesis
          by (auto simp: next_sub_def)
      qed
    qed
  qed
qed

lemma next_sub_length_less:
  assumes "next_sub p = Some (v, p')" and "p \<noteq> []" and "hd p \<noteq> NUL"
  shows "length p' < length p"
proof -
  obtain c cs where p: "p = c # cs" using assms(2) by (cases p) auto
  with assms(3) have c: "c \<noteq> NUL" by simp
  have le: "length (dropWhile is_sep p) \<le> length p"
    by (rule length_dropWhile_le)
  show ?thesis
  proof (cases "dropWhile is_sep p")
    case Nil
    with assms(1) p c show ?thesis by (simp add: next_sub_def)
  next
    case (Cons d r)
    with le have lr: "length r < length p" by simp
    show ?thesis
    proof (cases "isdigit d")
      case True
      from strtol_digit_length[OF True, of r] lr
      have "length (snd (strtol (d # r))) < length p" by simp
      with assms(1) p c Cons True show ?thesis
        by (auto simp: next_sub_def)
    next
      case False
      with assms(1) p c Cons lr show ?thesis
        by (auto simp: next_sub_def)
    qed
  qed
qed

text \<open>
  \<open>cmp_versions(a, b)\<close>.  The loop is entered while one of the two pointers is not at a
  NUL; \<open>result\<close> is 0 whenever the loop condition is evaluated, so leaving the loop there
  returns 0.
\<close>

function cmp_versions :: "char list \<Rightarrow> char list \<Rightarrow> int option" where
  "cmp_versions a b =
     (if a = [] \<or> b = [] then None
      else if hd a = NUL \<and> hd b = NUL then Some 0
      else (case next_sub a of
              None \<Rightarrow> None
            | Some (a_sub, a') \<Rightarrow>
                (case next_sub b of
                   None \<Rightarrow> None
                 | Some (b_sub, b') \<Rightarrow>
                     if cmp_ints a_sub b_sub \<noteq> 0 then Some (cmp_ints a_sub b_sub)
                     else cmp_versions a' b')))"
  by pat_completeness auto
termination
proof (relation "measure (\<lambda>(a, b). length a + length b)")
  show "wf (measure (\<lambda>(a, b). length a + length b))" by simp
next
  fix a b :: "char list" and x2 x y a' x2a xa ya b'
  assume ne: "\<not> (a = [] \<or> b = [])"
    and nn: "\<not> (hd a = NUL \<and> hd b = NUL)"
    and sa: "next_sub a = Some x2" and xa: "(x, a') = x2"
    and sb: "next_sub b = Some x2a" and xb: "(xa, b') = x2a"
  from sa xa have sa': "next_sub a = Some (x, a')" by simp
  from sb xb have sb': "next_sub b = Some (xa, b')" by simp
  have la: "length a' \<le> length a" by (rule next_sub_length[OF sa'])
  have lb: "length b' \<le> length b" by (rule next_sub_length[OF sb'])
  from nn have "length a' + length b' < length a + length b"
  proof (cases "hd a = NUL")
    case False
    with ne next_sub_length_less[OF sa'] have "length a' < length a" by simp
    with lb show ?thesis by simp
  next
    case True
    with nn have "hd b \<noteq> NUL" by simp
    with ne next_sub_length_less[OF sb'] have "length b' < length b" by simp
    with la show ?thesis by simp
  qed
  then show "((a', b'), (a, b)) \<in> measure (\<lambda>(a, b). length a + length b)" by simp
qed

declare cmp_versions.simps [simp del]

definition mport_version_cmp :: "string \<Rightarrow> string \<Rightarrow> int option" where
  "mport_version_cmp astr bstr =
     (let a = parse_version astr;
          b = parse_version bstr
      in if cmp_ints (epoch a) (epoch b) \<noteq> 0 then Some (cmp_ints (epoch a) (epoch b))
         else (case cmp_versions (version a) (version b) of
                 None \<Rightarrow> None
               | Some r \<Rightarrow> if r \<noteq> 0 then Some r
                           else Some (cmp_ints (revision a) (revision b))))"

text \<open>
  \<open>mport_version_require_check(baseline, require)\<close>.  The result is \<open>Some 0\<close> when the
  requirement is reported as met, \<open>Some (- 1)\<close> when it is reported as not met, \<open>Some 1\<close>
  for the two error returns (\<open>return 1\<close> and \<open>MPORT_ERR_FATAL\<close>), and \<open>None\<close> where a
  call of \<open>mport_version_cmp\<close> has no defined result.
\<close>

definition MPORT_OK :: int where
  "MPORT_OK = 0"

definition MPORT_ERR_FATAL :: int where
  "MPORT_ERR_FATAL = 1"

definition MPORT_ERR_WARN :: int where
  "MPORT_ERR_WARN = 2"

text \<open>The update of \<open>greater\<close>, \<open>less\<close> or \<open>equal\<close> at index \<open>i\<close>: a pair of two slots.\<close>

definition note_pos :: "int \<times> int \<Rightarrow> nat \<Rightarrow> int \<times> int" where
  "note_pos p i = (if fst p = - 1 then (int i, snd p) else (fst p, int i))"

fun scan_require ::
  "char list \<Rightarrow> nat \<Rightarrow> (int \<times> int) \<times> (int \<times> int) \<times> (int \<times> int)
     \<Rightarrow> (int \<times> int) \<times> (int \<times> int) \<times> (int \<times> int)" where
  "scan_require [] i st = st"
| "scan_require (c # cs) i (greater', less', equal') =
     scan_require cs (Suc i)
       (if c = CHR ''>'' then (note_pos greater' i, less', equal')
        else if c = CHR ''<'' then (greater', note_pos less' i, equal')
        else if c = CHR ''='' then (greater', less', note_pos equal' i)
        else (greater', less', equal'))"

text \<open>\<open>(mport_version_cmp(baseline, str) REL 0) ? 0 : -1\<close>\<close>

definition cmp_check :: "string \<Rightarrow> char list \<Rightarrow> (int \<Rightarrow> bool) \<Rightarrow> int option" where
  "cmp_check baseline str rel =
     map_option (\<lambda>c. if rel c then 0 else - 1) (mport_version_cmp baseline str)"

text \<open>
  A bound that starts at index \<open>k\<close> of the copy \<open>s\<close>: the operator byte is overwritten
  with NUL, a following \<open>=\<close> selects the non-strict comparison.
\<close>

definition upper_bound_at :: "string \<Rightarrow> char list \<Rightarrow> nat \<Rightarrow> char list \<times> int option" where
  "upper_bound_at baseline s k =
     (let s' = s[k := NUL]
      in if s' ! (k + 1) = CHR ''=''
         then (s', cmp_check baseline (drop (k + 2) s') (\<lambda>c. c \<le> 0))
         else (s', cmp_check baseline (drop (k + 1) s') (\<lambda>c. c < 0)))"

definition lower_bound_at :: "string \<Rightarrow> char list \<Rightarrow> nat \<Rightarrow> char list \<times> int option" where
  "lower_bound_at baseline s k =
     (let s' = s[k := NUL]
      in if s' ! (k + 1) = CHR ''=''
         then (s', cmp_check baseline (drop (k + 2) s') (\<lambda>c. c \<ge> 0))
         else (s', cmp_check baseline (drop (k + 1) s') (\<lambda>c. c > 0)))"

definition mport_version_require_check :: "string \<Rightarrow> string \<Rightarrow> int option" where
  "mport_version_require_check baseline require =
     (let req = takeWhile (\<lambda>c. c \<noteq> NUL) require;
          version_size = length req
      in if version_size < 2 then Some 1
         else
           (case scan_require req 0 ((- 1, - 1), (- 1, - 1), (- 1, - 1)) of
              ((greater0, greater1), (less0, less1), (equal0, equal1)) \<Rightarrow>
                if greater0 = - 1 \<and> less0 = - 1 \<and> equal0 = - 1 then Some MPORT_ERR_FATAL
                else if \<not> (greater1 > - 1 \<or> less1 > - 1 \<or> equal1 > - 1 \<or>
                            (greater0 > - 1 \<and> less0 > - 1))
                then
                  (if req ! 0 = CHR ''<'' then
                     (if req ! 1 = CHR ''=''
                      then cmp_check baseline (drop 2 req) (\<lambda>c. c \<le> 0)
                      else cmp_check baseline (drop 1 req) (\<lambda>c. c < 0))
                   else if req ! 0 = CHR ''>'' then
                     (if req ! 1 = CHR ''=''
                      then cmp_check baseline (drop 2 req) (\<lambda>c. c \<ge> 0)
                      else cmp_check baseline (drop 1 req) (\<lambda>c. c > 0))
                   else Some MPORT_ERR_FATAL)
                else
                  (let s = strdup req;
                       (s1, ret1) =
                         (if less1 > 0 then upper_bound_at baseline s (nat less1)
                          else if less0 > greater0 then upper_bound_at baseline s (nat less0)
                          else if greater1 > 0 then lower_bound_at baseline s (nat greater1)
                          else if greater0 > less0 then lower_bound_at baseline s (nat greater0)
                          else (s, Some 0))
                   in case ret1 of
                        None \<Rightarrow> None
                      | Some r1 \<Rightarrow>
                          if r1 = - 1 then Some (- 1)
                          else if greater0 > 0 then
                            cmp_check baseline
                              (drop (nat greater0 + 1) (s1[nat greater0 := NUL])) (\<lambda>c. c > 0)
                          else if less0 > 0 then
                            cmp_check baseline
                              (drop (nat less0 + 1) (s1[nat less0 := NUL])) (\<lambda>c. c < 0)
                          else Some r1)))"

subsection \<open>The reference comparison of the specification\<close>

text \<open>
  The comparison as the specification words it, on unbounded integers: the string is cut
  at the first \<open><\<close> or \<open>>\<close>; a suffix \<open>,N\<close> gives the epoch and a suffix \<open>_N\<close> the
  revision; the bases are walked in lockstep, token by token.
\<close>

definition spec_truncate :: "string \<Rightarrow> string" where
  "spec_truncate s = takeWhile (\<lambda>c. c \<noteq> CHR ''<'' \<and> c \<noteq> CHR ''>'') s"

definition before_last :: "char \<Rightarrow> string \<Rightarrow> string" where
  "before_last c s = rev (tl (dropWhile (\<lambda>x. x \<noteq> c) (rev s)))"

definition after_last :: "char \<Rightarrow> string \<Rightarrow> string" where
  "after_last c s = rev (takeWhile (\<lambda>x. x \<noteq> c) (rev s))"

definition spec_number :: "string \<Rightarrow> int" where
  "spec_number n = dec (takeWhile isdigit n)"

definition spec_parse :: "string \<Rightarrow> int \<times> string \<times> int" where
  "spec_parse s =
     (let t = spec_truncate s;
          e = (if CHR '','' \<in> set t then spec_number (after_last CHR '','' t) else 0);
          t1 = (if CHR '','' \<in> set t then before_last CHR '','' t else t);
          r = (if CHR ''_'' \<in> set t1 then spec_number (after_last CHR ''_'' t1) else 0);
          base = (if CHR ''_'' \<in> set t1 then before_last CHR ''_'' t1 else t1)
      in (e, base, r))"

definition spec_token :: "string \<Rightarrow> int \<times> string" where
  "spec_token s =
     (case dropWhile is_sep s of
        [] \<Rightarrow> (0, [])
      | d # r \<Rightarrow>
          if isdigit d then (dec (takeWhile isdigit (d # r)), dropWhile isdigit (d # r))
          else (int (of_char d), r))"

lemma spec_token_length: "length (snd (spec_token s)) \<le> length s"
proof (cases "dropWhile is_sep s")
  case Nil
  show ?thesis by (simp add: spec_token_def Nil)
next
  case (Cons d r)
  have le: "length (dropWhile is_sep s) \<le> length s" by (rule length_dropWhile_le)
  have "length (dropWhile isdigit (d # r)) \<le> length (d # r)" by (rule length_dropWhile_le)
  with le Cons show ?thesis by (auto simp: spec_token_def)
qed

lemma spec_token_length_less: "s \<noteq> [] \<Longrightarrow> length (snd (spec_token s)) < length s"
proof (cases "dropWhile is_sep s")
  case Nil
  assume "s \<noteq> []"
  then show ?thesis by (simp add: spec_token_def Nil)
next
  case (Cons d r)
  have le: "length (dropWhile is_sep s) \<le> length s" by (rule length_dropWhile_le)
  have "length (dropWhile isdigit r) \<le> length r" by (rule length_dropWhile_le)
  with le Cons show ?thesis by (auto simp: spec_token_def)
qed

definition spec_cmp_num :: "int \<Rightarrow> int \<Rightarrow> int" where
  "spec_cmp_num x y = (if x < y then - 1 else if y < x then 1 else 0)"

function spec_base_cmp :: "string \<Rightarrow> string \<Rightarrow> int" where
  "spec_base_cmp a b =
     (if a = [] \<and> b = [] then 0
      else if spec_cmp_num (fst (spec_token a)) (fst (spec_token b)) \<noteq> 0
           then spec_cmp_num (fst (spec_token a)) (fst (spec_token b))
           else spec_base_cmp (snd (spec_token a)) (snd (spec_token b)))"
  by pat_completeness auto
termination
proof (relation "measure (\<lambda>(a, b). length a + length b)")
  show "wf (measure (\<lambda>(a, b). length a + length b))" by simp
next
  fix a b :: string
  assume ne: "\<not> (a = [] \<and> b = [])"
  have la: "length (snd (spec_token a)) \<le> length a" by (rule spec_token_length)
  have lb: "length (snd (spec_token b)) \<le> length b" by (rule spec_token_length)
  have "length (snd (spec_token a)) + length (snd (spec_token b)) < length a + length b"
  proof (cases "a = []")
    case False
    from spec_token_length_less[OF False] lb show ?thesis by simp
  next
    case True
    with ne have "b \<noteq> []" by simp
    from spec_token_length_less[OF this] la show ?thesis by simp
  qed
  then show "((snd (spec_token a), snd (spec_token b)), (a, b))
               \<in> measure (\<lambda>(a, b). length a + length b)" by simp
qed

declare spec_base_cmp.simps [simp del]

definition spec_version_cmp :: "string \<Rightarrow> string \<Rightarrow> int" where
  "spec_version_cmp a b =
     (case spec_parse a of (ea, ba, ra) \<Rightarrow>
        (case spec_parse b of (eb, bb, rb) \<Rightarrow>
           if spec_cmp_num ea eb \<noteq> 0 then spec_cmp_num ea eb
           else if spec_base_cmp ba bb \<noteq> 0 then spec_base_cmp ba bb
           else spec_cmp_num ra rb))"

text \<open>
  Version strings on which the code and the reference are compared: ASCII bytes only, at
  most one range operator with no further \<open>,\<close>, \<open>_\<close>, \<open><\<close> or \<open>>\<close> behind it,
  epoch and revision written as decimal numbers up to \<open>INT_MAX\<close>, and a base that does
  not end in \<open>.\<close> or \<open>+\<close> and whose decimal runs are at most \<open>INT_MAX\<close>.
\<close>

definition INT_MAX :: int where
  "INT_MAX = 2 ^ 31 - 1"

definition ascii :: "string \<Rightarrow> bool" where
  "ascii s = list_all (\<lambda>c. 0 < (of_char c :: nat) \<and> (of_char c :: nat) < 128) s"

definition no_trailing_sep :: "string \<Rightarrow> bool" where
  "no_trailing_sep b = (b = [] \<or> \<not> is_sep (last b))"

function runs_fit :: "string \<Rightarrow> bool" where
  "runs_fit b =
     (case dropWhile is_sep b of
        [] \<Rightarrow> True
      | d # r \<Rightarrow>
          if isdigit d
          then dec (takeWhile isdigit (d # r)) \<le> INT_MAX \<and> runs_fit (dropWhile isdigit r)
          else runs_fit r)"
  by pat_completeness auto
termination
proof (relation "measure length")
  show "wf (measure length)" by simp
next
  fix b :: string and d r
  assume c: "dropWhile is_sep b = d # r"
  have le: "length (dropWhile is_sep b) \<le> length b" by (rule length_dropWhile_le)
  have "length (dropWhile isdigit r) \<le> length r" by (rule length_dropWhile_le)
  with le c show "(dropWhile isdigit r, b) \<in> measure length" by simp
next
  fix b :: string and d r
  assume c: "dropWhile is_sep b = d # r"
  have le: "length (dropWhile is_sep b) \<le> length b" by (rule length_dropWhile_le)
  with c show "(r, b) \<in> measure length" by simp
qed

declare runs_fit.simps [simp del]

definition canonical :: "string \<Rightarrow> bool" where
  "canonical s =
     (let t = spec_truncate s;
          tail = drop (length t) s;
          has_e = (CHR '','' \<in> set t);
          t1 = (if has_e then before_last CHR '','' t else t);
          e_txt = (if has_e then after_last CHR '','' t else []);
          has_r = (CHR ''_'' \<in> set t1);
          base = (if has_r then before_last CHR ''_'' t1 else t1);
          r_txt = (if has_r then after_last CHR ''_'' t1 else [])
      in ascii s \<and>
         list_all (\<lambda>c. c \<noteq> CHR '','' \<and> c \<noteq> CHR ''_'' \<and> c \<noteq> CHR ''<'' \<and> c \<noteq> CHR ''>'') (tl tail) \<and>
         list_all isdigit e_txt \<and> dec e_txt \<le> INT_MAX \<and>
         list_all isdigit r_txt \<and> dec r_txt \<le> INT_MAX \<and>
         no_trailing_sep base \<and> runs_fit base)"

lemma cmp_ints_antisym: "cmp_ints a b = - cmp_ints b a"
  by (simp add: cmp_ints_def)

lemma cmp_versions_antisym:
  "cmp_versions a b = map_option uminus (cmp_versions b a)"
proof (induction a b rule: cmp_versions.induct)
  case (1 a b)
  show ?case
  proof (cases "a = [] \<or> b = []")
    case True
    then show ?thesis
      by (subst cmp_versions.simps, subst (2) cmp_versions.simps) auto
  next
    case ne: False
    show ?thesis
    proof (cases "hd a = NUL \<and> hd b = NUL")
      case True
      with ne show ?thesis
        by (subst cmp_versions.simps, subst (2) cmp_versions.simps) auto
    next
      case nn: False
      show ?thesis
      proof (cases "next_sub a")
        case None
        with ne nn show ?thesis
          by (subst cmp_versions.simps, subst (2) cmp_versions.simps)
             (auto split: option.splits)
      next
        case sa: (Some pa)
        obtain x a' where pa: "pa = (x, a')" by (cases pa)
        show ?thesis
        proof (cases "next_sub b")
          case None
          with ne nn sa show ?thesis
            by (subst cmp_versions.simps, subst (2) cmp_versions.simps)
               (auto split: option.splits)
        next
          case sb: (Some pb)
          obtain y b' where pb: "pb = (y, b')" by (cases pb)
          show ?thesis
          proof (cases "cmp_ints x y = 0")
            case True
            then have yx: "cmp_ints y x = 0" using cmp_ints_antisym[of y x] by simp
            have ih: "cmp_versions a' b' = map_option uminus (cmp_versions b' a')"
              using "1.IH"[OF ne nn sa pa[symmetric] sb pb[symmetric]] True by simp
            have l: "cmp_versions a b = cmp_versions a' b'"
              using ne nn sa sb pa pb True by (subst cmp_versions.simps) auto
            have r: "cmp_versions b a = cmp_versions b' a'"
              using ne nn sa sb pa pb yx by (subst cmp_versions.simps) auto
            show ?thesis using l r ih by simp
          next
            case False
            then have yx: "cmp_ints y x \<noteq> 0" using cmp_ints_antisym[of x y] by simp
            have l: "cmp_versions a b = Some (cmp_ints x y)"
              using ne nn sa sb pa pb False by (subst cmp_versions.simps) auto
            have r: "cmp_versions b a = Some (cmp_ints y x)"
              using ne nn sa sb pa pb yx by (subst cmp_versions.simps) auto
            show ?thesis using l r cmp_ints_antisym[of x y] by simp
          qed
        qed
      qed
    qed
  qed
qed

text \<open>
  Where the comparison has a defined result, comparing in the opposite order negates it;
  where the walk of \<open>cmp_versions\<close> leaves its buffer in one order it does so in the
  other order too.
\<close>

lemma mport_version_cmp_antisym:
  "mport_version_cmp a b = map_option uminus (mport_version_cmp b a)"
proof -
  have e: "cmp_ints (epoch (parse_version a)) (epoch (parse_version b)) =
           - cmp_ints (epoch (parse_version b)) (epoch (parse_version a))"
    by (rule cmp_ints_antisym)
  have r: "cmp_ints (revision (parse_version a)) (revision (parse_version b)) =
           - cmp_ints (revision (parse_version b)) (revision (parse_version a))"
    by (rule cmp_ints_antisym)
  have v: "cmp_versions (version (parse_version a)) (version (parse_version b)) =
           map_option uminus
             (cmp_versions (version (parse_version b)) (version (parse_version a)))"
    by (rule cmp_versions_antisym)
  show ?thesis
    unfolding mport_version_cmp_def Let_def
    using e r v by (auto split: option.splits)
qed

text \<open>
  Claim C9.  \<open>mport_version_cmp(a, b) = - mport_version_cmp(b, a)\<close> is to hold for every
  pair of strings.  For \<open>1.\<close> and \<open>1\<close> the code has no result to negate: after the
  components \<open>1\<close> and \<open>1\<close> the walk of \<open>cmp_versions\<close> skips the trailing \<open>.\<close>, takes
  the terminating NUL as a component of value 0 and steps over it, and the loop condition
  then reads the byte behind the buffer that \<open>strdup\<close> allocated, in either order of the
  arguments.  With a component after the separator the results are defined and opposite.
\<close>

theorem mport_version_cmp_reads_past_trailing_separator:
  "mport_version_cmp ''1.'' ''1'' = None \<and> mport_version_cmp ''1'' ''1.'' = None \<and>
   mport_version_cmp ''1.0'' ''1'' = Some 0 \<and> mport_version_cmp ''1'' ''1.0'' = Some 0 \<and>
   mport_version_cmp ''1.1'' ''1'' = Some 1 \<and> mport_version_cmp ''1'' ''1.1'' = Some (- 1)"
  by code_simp

subsection \<open>The walk of the code and the walk of the reference\<close>

lemma takeWhile_stop: "\<not> P y \<Longrightarrow> takeWhile P (xs @ y # ys) = takeWhile P xs"
  by (induction xs) auto

lemma dropWhile_stop: "\<not> P y \<Longrightarrow> dropWhile P (xs @ y # ys) = dropWhile P xs @ y # ys"
  by (induction xs) auto

lemma NUL_not_digit: "\<not> isdigit NUL"
  by (simp add: isdigit_def NUL_def)

lemma NUL_not_sep: "\<not> is_sep NUL"
  by (simp add: is_sep_def NUL_def)

lemma foldl_dec_nonneg:
  "list_all isdigit ds \<Longrightarrow> 0 \<le> acc \<Longrightarrow> 0 \<le> foldl (\<lambda>v c. v * 10 + digit_val c) acc ds"
proof (induction ds arbitrary: acc)
  case Nil
  then show ?case by simp
next
  case (Cons d ds)
  from Cons.prems have "0 \<le> acc * 10 + digit_val d"
    by (simp add: isdigit_def digit_val_def)
  with Cons show ?case by simp
qed

lemma dec_nonneg: "list_all isdigit ds \<Longrightarrow> 0 \<le> dec ds"
  unfolding dec_def by (rule foldl_dec_nonneg) simp_all

lemma takeWhile_all: "list_all P (takeWhile P xs)"
  by (induction xs) auto

lemma strtol_digit:
  assumes "isdigit d"
  shows "strtol (d # r) =
           (max LONG_MIN (min LONG_MAX (dec (takeWhile isdigit (d # r)))),
            dropWhile isdigit (d # r))"
proof -
  from assms have "\<not> isspace d" "d \<noteq> CHR ''-''" "d \<noteq> CHR ''+''"
    by (auto simp: isdigit_def isspace_def)
  with assms show ?thesis by (simp add: strtol_def Let_def)
qed

lemma c_int_small:
  assumes "0 \<le> v" and "v \<le> INT_MAX"
  shows "c_int (max LONG_MIN (min LONG_MAX v)) = v"
proof -
  from assms have "max LONG_MIN (min LONG_MAX v) = v"
    by (simp add: LONG_MIN_def LONG_MAX_def INT_MAX_def)
  moreover from assms have "c_int v = v"
    by (simp add: c_int_def INT_MAX_def)
  ultimately show ?thesis by simp
qed

text \<open>A base on which the walk of \<open>cmp_versions\<close> stays inside the base and inside \<open>int\<close>.\<close>

definition walkable :: "string \<Rightarrow> bool" where
  "walkable a = (ascii a \<and> no_trailing_sep a \<and> runs_fit a)"

lemma ascii_suffix: "ascii (xs @ ys) \<Longrightarrow> ascii ys"
  by (simp add: ascii_def)

lemma ascii_dropWhile: "ascii xs \<Longrightarrow> ascii (dropWhile P xs)"
  by (metis ascii_suffix takeWhile_dropWhile_id)

lemma no_trailing_sep_suffix: "no_trailing_sep (xs @ ys) \<Longrightarrow> no_trailing_sep ys"
  by (cases "ys = []") (auto simp: no_trailing_sep_def)

lemma no_trailing_sep_dropWhile: "no_trailing_sep xs \<Longrightarrow> no_trailing_sep (dropWhile P xs)"
  by (metis no_trailing_sep_suffix takeWhile_dropWhile_id)

lemma no_trailing_sep_nonempty:
  assumes "no_trailing_sep a" and "a \<noteq> []"
  shows "dropWhile is_sep a \<noteq> []"
proof
  assume "dropWhile is_sep a = []"
  then have "\<forall>x\<in>set a. is_sep x" by (simp add: dropWhile_eq_Nil_conv)
  moreover from assms(2) have "last a \<in> set a" by simp
  ultimately have "is_sep (last a)" by blast
  with assms show False by (simp add: no_trailing_sep_def)
qed

lemma ascii_hd_not_NUL: "ascii a \<Longrightarrow> a \<noteq> [] \<Longrightarrow> hd a \<noteq> NUL"
  by (cases a) (auto simp: ascii_def NUL_def)

lemma next_sub_walk:
  assumes "walkable a"
  shows "next_sub (a @ NUL # ja) = Some (fst (spec_token a), snd (spec_token a) @ NUL # ja)"
    and "walkable (snd (spec_token a))"
proof -
  from assms have asc: "ascii a" and nts: "no_trailing_sep a" and rf: "runs_fit a"
    by (simp_all add: walkable_def)
  show "next_sub (a @ NUL # ja) = Some (fst (spec_token a), snd (spec_token a) @ NUL # ja)"
  proof (cases "a = []")
    case True
    then show ?thesis by (simp add: next_sub_def spec_token_def)
  next
    case False
    then obtain c cs where a: "a = c # cs" by (cases a) auto
    from ascii_hd_not_NUL[OF asc False] a have c: "c \<noteq> NUL" by simp
    from no_trailing_sep_nonempty[OF nts False]
    obtain d r where dr: "dropWhile is_sep a = d # r" by (cases "dropWhile is_sep a") auto
    then have "d \<in> set a" by (metis list.set_intros(1) set_dropWhileD)
    have nsd: "\<not> is_sep d" using dr by (metis hd_dropWhile list.sel(1) list.simps(3))
    have dw: "dropWhile is_sep (a @ NUL # ja) = d # r @ NUL # ja"
      using dropWhile_append1[of d a is_sep "NUL # ja"] \<open>d \<in> set a\<close> nsd dr by simp
    have ad: "of_char d < (128 :: nat)"
      using asc \<open>d \<in> set a\<close> by (auto simp: ascii_def list_all_iff)
    show ?thesis
    proof (cases "isdigit d")
      case True
      have tw: "takeWhile isdigit (d # r @ NUL # ja) = takeWhile isdigit (d # r)"
        using takeWhile_stop[of isdigit NUL "d # r" ja] NUL_not_digit by simp
      have dd: "dropWhile isdigit (d # r @ NUL # ja) = dropWhile isdigit (d # r) @ NUL # ja"
        using dropWhile_stop[of isdigit NUL "d # r" ja] NUL_not_digit by simp
      have st: "strtol (d # r @ NUL # ja) =
                  (max LONG_MIN (min LONG_MAX (dec (takeWhile isdigit (d # r)))),
                   dropWhile isdigit (d # r) @ NUL # ja)"
        using strtol_digit[OF True, of "r @ NUL # ja"] tw dd by simp
      have bound: "dec (takeWhile isdigit (d # r)) \<le> INT_MAX"
        using rf dr True by (subst (asm) runs_fit.simps) simp
      have nn: "0 \<le> dec (takeWhile isdigit (d # r))"
        by (rule dec_nonneg) (rule takeWhile_all)
      have ci: "c_int (max LONG_MIN (min LONG_MAX (dec (takeWhile isdigit (d # r))))) =
                dec (takeWhile isdigit (d # r))"
        by (rule c_int_small[OF nn bound])
      have l: "next_sub (a @ NUL # ja) =
                 Some (dec (takeWhile isdigit (d # r)), dropWhile isdigit (d # r) @ NUL # ja)"
        using a c dw True st ci by (simp add: next_sub_def)
      have r: "spec_token a = (dec (takeWhile isdigit (d # r)), dropWhile isdigit (d # r))"
        using dr True by (simp add: spec_token_def)
      show ?thesis using l r by simp
    next
      case nd: False
      have l: "next_sub (a @ NUL # ja) = Some (char_to_int d, r @ NUL # ja)"
        using a c dw nd by (simp add: next_sub_def)
      have r: "spec_token a = (int (of_char d), r)"
        using dr nd by (simp add: spec_token_def)
      show ?thesis using l r ad by (simp add: char_to_int_def)
    qed
  qed
  show "walkable (snd (spec_token a))"
  proof (cases "dropWhile is_sep a")
    case Nil
    then show ?thesis
      by (simp add: spec_token_def Nil walkable_def ascii_def no_trailing_sep_def runs_fit.simps)
  next
    case (Cons d r)
    have a1: "ascii (d # r)" using ascii_dropWhile[OF asc, of is_sep] Cons by simp
    have n1: "no_trailing_sep (d # r)" using no_trailing_sep_dropWhile[OF nts, of is_sep] Cons by simp
    show ?thesis
    proof (cases "isdigit d")
      case True
      have s: "snd (spec_token a) = dropWhile isdigit r"
        using Cons True by (simp add: spec_token_def)
      have "ascii (dropWhile isdigit (d # r))" by (rule ascii_dropWhile[OF a1])
      moreover have "no_trailing_sep (dropWhile isdigit (d # r))"
        by (rule no_trailing_sep_dropWhile[OF n1])
      moreover have "runs_fit (dropWhile isdigit r)"
        using rf Cons True by (subst (asm) runs_fit.simps) simp
      ultimately show ?thesis using s True by (simp add: walkable_def)
    next
      case False
      have s: "snd (spec_token a) = r"
        using Cons False by (simp add: spec_token_def)
      have "ascii r" using ascii_suffix[of "[d]" r] a1 by simp
      moreover have "no_trailing_sep r" using no_trailing_sep_suffix[of "[d]" r] n1 by simp
      moreover have "runs_fit r"
        using rf Cons False by (subst (asm) runs_fit.simps) simp
      ultimately show ?thesis using s by (simp add: walkable_def)
    qed
  qed
qed

lemma cmp_ints_spec: "cmp_ints x y = spec_cmp_num x y"
  by (simp add: cmp_ints_def spec_cmp_num_def)

lemma cmp_versions_walk:
  "walkable a \<Longrightarrow> walkable b \<Longrightarrow>
   cmp_versions (a @ NUL # ja) (b @ NUL # jb) = Some (spec_base_cmp a b)"
proof (induction a b rule: spec_base_cmp.induct)
  case (1 a b)
  note wa = \<open>walkable a\<close> and wb = \<open>walkable b\<close>
  have asc: "ascii a" "ascii b" using wa wb by (simp_all add: walkable_def)
  show ?case
  proof (cases "a = [] \<and> b = []")
    case True
    then show ?thesis
      by (subst cmp_versions.simps, subst spec_base_cmp.simps) simp
  next
    case False
    have hd: "\<not> (hd (a @ NUL # ja) = NUL \<and> hd (b @ NUL # jb) = NUL)"
    proof (cases "a = []")
      case True
      with False have "b \<noteq> []" by simp
      then show ?thesis using ascii_hd_not_NUL[OF asc(2)] by simp
    next
      case False
      then show ?thesis using ascii_hd_not_NUL[OF asc(1)] by simp
    qed
    note sa = next_sub_walk(1)[OF wa, of ja] and sb = next_sub_walk(1)[OF wb, of jb]
    show ?thesis
    proof (cases "spec_cmp_num (fst (spec_token a)) (fst (spec_token b)) = 0")
      case z: True
      have ih: "cmp_versions (snd (spec_token a) @ NUL # ja) (snd (spec_token b) @ NUL # jb) =
                Some (spec_base_cmp (snd (spec_token a)) (snd (spec_token b)))"
        using "1.IH"[OF False _ next_sub_walk(2)[OF wa] next_sub_walk(2)[OF wb]] z by simp
      have l: "cmp_versions (a @ NUL # ja) (b @ NUL # jb) =
               cmp_versions (snd (spec_token a) @ NUL # ja) (snd (spec_token b) @ NUL # jb)"
        using hd sa sb z by (subst cmp_versions.simps) (auto simp: cmp_ints_spec)
      have r: "spec_base_cmp a b = spec_base_cmp (snd (spec_token a)) (snd (spec_token b))"
        using False z by (subst spec_base_cmp.simps) auto
      show ?thesis using l r ih by simp
    next
      case nz: False
      have l: "cmp_versions (a @ NUL # ja) (b @ NUL # jb) =
               Some (spec_cmp_num (fst (spec_token a)) (fst (spec_token b)))"
        using hd sa sb nz by (subst cmp_versions.simps) (auto simp: cmp_ints_spec)
      have r: "spec_base_cmp a b = spec_cmp_num (fst (spec_token a)) (fst (spec_token b))"
        using False nz by (subst spec_base_cmp.simps) auto
      show ?thesis using l r by simp
    qed
  qed
qed

subsection \<open>Parsing: the code and the reference\<close>

lemma rindex_last: "c \<notin> set ys \<Longrightarrow> rindex (xs @ c # ys) c = Some (length xs)"
proof -
  assume n: "c \<notin> set ys"
  then have "takeWhile (\<lambda>x. x \<noteq> c) (rev ys) = rev ys"
    by (auto simp: takeWhile_eq_all_conv)
  then have "takeWhile (\<lambda>x. x \<noteq> c) (rev ys @ c # rev xs) = rev ys"
    using takeWhile_stop[of "\<lambda>x. x \<noteq> c" c "rev ys" "rev xs"] by simp
  then show ?thesis by (simp add: rindex_def)
qed

lemma rindex_none: "c \<notin> set s \<Longrightarrow> rindex s c = None"
  by (simp add: rindex_def)

lemma split_last:
  assumes "c \<in> set t"
  shows "t = before_last c t @ c # after_last c t" and "c \<notin> set (after_last c t)"
proof -
  let ?P = "\<lambda>x. x \<noteq> c"
  from assms have "c \<in> set (rev t)" by simp
  then have ne: "dropWhile ?P (rev t) \<noteq> []" by (simp add: dropWhile_eq_Nil_conv)
  then have hd: "hd (dropWhile ?P (rev t)) = c" using hd_dropWhile[of ?P "rev t"] by simp
  from ne hd have dw: "dropWhile ?P (rev t) = c # tl (dropWhile ?P (rev t))"
    by (cases "dropWhile ?P (rev t)") auto
  have "rev t = takeWhile ?P (rev t) @ dropWhile ?P (rev t)" by simp
  then have "rev t = takeWhile ?P (rev t) @ c # tl (dropWhile ?P (rev t))" using dw by simp
  then have "rev (rev t) = rev (takeWhile ?P (rev t) @ c # tl (dropWhile ?P (rev t)))" by simp
  then show "t = before_last c t @ c # after_last c t"
    by (simp add: before_last_def after_last_def)
  show "c \<notin> set (after_last c t)"
    using set_takeWhileD[of c ?P "rev t"] by (auto simp: after_last_def)
qed

lemma digits_no_char:
  "list_all isdigit ds \<Longrightarrow> \<not> isdigit c \<Longrightarrow> c \<notin> set ds"
  by (auto simp: list_all_iff)

lemma special_not_digit:
  "\<not> isdigit CHR '',''" "\<not> isdigit CHR ''_''" "\<not> isdigit CHR ''<''" "\<not> isdigit CHR ''>''"
  by (simp_all add: isdigit_def)

lemma takeWhile_id: "list_all P xs \<Longrightarrow> takeWhile P xs = xs"
  by (simp add: takeWhile_eq_all_conv list_all_iff)

lemma strtol_digits_NUL:
  assumes "list_all isdigit ds" and "dec ds \<le> INT_MAX"
  shows "c_int (fst (strtol (ds @ NUL # rest))) = dec ds"
proof (cases ds)
  case Nil
  have "\<not> isspace NUL" "NUL \<noteq> CHR ''-''" "NUL \<noteq> CHR ''+''"
    by (simp_all add: isspace_def NUL_def)
  then have "strtol (NUL # rest) = (0, NUL # rest)"
    using NUL_not_digit by (simp add: strtol_def Let_def)
  with Nil show ?thesis by (simp add: dec_def c_int_def)
next
  case (Cons d ds')
  with assms(1) have d: "isdigit d" by simp
  have tw: "takeWhile isdigit (ds @ NUL # rest) = ds"
    using takeWhile_stop[of isdigit NUL ds rest] NUL_not_digit takeWhile_id[OF assms(1)] by simp
  have "fst (strtol (ds @ NUL # rest)) = max LONG_MIN (min LONG_MAX (dec ds))"
    using strtol_digit[OF d, of "ds' @ NUL # rest"] tw Cons by simp
  then show ?thesis using c_int_small[OF dec_nonneg[OF assms(1)] assms(2)] by simp
qed

lemma ascii_strdup: "ascii s \<Longrightarrow> strdup s = s @ [NUL]"
proof -
  assume "ascii s"
  then have "\<forall>c\<in>set s. c \<noteq> NUL" by (auto simp: ascii_def list_all_iff NUL_def)
  then have "takeWhile (\<lambda>c. c \<noteq> NUL) s = s" by (simp add: takeWhile_eq_all_conv)
  then show ?thesis by (simp add: strdup_def)
qed

lemma parse_version_unfold:
  assumes "rindex (strdup inp) CHR ''_'' = u" and "rindex (strdup inp) CHR '','' = c"
    and "rindex (strdup inp) CHR ''<'' = l" and "rindex (strdup inp) CHR ''>'' = g"
    and "(case g of None \<Rightarrow> (case l of None \<Rightarrow> strdup inp | Some i \<Rightarrow> (strdup inp)[i := NUL])
                  | Some i \<Rightarrow> (case l of None \<Rightarrow> strdup inp | Some i \<Rightarrow> (strdup inp)[i := NUL])[i := NUL]) = s2"
    and "(case c of None \<Rightarrow> s2 | Some i \<Rightarrow> s2[i := NUL]) = s3"
    and "(case u of None \<Rightarrow> s3 | Some i \<Rightarrow> s3[i := NUL]) = s4"
  shows "version (parse_version inp) = s4"
    and "epoch (parse_version inp) = (case c of None \<Rightarrow> 0 | Some i \<Rightarrow> c_int (fst (strtol (drop (i + 1) s3))))"
    and "revision (parse_version inp) = (case u of None \<Rightarrow> 0 | Some i \<Rightarrow> c_int (fst (strtol (drop (i + 1) s4))))"
  using assms by (auto simp: parse_version_def Let_def)

lemma NUL_not_special:
  "NUL \<noteq> CHR '',''" "NUL \<noteq> CHR ''_''" "NUL \<noteq> CHR ''<''" "NUL \<noteq> CHR ''>''"
  by (simp_all add: NUL_def)

lemma parse_version_canonical:
  assumes can: "canonical s"
  shows "\<exists>J. version (parse_version s) = fst (snd (spec_parse s)) @ NUL # J"
    and "epoch (parse_version s) = fst (spec_parse s)"
    and "revision (parse_version s) = snd (snd (spec_parse s))"
    and "walkable (fst (snd (spec_parse s)))"
proof -
  let ?P = "\<lambda>c. c \<noteq> CHR ''<'' \<and> c \<noteq> CHR ''>''"
  define t where "t = spec_truncate s"
  define tail where "tail = drop (length t) s"
  define has_e where "has_e = (CHR '','' \<in> set t)"
  define t1 where "t1 = (if has_e then before_last CHR '','' t else t)"
  define et where "et = (if has_e then after_last CHR '','' t else [])"
  define has_r where "has_r = (CHR ''_'' \<in> set t1)"
  define B where "B = (if has_r then before_last CHR ''_'' t1 else t1)"
  define rt where "rt = (if has_r then after_last CHR ''_'' t1 else [])"
  define E where "E = (if has_e then CHR '','' # et else [])"
  define R where "R = (if has_r then CHR ''_'' # rt else [])"
  from can have asc: "ascii s"
    and tlfree: "list_all (\<lambda>c. c \<noteq> CHR '','' \<and> c \<noteq> CHR ''_'' \<and> c \<noteq> CHR ''<'' \<and> c \<noteq> CHR ''>'') (tl tail)"
    and etd: "list_all isdigit et" and etb: "dec et \<le> INT_MAX"
    and rtd: "list_all isdigit rt" and rtb: "dec rt \<le> INT_MAX"
    and nts: "no_trailing_sep B" and rf: "runs_fit B"
    unfolding canonical_def Let_def t_def tail_def has_e_def t1_def et_def has_r_def B_def rt_def
    by simp_all
  have tw: "t = takeWhile ?P s" by (simp add: t_def spec_truncate_def)
  have tail_dw: "tail = dropWhile ?P s"
    unfolding tail_def tw by (rule dropWhile_eq_drop[symmetric])
  have st: "s = t @ tail" unfolding tw tail_dw by simp
  have t_lt: "CHR ''<'' \<notin> set t"
  proof
    assume "CHR ''<'' \<in> set t"
    then have "CHR ''<'' \<in> set (takeWhile ?P s)" by (simp add: tw)
    from set_takeWhileD[OF this] show False by simp
  qed
  have t_gt: "CHR ''>'' \<notin> set t"
  proof
    assume "CHR ''>'' \<in> set t"
    then have "CHR ''>'' \<in> set (takeWhile ?P s)" by (simp add: tw)
    from set_takeWhileD[OF this] show False by simp
  qed
  have tE: "t = t1 @ E"
    using split_last(1)[of "CHR '',''" t] by (auto simp: E_def t1_def et_def has_e_def)
  have t1R: "t1 = B @ R"
    using split_last(1)[of "CHR ''_''" t1] by (auto simp: R_def B_def rt_def has_r_def)
  have buf: "strdup s = t @ tail @ [NUL]" using ascii_strdup[OF asc] st by simp
  have sp0: "spec_parse s =
      ((if has_e then dec (takeWhile isdigit (after_last CHR '','' t)) else 0),
       (if has_r then before_last CHR ''_'' t1 else t1),
       (if has_r then dec (takeWhile isdigit (after_last CHR ''_'' t1)) else 0))"
    unfolding spec_parse_def Let_def spec_number_def
    unfolding t_def[symmetric]
    unfolding has_e_def[symmetric]
    unfolding t1_def[symmetric]
    unfolding has_r_def[symmetric]
    by (rule refl)
  have e1: "takeWhile isdigit (after_last CHR '','' t) = after_last CHR '','' t" if has_e
  proof -
    from that etd have "list_all isdigit (after_last CHR '','' t)" by (simp add: et_def)
    then show ?thesis by (rule takeWhile_id)
  qed
  have r1: "takeWhile isdigit (after_last CHR ''_'' t1) = after_last CHR ''_'' t1" if has_r
  proof -
    from that rtd have "list_all isdigit (after_last CHR ''_'' t1)" by (simp add: rt_def)
    then show ?thesis by (rule takeWhile_id)
  qed
  have sp: "spec_parse s = ((if has_e then dec et else 0), B, (if has_r then dec rt else 0))"
    unfolding sp0 by (simp add: e1 r1 B_def et_def rt_def)
  have tail_free: "CHR '','' \<notin> set tail" "CHR ''_'' \<notin> set tail"
  proof -
    have hd: "tail = [] \<or> \<not> ?P (hd tail)"
      unfolding tail_dw using hd_dropWhile[of ?P s] by auto
    have "\<forall>c\<in>set (tl tail). c \<noteq> CHR '','' \<and> c \<noteq> CHR ''_''"
      using tlfree by (auto simp: list_all_iff)
    with hd show "CHR '','' \<notin> set tail" "CHR ''_'' \<notin> set tail"
      by (cases tail; auto)+
  qed
  have E_free: "CHR ''_'' \<notin> set E"
    using digits_no_char[OF etd special_not_digit(2)] by (simp add: E_def)
  \<comment> \<open>the two range operators\<close>
  obtain l g T' where l: "rindex (strdup s) CHR ''<'' = l" and g: "rindex (strdup s) CHR ''>'' = g"
    and s2: "(case g of None \<Rightarrow> (case l of None \<Rightarrow> strdup s | Some i \<Rightarrow> (strdup s)[i := NUL])
               | Some i \<Rightarrow> (case l of None \<Rightarrow> strdup s | Some i \<Rightarrow> (strdup s)[i := NUL])[i := NUL])
             = t @ NUL # T'"
  proof (cases tail)
    case Nil
    have "rindex (strdup s) CHR ''<'' = None" "rindex (strdup s) CHR ''>'' = None"
      using t_lt t_gt NUL_not_special by (auto simp: buf Nil intro!: rindex_none)
    moreover have "strdup s = t @ NUL # []" by (simp add: buf Nil)
    ultimately show ?thesis using that[of None None "[]"] by simp
  next
    case (Cons c tl')
    have c: "c = CHR ''<'' \<or> c = CHR ''>''"
      using hd_dropWhile[of ?P s] Cons unfolding tail_dw[symmetric] by auto
    have tlf: "CHR ''<'' \<notin> set (tl' @ [NUL])" "CHR ''>'' \<notin> set (tl' @ [NUL])"
      using tlfree Cons NUL_not_special by (auto simp: list_all_iff)
    have upd: "(t @ c # tl' @ [NUL])[length t := NUL] = t @ NUL # tl' @ [NUL]"
      by (rule list_update_length)
    from c show ?thesis
    proof
      assume cl: "c = CHR ''<''"
      have "rindex (strdup s) CHR ''<'' = Some (length t)"
        unfolding buf Cons cl using rindex_last[OF tlf(1), of t] by simp
      moreover have "rindex (strdup s) CHR ''>'' = None"
        unfolding buf Cons cl using t_gt tlf(2) by (auto intro!: rindex_none)
      ultimately show ?thesis
        using that[of "Some (length t)" None "tl' @ [NUL]"] upd by (simp add: buf Cons cl)
    next
      assume cg: "c = CHR ''>''"
      have "rindex (strdup s) CHR ''>'' = Some (length t)"
        unfolding buf Cons cg using rindex_last[OF tlf(2), of t] by simp
      moreover have "rindex (strdup s) CHR ''<'' = None"
        unfolding buf Cons cg using t_lt tlf(1) by (auto intro!: rindex_none)
      ultimately show ?thesis
        using that[of None "Some (length t)" "tl' @ [NUL]"] upd by (simp add: buf Cons cg)
    qed
  qed
  \<comment> \<open>the comma\<close>
  obtain c T'' where c: "rindex (strdup s) CHR '','' = c"
    and s3: "(case c of None \<Rightarrow> t @ NUL # T' | Some i \<Rightarrow> (t @ NUL # T')[i := NUL]) = t1 @ NUL # T''"
    and ep: "(case c of None \<Rightarrow> 0 | Some i \<Rightarrow> c_int (fst (strtol (drop (i + 1) (t1 @ NUL # T''))))) =
             (if has_e then dec et else 0)"
  proof (cases has_e)
    case False
    then have "CHR '','' \<notin> set t" by (simp add: has_e_def)
    then have "rindex (strdup s) CHR '','' = None"
      using tail_free(1) NUL_not_special by (auto simp: buf intro!: rindex_none)
    moreover have "t = t1" using False by (simp add: t1_def)
    ultimately show ?thesis using that[of None T'] False by simp
  next
    case True
    then have t: "t = t1 @ CHR '','' # et" using tE by (simp add: E_def)
    have "CHR '','' \<notin> set et" using digits_no_char[OF etd special_not_digit(1)] .
    then have nf: "CHR '','' \<notin> set (et @ tail @ [NUL])"
      using tail_free(1) NUL_not_special by auto
    have ri: "rindex (strdup s) CHR '','' = Some (length t1)"
      unfolding buf t using rindex_last[OF nf, of t1] by simp
    have upd: "(t1 @ CHR '','' # et @ NUL # T')[length t1 := NUL] = t1 @ NUL # et @ NUL # T'"
      by (rule list_update_length)
    have dr: "drop (length t1 + 1) (t1 @ NUL # et @ NUL # T') = et @ NUL # T'" by simp
    show ?thesis
      using that[of "Some (length t1)" "et @ NUL # T'"] ri upd dr True
        strtol_digits_NUL[OF etd etb, of T'] by (simp add: t)
  qed
  \<comment> \<open>the underscore\<close>
  obtain u J where u: "rindex (strdup s) CHR ''_'' = u"
    and s4: "(case u of None \<Rightarrow> t1 @ NUL # T'' | Some i \<Rightarrow> (t1 @ NUL # T'')[i := NUL]) = B @ NUL # J"
    and rv: "(case u of None \<Rightarrow> 0 | Some i \<Rightarrow> c_int (fst (strtol (drop (i + 1) (B @ NUL # J))))) =
             (if has_r then dec rt else 0)"
  proof (cases has_r)
    case False
    then have "CHR ''_'' \<notin> set t1" by (simp add: has_r_def)
    then have "rindex (strdup s) CHR ''_'' = None"
      using tail_free(2) E_free NUL_not_special by (auto simp: buf tE intro!: rindex_none)
    moreover have "t1 = B" using False by (simp add: B_def)
    ultimately show ?thesis using that[of None T''] False by simp
  next
    case True
    then have t1: "t1 = B @ CHR ''_'' # rt" using t1R by (simp add: R_def)
    have "CHR ''_'' \<notin> set rt" using digits_no_char[OF rtd special_not_digit(2)] .
    then have nf: "CHR ''_'' \<notin> set (rt @ E @ tail @ [NUL])"
      using tail_free(2) E_free NUL_not_special by auto
    have ri: "rindex (strdup s) CHR ''_'' = Some (length B)"
      unfolding buf tE t1 using rindex_last[OF nf, of B] by simp
    have upd: "(B @ CHR ''_'' # rt @ NUL # T'')[length B := NUL] = B @ NUL # rt @ NUL # T''"
      by (rule list_update_length)
    have dr: "drop (length B + 1) (B @ NUL # rt @ NUL # T'') = rt @ NUL # T''" by simp
    show ?thesis
      using that[of "Some (length B)" "rt @ NUL # T''"] ri upd dr True
        strtol_digits_NUL[OF rtd rtb, of T''] by (simp add: t1)
  qed
  note pv = parse_version_unfold[OF u c l g s2 s3 s4]
  show "\<exists>J. version (parse_version s) = fst (snd (spec_parse s)) @ NUL # J"
    using pv(1) sp by auto
  show "epoch (parse_version s) = fst (spec_parse s)"
    using pv(2) ep sp by simp
  show "revision (parse_version s) = snd (snd (spec_parse s))"
    using pv(3) rv sp by simp
  have "ascii B" using asc st tE t1R by (simp add: ascii_def)
  then show "walkable (fst (snd (spec_parse s)))"
    using nts rf sp by (simp add: walkable_def)
qed

text \<open>
  Claim C2, as amended.  On version strings in the form described by \<open>canonical\<close>,
  \<open>mport_version_cmp\<close> returns the result of the reference comparison: epochs first, then
  the bases token by token, then the revisions.
\<close>

theorem version_cmp_refines_spec_on_canonical:
  assumes "canonical a" and "canonical b"
  shows "mport_version_cmp a b = Some (spec_version_cmp a b)"
proof -
  obtain ea ba ra where pa: "spec_parse a = (ea, ba, ra)" by (cases "spec_parse a") auto
  obtain eb bb rb where pb: "spec_parse b = (eb, bb, rb)" by (cases "spec_parse b") auto
  note A = parse_version_canonical[OF assms(1)] and B = parse_version_canonical[OF assms(2)]
  from A(1) pa obtain ja where va: "version (parse_version a) = ba @ NUL # ja" by auto
  from B(1) pb obtain jb where vb: "version (parse_version b) = bb @ NUL # jb" by auto
  have wa: "walkable ba" using A(4) pa by simp
  have wb: "walkable bb" using B(4) pb by simp
  have walk: "cmp_versions (version (parse_version a)) (version (parse_version b)) =
              Some (spec_base_cmp ba bb)"
    unfolding va vb by (rule cmp_versions_walk[OF wa wb])
  have e: "epoch (parse_version a) = ea" "epoch (parse_version b) = eb"
    using A(2) B(2) pa pb by simp_all
  have r: "revision (parse_version a) = ra" "revision (parse_version b) = rb"
    using A(3) B(3) pa pb by simp_all
  show ?thesis
    unfolding mport_version_cmp_def spec_version_cmp_def Let_def
    by (simp add: e r walk pa pb cmp_ints_spec)
qed

theorem version_cmp_refines_spec_on_canonical_witness:
  "canonical ''1.2.3_4,5'' \<and> canonical ''1.2.10_4,5<2.0'' \<and>
   mport_version_cmp ''1.2.3_4,5'' ''1.2.10_4,5<2.0'' =
     Some (spec_version_cmp ''1.2.3_4,5'' ''1.2.10_4,5<2.0'')"
proof -
  have a: "canonical ''1.2.3_4,5''" by code_simp
  have b: "canonical ''1.2.10_4,5<2.0''" by code_simp
  from version_cmp_refines_spec_on_canonical[OF a b] a b show ?thesis by simp
qed

text \<open>
  Claim C2, as stated, fails: a decimal run beyond the range of \<open>long\<close> saturates in
  \<open>strtol\<close> and is then cut to 32 bits, so the code finds the two versions below equal,
  while the reference comparison, on unbounded numbers, finds the first one greater.
\<close>

theorem version_cmp_differs_from_spec_counterexample:
  "mport_version_cmp ''99999999999999999999'' ''99999999999999999998'' = Some 0 \<and>
   spec_version_cmp ''99999999999999999999'' ''99999999999999999998'' = 1"
  by code_simp

text \<open>
  Claim C3.  A double-bound requirement is reported as met exactly when the baseline meets
  the lower bound and the upper bound.  The code reports \<open>1.0\<close> as meeting
  \<open>>=1.4.0<1.5\<close>, although it reports the lower bound \<open>>=1.4.0\<close> alone as not met: the
  second check of the multi branch repeats the upper bound, because the first operator
  sits at index 0 and the test is \<open>greater[0] > 0\<close>.
\<close>

theorem require_check_double_bound_skips_lower:
  "mport_version_require_check ''1.0'' ''>=1.4.0<1.5'' = Some 0 \<and>
   mport_version_require_check ''1.0'' ''>=1.4.0'' = Some (- 1) \<and>
   mport_version_require_check ''1.0'' ''<1.5'' = Some 0"
  by code_simp

section \<open>The package database (libmport/pkgmeta.c)\<close>

text \<open>
  The fields of \<open>mportPackageMeta\<close> and the columns of the tables that the modelled code
  reads or writes.  The other fields (\<open>lang\<close>, \<open>options\<close>, \<open>comment\<close>, \<open>desc\<close>,
  \<open>categories\<close>, \<open>os_release\<close>, \<open>cpe\<close>, \<open>deprecated\<close>, \<open>expiration_date\<close>,
  \<open>no_provide_shlib\<close>, \<open>flavor\<close>, \<open>type\<close>, \<open>flatsize\<close>, the scripts and the conflicts
  list) are copied between the database and the structure and decide no branch below.
\<close>

definition MPORT_EXPLICIT :: int where
  "MPORT_EXPLICIT = 0"

definition MPORT_AUTOMATIC :: int where
  "MPORT_AUTOMATIC = 1"

record mportPackageMeta =
  name :: string
  version :: string
  prefix :: string
  origin :: string
  locked :: int
  automatic :: int
  install_date :: int

record packages_row =
  pkg :: string
  pkg_version :: string
  pkg_origin :: string
  pkg_prefix :: string
  pkg_locked :: int
  pkg_automatic :: int
  pkg_install_date :: int
  status :: string

record depends_row =
  depends_pkg :: string
  depend_pkgname :: string
  depend_pkgversion :: string
  depend_port :: string

record categories_row =
  categories_pkg :: string
  category :: string

record conflicts_row =
  conflicts_pkg :: string
  conflict_pkg :: string
  conflict_version :: string

record assets_row =
  assets_pkg :: string
  assets_type :: nat
  assets_data :: "string option"
  assets_checksum :: "string option"
  assets_owner :: "string option"
  assets_grp :: "string option"
  assets_mode :: "string option"

record tables =
  packages :: "packages_row list"
  depends :: "depends_row list"
  categories :: "categories_row list"
  conflicts :: "conflicts_row list"
  assets :: "assets_row list"

text \<open>
  The SQLite connection: the tables of the live database as the connection sees them,
  the tables of the attached \<open>stub\<close> database of the bundle, and, while a transaction is
  open, the live tables as they were at \<open>BEGIN\<close>.  Outside a transaction every statement
  takes effect at once (autocommit).
\<close>

record sqlite3 =
  live :: tables
  stub :: tables
  txn :: "tables option"

text \<open>The live tables as they are on disk: the state a rollback would return to.\<close>

definition durable :: "sqlite3 \<Rightarrow> tables" where
  "durable c = (case txn c of None \<Rightarrow> live c | Some t0 \<Rightarrow> t0)"

text \<open>
  The statements the modelled code issues, with the package name they are formatted with.
  Whether SQLite prepares, steps or executes a statement without an error is an input:
  \<open>sqlite_ok\<close> in the instance.
\<close>

datatype sql =
    SQL_count_all | SQL_count_locked | SQL_count_where
  | SQL_select_all | SQL_select_locked | SQL_select_where
  | SQL_count_downdepends string | SQL_select_downdepends string
  | SQL_count_updepends string | SQL_select_updepends string
  | SQL_count_stub | SQL_select_stub
  | SQL_select_prefix string
  | SQL_file_count string | SQL_select_assets string
  | SQL_insert_package string | SQL_insert_depends string
  | SQL_insert_categories string | SQL_insert_conflicts string
  | SQL_insert_asset string nat | SQL_begin | SQL_commit
  | SQL_mark_complete string

datatype sql_op = Prepare sql | Step sql | Do sql

record mportInstance =
  db :: sqlite3
  root :: string
  force :: bool
  sqlite_ok :: "sql_op \<Rightarrow> bool"

text \<open>
  The result of a query for a package vector: a non-zero return code, or \<open>MPORT_OK\<close>
  with the out-parameter set to NULL or to a NULL-terminated vector.  \<open>QOverflow\<close>: the
  query returned more rows than the vector was allocated for.
\<close>

datatype pkg_vec_result = QError int | QNull | QVec "mportPackageMeta list" | QOverflow

text \<open>\<open>enum count_type { ALL, LOCKED, WHERE }\<close>\<close>

datatype count_type = COUNT_ALL | COUNT_LOCKED | COUNT_WHERE

definition populate_meta_from_stmt :: "packages_row \<Rightarrow> mportPackageMeta" where
  "populate_meta_from_stmt r =
     \<lparr> name = pkg r, version = pkg_version r, prefix = pkg_prefix r, origin = pkg_origin r,
       locked = pkg_locked r, automatic = pkg_automatic r,
       install_date = pkg_install_date r \<rparr>"

text \<open>
  \<open>populate_vec_from_stmt(ref, len, db, stmt)\<close> on a prepared statement that yields
  \<open>rows\<close>: the vector has \<open>len + 1\<close> cells.
\<close>

definition populate_vec_from_stmt ::
  "mportInstance \<Rightarrow> sql \<Rightarrow> nat \<Rightarrow> packages_row list \<Rightarrow> pkg_vec_result" where
  "populate_vec_from_stmt mport q len rows =
     (if \<not> sqlite_ok mport (Step q) then QError MPORT_ERR_FATAL
      else if len < length rows then QOverflow
      else QVec (map populate_meta_from_stmt rows))"

definition mport_pkgmeta_count ::
  "mportInstance \<Rightarrow> count_type \<Rightarrow> (packages_row \<Rightarrow> bool) \<Rightarrow> nat" where
  "mport_pkgmeta_count mport ty wh =
     (let q = (case ty of COUNT_ALL \<Rightarrow> SQL_count_all | COUNT_LOCKED \<Rightarrow> SQL_count_locked
                        | COUNT_WHERE \<Rightarrow> SQL_count_where);
          rows = (case ty of COUNT_ALL \<Rightarrow> packages (live (db mport))
                           | COUNT_LOCKED \<Rightarrow> filter (\<lambda>r. pkg_locked r = 1) (packages (live (db mport)))
                           | COUNT_WHERE \<Rightarrow> filter wh (packages (live (db mport))))
      in if \<not> sqlite_ok mport (Prepare q) then 0
         else if \<not> sqlite_ok mport (Step q) then 0
         else length rows)"

text \<open>\<open>ORDER BY pkg, version\<close>\<close>

definition order_by_pkg_version :: "packages_row list \<Rightarrow> packages_row list" where
  "order_by_pkg_version rows = sort_key (\<lambda>r. (pkg r, pkg_version r)) rows"

definition mport_pkgmeta_search_master ::
  "mportInstance \<Rightarrow> (packages_row \<Rightarrow> bool) \<Rightarrow> pkg_vec_result" where
  "mport_pkgmeta_search_master mport wh =
     (let len = mport_pkgmeta_count mport COUNT_WHERE wh
      in if len = 0 then QNull
         else if \<not> sqlite_ok mport (Prepare SQL_select_where) then QError MPORT_ERR_FATAL
         else populate_vec_from_stmt mport SQL_select_where len
                (filter wh (packages (live (db mport)))))"

definition mport_pkgmeta_list :: "mportInstance \<Rightarrow> pkg_vec_result" where
  "mport_pkgmeta_list mport =
     (let len = mport_pkgmeta_count mport COUNT_ALL (\<lambda>_. True)
      in if len = 0 then QNull
         else if \<not> sqlite_ok mport (Prepare SQL_select_all) then QError MPORT_ERR_FATAL
         else populate_vec_from_stmt mport SQL_select_all len
                (order_by_pkg_version (packages (live (db mport)))))"

definition mport_pkgmeta_list_locked :: "mportInstance \<Rightarrow> pkg_vec_result" where
  "mport_pkgmeta_list_locked mport =
     (let len = mport_pkgmeta_count mport COUNT_LOCKED (\<lambda>_. True)
      in if len = 0 then QNull
         else if \<not> sqlite_ok mport (Prepare SQL_select_locked) then QError MPORT_ERR_FATAL
         else populate_vec_from_stmt mport SQL_select_locked len
                (order_by_pkg_version
                   (filter (\<lambda>r. pkg_locked r = 1) (packages (live (db mport))))))"

text \<open>
  The two joins \<open>FROM packages, depends\<close>.  The count that sizes the vector and decides
  about NULL is taken on \<open>depends\<close> alone.
\<close>

definition downdepends_rows :: "tables \<Rightarrow> string \<Rightarrow> packages_row list" where
  "downdepends_rows t n =
     concat (map (\<lambda>d. filter (\<lambda>p. pkg p = depend_pkgname d) (packages t))
                 (filter (\<lambda>d. depends_pkg d = n) (depends t)))"

definition updepends_rows :: "tables \<Rightarrow> string \<Rightarrow> packages_row list" where
  "updepends_rows t n =
     concat (map (\<lambda>d. filter (\<lambda>p. pkg p = depends_pkg d) (packages t))
                 (filter (\<lambda>d. depend_pkgname d = n) (depends t)))"

definition mport_pkgmeta_get_downdepends ::
  "mportInstance \<Rightarrow> mportPackageMeta \<Rightarrow> pkg_vec_result" where
  "mport_pkgmeta_get_downdepends mport pkg' =
     (if \<not> sqlite_ok mport (Prepare (SQL_count_downdepends (name pkg')))
      then QError MPORT_ERR_FATAL
      else if \<not> sqlite_ok mport (Step (SQL_count_downdepends (name pkg')))
      then QError MPORT_ERR_FATAL
      else
        (let count = length (filter (\<lambda>d. depends_pkg d = name pkg')
                               (depends (live (db mport))))
         in if count = 0 then QNull
            else if \<not> sqlite_ok mport (Prepare (SQL_select_downdepends (name pkg')))
            then QError MPORT_ERR_FATAL
            else populate_vec_from_stmt mport (SQL_select_downdepends (name pkg')) count
                   (downdepends_rows (live (db mport)) (name pkg'))))"

definition mport_pkgmeta_get_updepends ::
  "mportInstance \<Rightarrow> mportPackageMeta \<Rightarrow> pkg_vec_result" where
  "mport_pkgmeta_get_updepends mport pkg' =
     (if \<not> sqlite_ok mport (Prepare (SQL_count_updepends (name pkg')))
      then QError MPORT_ERR_FATAL
      else if \<not> sqlite_ok mport (Step (SQL_count_updepends (name pkg')))
      then QError MPORT_ERR_FATAL
      else
        (let count = length (filter (\<lambda>d. depend_pkgname d = name pkg')
                               (depends (live (db mport))))
         in if count = 0 then QNull
            else if \<not> sqlite_ok mport (Prepare (SQL_select_updepends (name pkg')))
            then QError MPORT_ERR_FATAL
            else populate_vec_from_stmt mport (SQL_select_updepends (name pkg')) count
                   (updepends_rows (live (db mport)) (name pkg'))))"

text \<open>
  \<open>mport_pkgmeta_read_stub\<close>: the packages of the stub database, selected with
  \<open>0 as locked\<close>, \<open>0 as automatic\<close> and \<open>0 as install_date\<close>.  An empty stub is an
  error.
\<close>

definition stub_select :: "packages_row \<Rightarrow> packages_row" where
  "stub_select r = r\<lparr> pkg_locked := 0, pkg_automatic := 0, pkg_install_date := 0 \<rparr>"

definition mport_pkgmeta_read_stub :: "mportInstance \<Rightarrow> pkg_vec_result" where
  "mport_pkgmeta_read_stub mport =
     (if \<not> sqlite_ok mport (Prepare SQL_count_stub) then QError MPORT_ERR_FATAL
      else if \<not> sqlite_ok mport (Step SQL_count_stub) then QError MPORT_ERR_FATAL
      else
        (let len = length (packages (stub (db mport)))
         in if len = 0 then QError MPORT_ERR_FATAL
            else if \<not> sqlite_ok mport (Prepare SQL_select_stub) then QError MPORT_ERR_FATAL
            else populate_vec_from_stmt mport SQL_select_stub len
                   (map stub_select (packages (stub (db mport))))))"

subsection \<open>Example databases\<close>

text \<open>Small databases and instances on which the functions are evaluated.\<close>

definition no_tables :: tables where
  "no_tables = \<lparr> packages = [], depends = [], categories = [], conflicts = [], assets = [] \<rparr>"

definition installed :: "string \<Rightarrow> string \<Rightarrow> int \<Rightarrow> int \<Rightarrow> packages_row" where
  "installed n v a l =
     \<lparr> pkg = n, pkg_version = v, pkg_origin = ''misc/'' @ n, pkg_prefix = ''/usr/local'',
       pkg_locked = l, pkg_automatic = a, pkg_install_date = 1, status = ''clean'' \<rparr>"

definition depends_on :: "string \<Rightarrow> string \<Rightarrow> depends_row" where
  "depends_on n d =
     \<lparr> depends_pkg = n, depend_pkgname = d, depend_pkgversion = ''>=0'',
       depend_port = ''misc/'' @ d \<rparr>"

definition instance_of :: "tables \<Rightarrow> tables \<Rightarrow> mportInstance" where
  "instance_of t s =
     \<lparr> db = \<lparr> live = t, stub = s, txn = None \<rparr>, root = [], force = False,
       sqlite_ok = (\<lambda>_. True) \<rparr>"

subsection \<open>Queries without results\<close>

lemma populate_vec_ok:
  "sqlite_ok mport (Step q) \<Longrightarrow> length rows \<le> len \<Longrightarrow>
   populate_vec_from_stmt mport q len rows = QVec (map populate_meta_from_stmt rows)"
  by (simp add: populate_vec_from_stmt_def)

lemma count_ok:
  assumes "\<forall>op. sqlite_ok mport op"
  shows "mport_pkgmeta_count mport COUNT_ALL wh = length (packages (live (db mport)))"
    and "mport_pkgmeta_count mport COUNT_LOCKED wh =
           length (filter (\<lambda>r. pkg_locked r = 1) (packages (live (db mport))))"
    and "mport_pkgmeta_count mport COUNT_WHERE wh = length (filter wh (packages (live (db mport))))"
  using assms by (simp_all add: mport_pkgmeta_count_def)

lemma order_by_length: "length (order_by_pkg_version rows) = length rows"
  by (simp add: order_by_pkg_version_def)

lemma filter_key_distinct:
  "distinct (map f xs) \<Longrightarrow> length (filter (\<lambda>x. f x = k) xs) \<le> 1"
proof (induction xs)
  case Nil
  then show ?case by simp
next
  case (Cons x xs)
  show ?case
  proof (cases "f x = k")
    case True
    with Cons.prems have "\<forall>y\<in>set xs. f y \<noteq> k" by (auto simp: image_iff)
    then have "filter (\<lambda>x. f x = k) xs = []" by (simp add: filter_empty_conv)
    with True show ?thesis by simp
  next
    case False
    with Cons show ?thesis by simp
  qed
qed

lemma join_length:
  assumes "distinct (map f ps)"
  shows "length (concat (map (\<lambda>d. filter (\<lambda>p. f p = g d) ps) ds)) \<le> length ds"
proof (induction ds)
  case Nil
  then show ?case by simp
next
  case (Cons d ds)
  from filter_key_distinct[OF assms, of "g d"] Cons show ?case by simp
qed

text \<open>
  Claim C10, as amended.  While SQLite answers without errors: \<open>mport_pkgmeta_list\<close>,
  \<open>mport_pkgmeta_list_locked\<close> and \<open>mport_pkgmeta_search_master\<close> return
  \<open>MPORT_OK\<close> with NULL exactly when no package matches, and never an empty vector;
  \<open>mport_pkgmeta_get_downdepends\<close> and \<open>mport_pkgmeta_get_updepends\<close> return
  \<open>MPORT_OK\<close> with NULL when \<open>depends\<close> has no edge for the package, and otherwise
  (package names being unique) the vector of the installed packages that the edges join
  to.
\<close>

theorem pkgmeta_null_on_no_results:
  assumes ok: "\<forall>op. sqlite_ok mport op"
  shows "(mport_pkgmeta_list mport = QNull \<longleftrightarrow> packages (live (db mport)) = []) \<and>
         mport_pkgmeta_list mport \<noteq> QVec [] \<and>
         (mport_pkgmeta_list_locked mport = QNull \<longleftrightarrow>
            filter (\<lambda>r. pkg_locked r = 1) (packages (live (db mport))) = []) \<and>
         mport_pkgmeta_list_locked mport \<noteq> QVec [] \<and>
         (mport_pkgmeta_search_master mport wh = QNull \<longleftrightarrow>
            filter wh (packages (live (db mport))) = []) \<and>
         mport_pkgmeta_search_master mport wh \<noteq> QVec [] \<and>
         (filter (\<lambda>d. depends_pkg d = name p) (depends (live (db mport))) = [] \<longrightarrow>
            mport_pkgmeta_get_downdepends mport p = QNull) \<and>
         (filter (\<lambda>d. depend_pkgname d = name p) (depends (live (db mport))) = [] \<longrightarrow>
            mport_pkgmeta_get_updepends mport p = QNull) \<and>
         (filter (\<lambda>d. depends_pkg d = name p) (depends (live (db mport))) \<noteq> [] \<and>
          distinct (map pkg (packages (live (db mport)))) \<longrightarrow>
            mport_pkgmeta_get_downdepends mport p =
              QVec (map populate_meta_from_stmt (downdepends_rows (live (db mport)) (name p)))) \<and>
         (filter (\<lambda>d. depend_pkgname d = name p) (depends (live (db mport))) \<noteq> [] \<and>
          distinct (map pkg (packages (live (db mport)))) \<longrightarrow>
            mport_pkgmeta_get_updepends mport p =
              QVec (map populate_meta_from_stmt (updepends_rows (live (db mport)) (name p))))"
proof -
  let ?P = "packages (live (db mport))"
  have l: "mport_pkgmeta_list mport =
           (if ?P = [] then QNull else QVec (map populate_meta_from_stmt (order_by_pkg_version ?P)))"
    using ok by (simp add: mport_pkgmeta_list_def Let_def count_ok[OF ok] populate_vec_ok
                  order_by_length)
  have ll: "mport_pkgmeta_list_locked mport =
           (if filter (\<lambda>r. pkg_locked r = 1) ?P = [] then QNull
            else QVec (map populate_meta_from_stmt
                        (order_by_pkg_version (filter (\<lambda>r. pkg_locked r = 1) ?P))))"
    using ok by (simp add: mport_pkgmeta_list_locked_def Let_def count_ok[OF ok] populate_vec_ok
                  order_by_length)
  have s: "mport_pkgmeta_search_master mport wh =
           (if filter wh ?P = [] then QNull
            else QVec (map populate_meta_from_stmt (filter wh ?P)))"
    using ok by (simp add: mport_pkgmeta_search_master_def Let_def count_ok[OF ok] populate_vec_ok)
  have ne: "\<And>rows. rows \<noteq> [] \<Longrightarrow> order_by_pkg_version rows \<noteq> []"
    using order_by_length by (metis length_0_conv)
  have d: "filter (\<lambda>d. depends_pkg d = name p) (depends (live (db mport))) = [] \<Longrightarrow>
           mport_pkgmeta_get_downdepends mport p = QNull"
    using ok by (simp add: mport_pkgmeta_get_downdepends_def Let_def)
  have u: "filter (\<lambda>d. depend_pkgname d = name p) (depends (live (db mport))) = [] \<Longrightarrow>
           mport_pkgmeta_get_updepends mport p = QNull"
    using ok by (simp add: mport_pkgmeta_get_updepends_def Let_def)
  have d2: "mport_pkgmeta_get_downdepends mport p =
              QVec (map populate_meta_from_stmt (downdepends_rows (live (db mport)) (name p)))"
    if "filter (\<lambda>d. depends_pkg d = name p) (depends (live (db mport))) \<noteq> []"
      and "distinct (map pkg (packages (live (db mport))))"
  proof -
    have "length (downdepends_rows (live (db mport)) (name p)) \<le>
          length (filter (\<lambda>d. depends_pkg d = name p) (depends (live (db mport))))"
      unfolding downdepends_rows_def by (rule join_length[OF that(2)])
    then show ?thesis
      using ok that(1)
      by (simp add: mport_pkgmeta_get_downdepends_def Let_def populate_vec_ok)
  qed
  have u2: "mport_pkgmeta_get_updepends mport p =
              QVec (map populate_meta_from_stmt (updepends_rows (live (db mport)) (name p)))"
    if "filter (\<lambda>d. depend_pkgname d = name p) (depends (live (db mport))) \<noteq> []"
      and "distinct (map pkg (packages (live (db mport))))"
  proof -
    have "length (updepends_rows (live (db mport)) (name p)) \<le>
          length (filter (\<lambda>d. depend_pkgname d = name p) (depends (live (db mport))))"
      unfolding updepends_rows_def by (rule join_length[OF that(2)])
    then show ?thesis
      using ok that(1)
      by (simp add: mport_pkgmeta_get_updepends_def Let_def populate_vec_ok)
  qed
  show ?thesis
    using l ll s ne d u d2 u2 by auto
qed

theorem pkgmeta_null_on_no_results_witness:
  "(\<forall>op. sqlite_ok (instance_of (no_tables\<lparr> packages := [installed ''foo'' ''1.0'' 0 0] \<rparr>) no_tables) op) \<and>
   mport_pkgmeta_list_locked
     (instance_of (no_tables\<lparr> packages := [installed ''foo'' ''1.0'' 0 0] \<rparr>) no_tables) = QNull \<and>
   mport_pkgmeta_list
     (instance_of (no_tables\<lparr> packages := [installed ''foo'' ''1.0'' 0 0] \<rparr>) no_tables) \<noteq> QNull"
proof -
  let ?m = "instance_of (no_tables\<lparr> packages := [installed ''foo'' ''1.0'' 0 0] \<rparr>) no_tables"
  have ok: "\<forall>op. sqlite_ok ?m op" by (simp add: instance_of_def)
  from pkgmeta_null_on_no_results[OF ok, of "\<lambda>_. True" "populate_meta_from_stmt (installed ''foo'' ''1.0'' 0 0)"] ok
  show ?thesis by (simp add: instance_of_def no_tables_def installed_def)
qed

text \<open>
  Claim C10, as stated, fails for the dependency queries: with an edge from \<open>foo\<close> to a
  package \<open>bar\<close> that is not installed, the count of edges is 1, the join has no row, and
  \<open>mport_pkgmeta_get_downdepends\<close> returns \<open>MPORT_OK\<close> with an empty NULL-terminated
  vector.
\<close>

theorem downdepends_empty_vector_counterexample:
  "mport_pkgmeta_get_downdepends
     (instance_of (no_tables\<lparr> packages := [installed ''foo'' ''1.0'' 0 0],
                               depends := [depends_on ''foo'' ''bar''] \<rparr>) no_tables)
     (populate_meta_from_stmt (installed ''foo'' ''1.0'' 0 0)) = QVec []"
  by (simp add: mport_pkgmeta_get_downdepends_def populate_vec_from_stmt_def instance_of_def
        no_tables_def installed_def depends_on_def populate_meta_from_stmt_def
        downdepends_rows_def Let_def)

section \<open>The command-line front end (\<open>main\<close> of the \<open>mport\<close> command)\<close>

text \<open>
  \<open>main\<close> starts with \<open>resultCode = MPORT_ERR_FATAL\<close>, dispatches on the command and ends
  with \<open>exit(resultCode)\<close>.  A command is given here with the results of the handlers that
  \<open>main\<close> calls for it: one result for a command that assigns the result of its handler
  to \<open>resultCode\<close>, one result per argument for a command that loops over its arguments.
  The paths that leave \<open>main\<close> early (\<open>usage\<close>, \<open>errx\<close>, \<open>execl\<close> for \<open>locks\<close> and
  \<open>shell\<close>, and the \<open>return\<close> statements of \<open>update\<close> with a wildcard and of
  \<open>version -t\<close> without operands) are not part of the model.
\<close>

datatype command =
    Cmd_add "int list"
  | Cmd_install "int list"
  | Cmd_delete int
  | Cmd_update "int list"
  | Cmd_download_all int
  | Cmd_download "int list"
  | Cmd_upgrade int
  | Cmd_audit int
  | Cmd_import int
  | Cmd_export int
  | Cmd_lock
  | Cmd_unlock
  | Cmd_list int
  | Cmd_info int
  | Cmd_index int
  | Cmd_search int
  | Cmd_stats int
  | Cmd_clean int
  | Cmd_config_list
  | Cmd_config_get int
  | Cmd_config_set int
  | Cmd_mirror_list int
  | Cmd_mirror_select int
  | Cmd_cpe_list int
  | Cmd_cpe "int list"
  | Cmd_purl_list int
  | Cmd_purl "int list"
  | Cmd_deleteall int
  | Cmd_autoremove int
  | Cmd_verify_recompute "int list"
  | Cmd_verify int
  | Cmd_version_test int
  | Cmd_which

text \<open>
  The loop \<open>tempResultCode = handler(argv[i]); if (tempResultCode != 0) resultCode =
  tempResultCode;\<close> from the value \<open>resultCode\<close> has before it.
\<close>

definition per_argument :: "int \<Rightarrow> int list \<Rightarrow> int" where
  "per_argument resultCode rs =
     foldl (\<lambda>resultCode tempResultCode.
              if tempResultCode \<noteq> 0 then tempResultCode else resultCode) resultCode rs"

fun resultCode_of :: "command \<Rightarrow> int" where
  "resultCode_of (Cmd_add rs) = per_argument MPORT_ERR_FATAL rs"
| "resultCode_of (Cmd_install rs) = per_argument MPORT_ERR_FATAL rs"
| "resultCode_of (Cmd_delete r) = r"
| "resultCode_of (Cmd_update rs) = per_argument MPORT_ERR_FATAL rs"
| "resultCode_of (Cmd_download_all r) = r"
| "resultCode_of (Cmd_download rs) = per_argument MPORT_ERR_FATAL rs"
| "resultCode_of (Cmd_upgrade r) = r"
| "resultCode_of (Cmd_audit r) = r"
| "resultCode_of (Cmd_import r) = r"
| "resultCode_of (Cmd_export r) = r"
| "resultCode_of Cmd_lock = MPORT_ERR_FATAL"
| "resultCode_of Cmd_unlock = MPORT_ERR_FATAL"
| "resultCode_of (Cmd_list r) = r"
| "resultCode_of (Cmd_info r) = r"
| "resultCode_of (Cmd_index r) = r"
| "resultCode_of (Cmd_search r) = r"
| "resultCode_of (Cmd_stats r) = r"
| "resultCode_of (Cmd_clean r) = r"
| "resultCode_of Cmd_config_list = MPORT_OK"
| "resultCode_of (Cmd_config_get r) = r"
| "resultCode_of (Cmd_config_set r) = r"
| "resultCode_of (Cmd_mirror_list r) = r"
| "resultCode_of (Cmd_mirror_select r) = r"
| "resultCode_of (Cmd_cpe_list r) = r"
| "resultCode_of (Cmd_cpe rs) = per_argument MPORT_ERR_FATAL rs"
| "resultCode_of (Cmd_purl_list r) = r"
| "resultCode_of (Cmd_purl rs) = per_argument MPORT_ERR_FATAL rs"
| "resultCode_of (Cmd_deleteall r) = r"
| "resultCode_of (Cmd_autoremove r) = r"
| "resultCode_of (Cmd_verify_recompute rs) = per_argument MPORT_OK rs"
| "resultCode_of (Cmd_verify r) = r"
| "resultCode_of (Cmd_version_test r) = r"
| "resultCode_of Cmd_which = MPORT_ERR_FATAL"

text \<open>The exit status a parent process sees: the low eight bits of the argument of \<open>exit\<close>.\<close>

definition exit_status :: "int \<Rightarrow> int" where
  "exit_status r = r mod 256"

definition main :: "command \<Rightarrow> int" where
  "main cmd = exit_status (resultCode_of cmd)"

text \<open>
  Claim C8, as amended.  For a command that assigns the result of its handler, the exit
  status is that result code: 0 for \<open>MPORT_OK\<close>, 1 for \<open>MPORT_ERR_FATAL\<close> and 2 for
  \<open>MPORT_ERR_WARN\<close>.
\<close>

theorem main_exit_status_is_result_code:
  "main (Cmd_delete r) = exit_status r \<and> main (Cmd_upgrade r) = exit_status r \<and>
   main (Cmd_autoremove r) = exit_status r \<and> main (Cmd_deleteall r) = exit_status r \<and>
   main (Cmd_clean r) = exit_status r \<and> main (Cmd_verify r) = exit_status r \<and>
   main (Cmd_list r) = exit_status r \<and> main (Cmd_info r) = exit_status r \<and>
   main (Cmd_index r) = exit_status r \<and> main (Cmd_search r) = exit_status r \<and>
   main (Cmd_stats r) = exit_status r \<and> main (Cmd_audit r) = exit_status r \<and>
   main (Cmd_import r) = exit_status r \<and> main (Cmd_export r) = exit_status r \<and>
   exit_status MPORT_OK = 0 \<and> exit_status MPORT_ERR_FATAL = 1 \<and>
   exit_status MPORT_ERR_WARN = 2"
  by (simp add: main_def exit_status_def MPORT_OK_def MPORT_ERR_FATAL_def MPORT_ERR_WARN_def)

text \<open>
  Claim C8, as stated, fails: \<open>delete\<close> with nothing to delete returns \<open>MPORT_ERR_WARN\<close>
  and the command exits with 2, not 1; \<open>upgrade\<close> without installed packages returns
  \<open>MPORT_ERR_FATAL\<close> and the command exits with 1, which is not greater than 1.
\<close>

theorem main_warn_and_fatal_exit_counterexample:
  "main (Cmd_delete MPORT_ERR_WARN) = 2 \<and> main (Cmd_upgrade MPORT_ERR_FATAL) = 1"
  by (simp add: main_def exit_status_def MPORT_ERR_FATAL_def MPORT_ERR_WARN_def)

section \<open>The installer (\<open>do_actual_install\<close>)\<close>

text \<open>The values of \<open>enum _AssetListEntryType\<close> that the installer tests.\<close>

definition ASSET_FILE :: nat where "ASSET_FILE = 1"
definition ASSET_CWD :: nat where "ASSET_CWD = 2"
definition ASSET_CHMOD :: nat where "ASSET_CHMOD = 3"
definition ASSET_CHOWN :: nat where "ASSET_CHOWN = 4"
definition ASSET_CHGRP :: nat where "ASSET_CHGRP = 5"
definition ASSET_EXEC :: nat where "ASSET_EXEC = 9"
definition ASSET_DIRRM :: nat where "ASSET_DIRRM = 16"
definition ASSET_DIRRMTRY :: nat where "ASSET_DIRRMTRY = 17"
definition ASSET_DIR :: nat where "ASSET_DIR = 24"
definition ASSET_SAMPLE :: nat where "ASSET_SAMPLE = 25"
definition ASSET_SHELL :: nat where "ASSET_SHELL = 26"
definition ASSET_PREEXEC :: nat where "ASSET_PREEXEC = 27"
definition ASSET_POSTEXEC :: nat where "ASSET_POSTEXEC = 29"
definition ASSET_FILE_OWNER_MODE :: nat where "ASSET_FILE_OWNER_MODE = 31"
definition ASSET_DIR_OWNER_MODE :: nat where "ASSET_DIR_OWNER_MODE = 32"
definition ASSET_SAMPLE_OWNER_MODE :: nat where "ASSET_SAMPLE_OWNER_MODE = 33"
definition ASSET_LDCONFIG :: nat where "ASSET_LDCONFIG = 34"
definition ASSET_LDCONFIG_LINUX :: nat where "ASSET_LDCONFIG_LINUX = 35"
definition ASSET_INFO :: nat where "ASSET_INFO = 40"

definition FILENAME_MAX :: nat where "FILENAME_MAX = 1024"

record mportAssetListEntry =
  type :: nat
  checksum :: string
  owner :: string
  group :: string
  mode :: string
  data :: "string option"

text \<open>
  What the installer asks of the file system and of the archive is an input.  Each field
  answers whether the calls of one kind succeed: \<open>mport_chdir\<close>; \<open>mport_mkdirp\<close>; the
  \<open>setmode\<close>, \<open>chmod\<close> and \<open>chown\<close> calls on a directory entry; \<open>mport_run_asset_exec\<close>
  (with the command, the current directory and the last file name);
  \<open>mport_bundle_read_next_entry\<close> together with the test of the entry for NULL; the
  extraction of a file together with \<open>lstat\<close>; the \<open>chown\<close>, \<open>stat\<close>, \<open>setmode\<close>,
  \<open>chmod\<close> and \<open>mport_shell_register\<close> calls on an extracted file; and
  \<open>create_sample_file\<close>.  \<open>file_uninit\<close> is the content of the uninitialised array
  \<open>file\<close> on entry, and \<open>err_code\<close> the value \<open>RETURN_CURRENT_ERROR\<close> returns at the
  \<open>ERROR\<close> label.
\<close>

record install_env =
  chdir_ok :: "string \<Rightarrow> bool"
  mkdirp_ok :: "string \<Rightarrow> bool"
  dir_perm_ok :: "mportAssetListEntry \<Rightarrow> bool"
  exec_ok :: "string option \<Rightarrow> string \<Rightarrow> string \<Rightarrow> bool"
  next_entry_ok :: "mportAssetListEntry \<Rightarrow> bool"
  extract_ok :: "string \<Rightarrow> bool"
  file_perm_ok :: "mportAssetListEntry \<Rightarrow> string \<Rightarrow> bool"
  sample_ok :: "string \<Rightarrow> string \<Rightarrow> bool"
  file_uninit :: string
  err_code :: int

text \<open>
  A row of \<open>stub.assets\<close> read into an asset list entry: \<open>strlcpy\<close> into the arrays
  \<open>checksum[65]\<close>, \<open>owner[MAXLOGNAME]\<close>, \<open>group[MAXLOGNAME * 2]\<close> and \<open>mode[5]\<close>, which
  \<open>calloc\<close> has zeroed.
\<close>

definition MAXLOGNAME :: nat where
  "MAXLOGNAME = 32"

definition strlcpy :: "nat \<Rightarrow> string option \<Rightarrow> string" where
  "strlcpy dsize src = (case src of None \<Rightarrow> [] | Some s \<Rightarrow> take (dsize - 1) s)"

definition entry_of_row :: "assets_row \<Rightarrow> mportAssetListEntry" where
  "entry_of_row r =
     \<lparr> type = assets_type r,
       checksum = strlcpy 65 (assets_checksum r),
       owner = strlcpy MAXLOGNAME (assets_owner r),
       group = strlcpy (MAXLOGNAME * 2) (assets_grp r),
       mode = strlcpy 5 (assets_mode r),
       data = assets_data r \<rparr>"

text \<open>
  \<open>mport_bundle_read_get_assetlist(mport, pkg, &alist, ACTUALINSTALL)\<close>: the entries of
  the package in \<open>stub.assets\<close> whose type is not one of the four excluded ones, or an
  error.
\<close>

definition mport_bundle_read_get_assetlist_ACTUALINSTALL ::
  "mportInstance \<Rightarrow> mportPackageMeta \<Rightarrow> int \<times> mportAssetListEntry list" where
  "mport_bundle_read_get_assetlist_ACTUALINSTALL mport pkg' =
     (if \<not> sqlite_ok mport (Prepare (SQL_select_assets (name pkg'))) then (MPORT_ERR_FATAL, [])
      else if \<not> sqlite_ok mport (Step (SQL_select_assets (name pkg'))) then (MPORT_ERR_FATAL, [])
      else (MPORT_OK,
            map entry_of_row
              (filter (\<lambda>r. assets_pkg r = name pkg' \<and>
                            assets_type r \<notin> {ASSET_PREEXEC, ASSET_POSTEXEC, ASSET_LDCONFIG,
                                              ASSET_LDCONFIG_LINUX})
                      (assets (stub (db mport))))))"

definition get_file_count :: "mportInstance \<Rightarrow> string \<Rightarrow> int" where
  "get_file_count mport pkg_name =
     (if \<not> sqlite_ok mport (Prepare (SQL_file_count pkg_name)) then MPORT_ERR_FATAL
      else if \<not> sqlite_ok mport (Step (SQL_file_count pkg_name)) then MPORT_ERR_FATAL
      else MPORT_OK)"

text \<open>
  The statements of \<open>create_package_row\<close>, \<open>create_depends\<close>, \<open>create_categories\<close> and
  \<open>create_conflicts\<close> on the connection.  The inserted packages row has \<open>locked\<close> 0 and
  the default status \<open>dirty\<close>.
\<close>

definition package_row_of :: "mportPackageMeta \<Rightarrow> packages_row" where
  "package_row_of pkg' =
     \<lparr> pkg = name pkg', pkg_version = version pkg', pkg_origin = origin pkg',
       pkg_prefix = prefix pkg', pkg_locked = 0, pkg_automatic = automatic pkg',
       pkg_install_date = install_date pkg', status = ''dirty'' \<rparr>"

definition insert_live :: "(tables \<Rightarrow> tables) \<Rightarrow> sqlite3 \<Rightarrow> sqlite3" where
  "insert_live f c = c\<lparr> live := f (live c) \<rparr>"

text \<open>
  Modelled from the spec: \<open>packages(pkg PK, ..., status TEXT DEFAULT 'dirty')\<close>; the
  schema is not among the sources.  The insert fails when a row of that name exists.
\<close>

definition create_package_row :: "mportInstance \<Rightarrow> mportPackageMeta \<Rightarrow> int \<times> mportInstance" where
  "create_package_row mport pkg' =
     (if \<not> sqlite_ok mport (Do (SQL_insert_package (name pkg'))) \<or>
         name pkg' \<in> set (map pkg (packages (live (db mport))))
      then (MPORT_ERR_FATAL, mport)
      else (MPORT_OK,
            mport\<lparr> db := insert_live
                            (\<lambda>t. t\<lparr> packages := packages t @ [package_row_of pkg'] \<rparr>)
                            (db mport) \<rparr>))"

definition create_depends :: "mportInstance \<Rightarrow> mportPackageMeta \<Rightarrow> int \<times> mportInstance" where
  "create_depends mport pkg' =
     (if \<not> sqlite_ok mport (Do (SQL_insert_depends (name pkg'))) then (MPORT_ERR_FATAL, mport)
      else (MPORT_OK,
            mport\<lparr> db := insert_live
                            (\<lambda>t. t\<lparr> depends := depends t @
                                      filter (\<lambda>d. depends_pkg d = name pkg')
                                             (depends (stub (db mport))) \<rparr>)
                            (db mport) \<rparr>))"

definition create_categories :: "mportInstance \<Rightarrow> mportPackageMeta \<Rightarrow> int \<times> mportInstance" where
  "create_categories mport pkg' =
     (if \<not> sqlite_ok mport (Do (SQL_insert_categories (name pkg'))) then (MPORT_ERR_FATAL, mport)
      else (MPORT_OK,
            mport\<lparr> db := insert_live
                            (\<lambda>t. t\<lparr> categories := categories t @
                                      filter (\<lambda>d. categories_pkg d = name pkg')
                                             (categories (stub (db mport))) \<rparr>)
                            (db mport) \<rparr>))"

definition create_conflicts :: "mportInstance \<Rightarrow> mportPackageMeta \<Rightarrow> int \<times> mportInstance" where
  "create_conflicts mport pkg' =
     (if \<not> sqlite_ok mport (Do (SQL_insert_conflicts (name pkg'))) then (MPORT_ERR_FATAL, mport)
      else (MPORT_OK,
            mport\<lparr> db := insert_live
                            (\<lambda>t. t\<lparr> conflicts := conflicts t @
                                      filter (\<lambda>d. conflicts_pkg d = name pkg')
                                             (conflicts (stub (db mport))) \<rparr>)
                            (db mport) \<rparr>))"

text \<open>
  \<open>BEGIN TRANSACTION\<close>, whose result the installer ignores, and \<open>COMMIT\<close>.  SQLite
  refuses to begin a transaction inside one and to commit outside one.
\<close>

definition begin_transaction :: "mportInstance \<Rightarrow> mportInstance" where
  "begin_transaction mport =
     (if sqlite_ok mport (Do SQL_begin) \<and> txn (db mport) = None
      then mport\<lparr> db := (db mport)\<lparr> txn := Some (live (db mport)) \<rparr> \<rparr>
      else mport)"

definition commit :: "mportInstance \<Rightarrow> int \<times> mportInstance" where
  "commit mport =
     (if sqlite_ok mport (Do SQL_commit) \<and> txn (db mport) \<noteq> None
      then (MPORT_OK, mport\<lparr> db := (db mport)\<lparr> txn := None \<rparr> \<rparr>)
      else (MPORT_ERR_FATAL, mport))"

definition is_file_type :: "nat \<Rightarrow> bool" where
  "is_file_type ty =
     (ty = ASSET_FILE \<or> ty = ASSET_SAMPLE \<or> ty = ASSET_SHELL \<or> ty = ASSET_FILE_OWNER_MODE \<or>
      ty = ASSET_SAMPLE_OWNER_MODE \<or> ty = ASSET_INFO)"

definition is_sample_type :: "nat \<Rightarrow> bool" where
  "is_sample_type ty = (ty = ASSET_SAMPLE \<or> ty = ASSET_SAMPLE_OWNER_MODE)"

text \<open>\<open>snprintf(buf, FILENAME_MAX, ...)\<close> and \<open>strlcpy(cwd, ..., sizeof(cwd))\<close>\<close>

definition fit :: "string \<Rightarrow> string" where
  "fit s = take (FILENAME_MAX - 1) s"

text \<open>
  The \<open>switch\<close> on the type of one entry.  The result is \<open>None\<close> where the code reads
  through a NULL \<open>data\<close> pointer, \<open>Some None\<close> for \<open>goto ERROR\<close>, and otherwise the
  current directory and the content of \<open>file\<close> after the entry.  The mode, owner and
  group that \<open>@mode\<close>, \<open>@owner\<close> and \<open>@group\<close> set reach the file system only.
\<close>

definition asset_switch ::
  "install_env \<Rightarrow> mportInstance \<Rightarrow> mportPackageMeta \<Rightarrow> mportAssetListEntry \<Rightarrow> string \<Rightarrow> string
     \<Rightarrow> (string \<times> string) option option" where
  "asset_switch env mport pkg' e cwd file =
     (if type e = ASSET_CWD then
        (let cwd' = fit (case data e of None \<Rightarrow> prefix pkg' | Some d \<Rightarrow> d)
         in if chdir_ok env cwd' then Some (Some (cwd', file)) else Some None)
      else if type e = ASSET_CHMOD \<or> type e = ASSET_CHOWN \<or> type e = ASSET_CHGRP then
        Some (Some (cwd, file))
      else if type e = ASSET_DIR \<or> type e = ASSET_DIRRM \<or> type e = ASSET_DIRRMTRY \<or>
              type e = ASSET_DIR_OWNER_MODE then
        (if mkdirp_ok env (case data e of None \<Rightarrow> [] | Some d \<Rightarrow> d) \<and> dir_perm_ok env e
         then Some (Some (cwd, file)) else Some None)
      else if type e = ASSET_EXEC then
        (if exec_ok env (data e) cwd file then Some (Some (cwd, file)) else Some None)
      else if is_file_type (type e) then
        (if \<not> next_entry_ok env e then Some None
         else
           (case data e of
              None \<Rightarrow> None
            | Some d \<Rightarrow>
                (let file1 = (if d \<noteq> [] \<and> hd d = CHR ''/'' then fit d
                              else fit (root mport @ cwd @ ''/'' @ d));
                     file2 = (if is_sample_type (type e)
                              then takeWhile (\<lambda>c. c \<noteq> CHR '' '' \<and> c \<noteq> CHR 0x09) file1
                              else file1)
                 in if extract_ok env file2 \<and> file_perm_ok env e file2 \<and>
                       (is_sample_type (type e) \<longrightarrow> sample_ok env cwd d)
                    then Some (Some (cwd, file2)) else Some None)))
      else Some (Some (cwd, file)))"

text \<open>
  The row bound to the prepared \<open>INSERT INTO assets\<close>.  A file is stored with the root
  cut off its name, \<open>filePtr + strlen(mport->root)\<close>; the result is \<open>None\<close> where that
  pointer is past the end of the name.
\<close>

definition asset_row ::
  "mportInstance \<Rightarrow> mportPackageMeta \<Rightarrow> mportAssetListEntry \<Rightarrow> string \<Rightarrow> string
     \<Rightarrow> assets_row option" where
  "asset_row mport pkg' e cwd file =
     (if is_file_type (type e) then
        (if length (root mport) \<le> length file
         then Some \<lparr> assets_pkg = name pkg', assets_type = type e,
                     assets_data = Some (drop (length (root mport)) file),
                     assets_checksum = Some (checksum e), assets_owner = Some (owner e),
                     assets_grp = Some (group e), assets_mode = Some (mode e) \<rparr>
         else None)
      else if type e = ASSET_DIR \<or> type e = ASSET_DIRRM \<or> type e = ASSET_DIRRMTRY then
        Some \<lparr> assets_pkg = name pkg', assets_type = type e,
               assets_data =
                 Some (case data e of
                         None \<Rightarrow> fit (cwd @ ''/(null)'')
                       | Some d \<Rightarrow> if d \<noteq> [] \<and> hd d = CHR ''/'' then fit d
                                    else fit (cwd @ ''/'' @ d)),
               assets_checksum = None, assets_owner = None, assets_grp = None,
               assets_mode = None \<rparr>
      else
        Some \<lparr> assets_pkg = name pkg', assets_type = type e, assets_data = data e,
               assets_checksum = None, assets_owner = None, assets_grp = None,
               assets_mode = None \<rparr>)"

text \<open>
  The loop over the asset list: the \<open>switch\<close>, then the insert of the entry.  The result
  is whether the loop ran to its end, and the instance; \<open>None\<close> for undefined behaviour.
\<close>

fun install_assets ::
  "install_env \<Rightarrow> mportPackageMeta \<Rightarrow> mportAssetListEntry list \<Rightarrow> nat \<Rightarrow> string \<Rightarrow> string
     \<Rightarrow> mportInstance \<Rightarrow> (bool \<times> mportInstance) option" where
  "install_assets env pkg' [] i cwd file mport = Some (True, mport)"
| "install_assets env pkg' (e # es) i cwd file mport =
     (case asset_switch env mport pkg' e cwd file of
        None \<Rightarrow> None
      | Some None \<Rightarrow> Some (False, mport)
      | Some (Some (cwd', file')) \<Rightarrow>
          (case asset_row mport pkg' e cwd' file' of
             None \<Rightarrow> None
           | Some row \<Rightarrow>
               if \<not> sqlite_ok mport (Step (SQL_insert_asset (name pkg') i))
               then Some (False, mport)
               else install_assets env pkg' es (Suc i) cwd' file'
                      (mport\<lparr> db := insert_live (\<lambda>t. t\<lparr> assets := assets t @ [row] \<rparr>)
                                      (db mport) \<rparr>)))"

text \<open>
  \<open>do_actual_install\<close>.  \<open>Installed\<close> is the return of \<open>MPORT_OK\<close> after \<open>COMMIT\<close>;
  \<open>Failed\<close> is the \<open>ERROR\<close> label, which finalises the statement, frees memory and
  returns the current error code.  The log table, which \<open>mport_pkgmeta_logevent\<close> writes
  without a check of the result, is not modelled.
\<close>

datatype install_result = Installed | Failed int

definition do_actual_install ::
  "install_env \<Rightarrow> mportInstance \<Rightarrow> mportPackageMeta \<Rightarrow> (install_result \<times> mportInstance) option" where
  "do_actual_install env mport pkg' =
     (if get_file_count mport (name pkg') \<noteq> MPORT_OK then Some (Failed (err_code env), mport)
      else
        (case mport_bundle_read_get_assetlist_ACTUALINSTALL mport pkg' of
           (r0, alist) \<Rightarrow>
             if r0 \<noteq> MPORT_OK then Some (Failed (err_code env), mport)
             else
               (case create_package_row mport pkg' of
                  (r1, mport1) \<Rightarrow>
                    if r1 \<noteq> MPORT_OK then Some (Failed (err_code env), mport1)
                    else
                      (case create_depends mport1 pkg' of
                         (r2, mport2) \<Rightarrow>
                           if r2 \<noteq> MPORT_OK then Some (Failed (err_code env), mport2)
                           else
                             (case create_categories mport2 pkg' of
                                (r3, mport3) \<Rightarrow>
                                  if r3 \<noteq> MPORT_OK then Some (Failed (err_code env), mport3)
                                  else
                                    (case create_conflicts mport3 pkg' of
                                       (r4, mport4) \<Rightarrow>
                                         if r4 \<noteq> MPORT_OK
                                         then Some (Failed (err_code env), mport4)
                                         else if \<not> sqlite_ok mport4
                                                   (Prepare (SQL_insert_asset (name pkg') 0))
                                         then Some (Failed (err_code env), mport4)
                                         else if \<not> chdir_ok env (fit (prefix pkg'))
                                         then Some (Failed (err_code env), mport4)
                                         else
                                           (case install_assets env pkg' alist 0
                                                   (fit (prefix pkg')) (file_uninit env)
                                                   (begin_transaction mport4) of
                                              None \<Rightarrow> None
                                            | Some (False, mport5) \<Rightarrow>
                                                Some (Failed (err_code env), mport5)
                                            | Some (True, mport5) \<Rightarrow>
                                                (case commit mport5 of
                                                   (r6, mport6) \<Rightarrow>
                                                     if r6 \<noteq> MPORT_OK
                                                     then Some (Failed (err_code env), mport6)
                                                     else Some (Installed, mport6)))))))))"

subsection \<open>Example bundle and environment\<close>

definition env_ok :: install_env where
  "env_ok =
     \<lparr> chdir_ok = (\<lambda>_. True), mkdirp_ok = (\<lambda>_. True), dir_perm_ok = (\<lambda>_. True),
       exec_ok = (\<lambda>_ _ _. True), next_entry_ok = (\<lambda>_. True), extract_ok = (\<lambda>_. True),
       file_perm_ok = (\<lambda>_ _. True), sample_ok = (\<lambda>_ _. True), file_uninit = [],
       err_code = MPORT_ERR_FATAL \<rparr>"

definition file_asset :: "string \<Rightarrow> string \<Rightarrow> assets_row" where
  "file_asset n f =
     \<lparr> assets_pkg = n, assets_type = ASSET_FILE, assets_data = Some f,
       assets_checksum = Some ''00'', assets_owner = None, assets_grp = None,
       assets_mode = None \<rparr>"

definition foo_bundle :: tables where
  "foo_bundle = no_tables\<lparr> packages := [installed ''foo'' ''1.1'' 0 0],
                            depends := [depends_on ''foo'' ''bar''],
                            assets := [file_asset ''foo'' ''bin/foo''] \<rparr>"

definition foo_meta :: mportPackageMeta where
  "foo_meta = populate_meta_from_stmt (stub_select (installed ''foo'' ''1.1'' 0 0))"

subsection \<open>What phase 2 leaves in the database\<close>

lemma install_assets_frame:
  "install_assets env pkg' es i cwd fl m = Some (b, m') \<Longrightarrow>
     txn (db m') = txn (db m) \<and> stub (db m') = stub (db m) \<and>
     packages (live (db m')) = packages (live (db m)) \<and>
     depends (live (db m')) = depends (live (db m)) \<and>
     categories (live (db m')) = categories (live (db m)) \<and>
     conflicts (live (db m')) = conflicts (live (db m)) \<and>
     (\<exists>rows. assets (live (db m')) = assets (live (db m)) @ rows \<and>
             (b \<longrightarrow> length rows = length es))"
proof (induction es arbitrary: i cwd fl m)
  case Nil
  then show ?case by simp
next
  case (Cons e es)
  from Cons.prems obtain sw where sw: "asset_switch env m pkg' e cwd fl = Some sw"
    by (cases "asset_switch env m pkg' e cwd fl") auto
  show ?case
  proof (cases sw)
    case None
    with Cons.prems sw show ?thesis by simp
  next
    case (Some cf)
    obtain cwd' fl' where cf: "cf = (cwd', fl')" by (cases cf)
    from Cons.prems sw Some cf obtain row where row: "asset_row m pkg' e cwd' fl' = Some row"
      by (cases "asset_row m pkg' e cwd' fl'") auto
    show ?thesis
    proof (cases "sqlite_ok m (Step (SQL_insert_asset (name pkg') i))")
      case False
      with Cons.prems sw Some cf row show ?thesis by simp
    next
      case True
      let ?m1 = "m\<lparr> db := insert_live (\<lambda>t. t\<lparr> assets := assets t @ [row] \<rparr>) (db m) \<rparr>"
      from Cons.prems sw Some cf row True
      have rec: "install_assets env pkg' es (Suc i) cwd' fl' ?m1 = Some (b, m')" by simp
      from Cons.IH[OF rec] obtain rows where
        f: "txn (db m') = txn (db ?m1)" "stub (db m') = stub (db ?m1)"
           "packages (live (db m')) = packages (live (db ?m1))"
           "depends (live (db m')) = depends (live (db ?m1))"
           "categories (live (db m')) = categories (live (db ?m1))"
           "conflicts (live (db m')) = conflicts (live (db ?m1))"
        and a: "assets (live (db m')) = assets (live (db ?m1)) @ rows"
        and l: "b \<longrightarrow> length rows = length es"
        by blast
      have "assets (live (db m')) = assets (live (db m)) @ (row # rows)"
        using a by (simp add: insert_live_def)
      moreover have "b \<longrightarrow> length (row # rows) = length (e # es)" using l by simp
      ultimately show ?thesis using f by (auto simp: insert_live_def)
    qed
  qed
qed

lemma create_rows_frame:
  shows "create_depends m pkg' = (r, m') \<Longrightarrow>
           txn (db m') = txn (db m) \<and> stub (db m') = stub (db m) \<and>
           sqlite_ok m' = sqlite_ok m \<and>
           packages (live (db m')) = packages (live (db m)) \<and>
           assets (live (db m')) = assets (live (db m)) \<and> (r \<noteq> MPORT_OK \<longrightarrow> m' = m)"
    and "create_categories m pkg' = (r, m') \<Longrightarrow>
           txn (db m') = txn (db m) \<and> stub (db m') = stub (db m) \<and>
           sqlite_ok m' = sqlite_ok m \<and>
           packages (live (db m')) = packages (live (db m)) \<and>
           assets (live (db m')) = assets (live (db m)) \<and> (r \<noteq> MPORT_OK \<longrightarrow> m' = m)"
    and "create_conflicts m pkg' = (r, m') \<Longrightarrow>
           txn (db m') = txn (db m) \<and> stub (db m') = stub (db m) \<and>
           sqlite_ok m' = sqlite_ok m \<and>
           packages (live (db m')) = packages (live (db m)) \<and>
           assets (live (db m')) = assets (live (db m)) \<and> (r \<noteq> MPORT_OK \<longrightarrow> m' = m)"
  by (auto simp: create_depends_def create_categories_def create_conflicts_def insert_live_def
        MPORT_OK_def MPORT_ERR_FATAL_def split: if_splits)

lemma create_package_row_frame:
  "create_package_row m pkg' = (r, m') \<Longrightarrow>
     txn (db m') = txn (db m) \<and> stub (db m') = stub (db m) \<and> sqlite_ok m' = sqlite_ok m \<and>
     assets (live (db m')) = assets (live (db m)) \<and>
     (r \<noteq> MPORT_OK \<longrightarrow> m' = m) \<and>
     (r = MPORT_OK \<longrightarrow> packages (live (db m')) = packages (live (db m)) @ [package_row_of pkg'])"
  by (auto simp: create_package_row_def insert_live_def MPORT_OK_def MPORT_ERR_FATAL_def
        split: if_splits)

lemma begin_transaction_frame:
  "live (db (begin_transaction m)) = live (db m) \<and> stub (db (begin_transaction m)) = stub (db m) \<and>
   sqlite_ok (begin_transaction m) = sqlite_ok m \<and>
   (txn (db m) = None \<longrightarrow>
      txn (db (begin_transaction m)) =
        (if sqlite_ok m (Do SQL_begin) then Some (live (db m)) else None))"
  by (simp add: begin_transaction_def)

lemma commit_frame:
  "commit m = (r, m') \<Longrightarrow>
     live (db m') = live (db m) \<and> (r = MPORT_OK \<longrightarrow> txn (db m') = None) \<and>
     (r \<noteq> MPORT_OK \<longrightarrow> m' = m)"
  by (auto simp: commit_def MPORT_OK_def MPORT_ERR_FATAL_def split: if_splits)

lemma do_actual_install_cases [consumes 1, case_names early rows loop]:
  assumes run: "do_actual_install env mport pkg' = Some (res, mport')"
  obtains
    (early) "mport' = mport" and "res \<noteq> Installed"
  | (rows) m1 m4 where "create_package_row mport pkg' = (MPORT_OK, m1)"
      and "txn (db m4) = txn (db m1)" and "packages (live (db m4)) = packages (live (db m1))"
      and "assets (live (db m4)) = assets (live (db m1))"
      and "mport' = m4" and "res \<noteq> Installed" and "sqlite_ok m4 = sqlite_ok mport"
  | (loop) m1 m4 m5 b where "create_package_row mport pkg' = (MPORT_OK, m1)"
      and "txn (db m4) = txn (db m1)" and "packages (live (db m4)) = packages (live (db m1))"
      and "assets (live (db m4)) = assets (live (db m1))"
      and "sqlite_ok m4 = sqlite_ok mport"
      and "install_assets env pkg' (snd (mport_bundle_read_get_assetlist_ACTUALINSTALL mport pkg'))
             0 (fit (prefix pkg')) (file_uninit env) (begin_transaction m4) = Some (b, m5)"
      and "b \<longrightarrow> commit m5 = (if res = Installed then MPORT_OK else MPORT_ERR_FATAL, mport')"
      and "\<not> b \<longrightarrow> mport' = m5 \<and> res \<noteq> Installed"
proof -
  obtain r0 alist where al: "mport_bundle_read_get_assetlist_ACTUALINSTALL mport pkg' = (r0, alist)"
    by (cases "mport_bundle_read_get_assetlist_ACTUALINSTALL mport pkg'")
  obtain r1 m1 where c1: "create_package_row mport pkg' = (r1, m1)"
    by (cases "create_package_row mport pkg'")
  obtain r2 m2 where c2: "create_depends m1 pkg' = (r2, m2)" by (cases "create_depends m1 pkg'")
  obtain r3 m3 where c3: "create_categories m2 pkg' = (r3, m3)"
    by (cases "create_categories m2 pkg'")
  obtain r4 m4 where c4: "create_conflicts m3 pkg' = (r4, m4)"
    by (cases "create_conflicts m3 pkg'")
  note f1 = create_package_row_frame[OF c1]
  note f2 = create_rows_frame(1)[OF c2]
  note f3 = create_rows_frame(2)[OF c3]
  note f4 = create_rows_frame(3)[OF c4]
  show ?thesis
  proof (cases "get_file_count mport (name pkg') \<noteq> MPORT_OK \<or> r0 \<noteq> MPORT_OK \<or> r1 \<noteq> MPORT_OK")
    case True
    then have "mport' = mport \<and> res \<noteq> Installed"
      using run al c1 f1 by (auto simp: do_actual_install_def split: if_splits)
    then show ?thesis using early by blast
  next
    case ok1: False
    then have r1: "r1 = MPORT_OK" by simp
    show ?thesis
    proof (cases "r2 \<noteq> MPORT_OK \<or> r3 \<noteq> MPORT_OK \<or> r4 \<noteq> MPORT_OK \<or>
                  \<not> sqlite_ok m4 (Prepare (SQL_insert_asset (name pkg') 0)) \<or>
                  \<not> chdir_ok env (fit (prefix pkg'))")
      case True
      then obtain mx where mx: "mport' = mx" "res \<noteq> Installed"
        "txn (db mx) = txn (db m1)" "packages (live (db mx)) = packages (live (db m1))"
        "assets (live (db mx)) = assets (live (db m1))" "sqlite_ok mx = sqlite_ok mport"
        using run al c1 c2 c3 c4 ok1 f1 f2 f3 f4
        by (auto simp: do_actual_install_def split: if_splits)
      show ?thesis using rows[of m1 mx] c1 r1 mx by simp
    next
      case ok2: False
      from run al c1 c2 c3 c4 ok1 ok2 obtain b m5 where
        ia: "install_assets env pkg' alist 0 (fit (prefix pkg')) (file_uninit env)
               (begin_transaction m4) = Some (b, m5)"
        by (cases "install_assets env pkg' alist 0 (fit (prefix pkg')) (file_uninit env)
                     (begin_transaction m4)")
           (auto simp: do_actual_install_def split: if_splits bool.splits)
      have fin: "(b \<longrightarrow> commit m5 = (if res = Installed then MPORT_OK else MPORT_ERR_FATAL, mport')) \<and>
                 (\<not> b \<longrightarrow> mport' = m5 \<and> res \<noteq> Installed)"
        using run al c1 c2 c3 c4 ok1 ok2 ia
        by (cases "commit m5")
           (auto simp: do_actual_install_def commit_def MPORT_OK_def MPORT_ERR_FATAL_def
              split: if_splits bool.splits)
      have fr: "txn (db m4) = txn (db m1)" "packages (live (db m4)) = packages (live (db m1))"
        "assets (live (db m4)) = assets (live (db m1))" "sqlite_ok m4 = sqlite_ok mport"
        using f1 f2 f3 f4 by simp_all
      show ?thesis using loop[of m1 m4 b m5] c1 r1 fr ia fin al by simp
    qed
  qed
qed

lemma create_package_row_live:
  "create_package_row m pkg' = (r, m') \<Longrightarrow>
     depends (live (db m')) = depends (live (db m)) \<and>
     categories (live (db m')) = categories (live (db m)) \<and>
     conflicts (live (db m')) = conflicts (live (db m))"
  by (auto simp: create_package_row_def insert_live_def split: if_splits)

lemma create_depends_live:
  "create_depends m pkg' = (r, m') \<Longrightarrow>
     (r = MPORT_OK \<longleftrightarrow> sqlite_ok m (Do (SQL_insert_depends (name pkg')))) \<and>
     depends (live (db m')) = depends (live (db m)) @
       (if r = MPORT_OK then filter (\<lambda>d. depends_pkg d = name pkg') (depends (stub (db m)))
        else []) \<and>
     categories (live (db m')) = categories (live (db m)) \<and>
     conflicts (live (db m')) = conflicts (live (db m))"
  by (auto simp: create_depends_def insert_live_def MPORT_OK_def MPORT_ERR_FATAL_def
        split: if_splits)

lemma create_categories_live:
  "create_categories m pkg' = (r, m') \<Longrightarrow>
     (r = MPORT_OK \<longleftrightarrow> sqlite_ok m (Do (SQL_insert_categories (name pkg')))) \<and>
     categories (live (db m')) = categories (live (db m)) @
       (if r = MPORT_OK then filter (\<lambda>d. categories_pkg d = name pkg') (categories (stub (db m)))
        else []) \<and>
     depends (live (db m')) = depends (live (db m)) \<and>
     conflicts (live (db m')) = conflicts (live (db m))"
  by (auto simp: create_categories_def insert_live_def MPORT_OK_def MPORT_ERR_FATAL_def
        split: if_splits)

lemma create_conflicts_live:
  "create_conflicts m pkg' = (r, m') \<Longrightarrow>
     (r = MPORT_OK \<longleftrightarrow> sqlite_ok m (Do (SQL_insert_conflicts (name pkg')))) \<and>
     conflicts (live (db m')) = conflicts (live (db m)) @
       (if r = MPORT_OK then filter (\<lambda>d. conflicts_pkg d = name pkg') (conflicts (stub (db m)))
        else []) \<and>
     depends (live (db m')) = depends (live (db m)) \<and>
     categories (live (db m')) = categories (live (db m))"
  by (auto simp: create_conflicts_def insert_live_def MPORT_OK_def MPORT_ERR_FATAL_def
        split: if_splits)

text \<open>
  The rows that the statements before \<open>BEGIN TRANSACTION\<close> copy from the stub database:
  each statement runs only if the one before it succeeded.
\<close>

definition copied_depends :: "mportInstance \<Rightarrow> mportPackageMeta \<Rightarrow> depends_row list" where
  "copied_depends mport pkg' =
     (if sqlite_ok mport (Do (SQL_insert_depends (name pkg')))
      then filter (\<lambda>d. depends_pkg d = name pkg') (depends (stub (db mport))) else [])"

definition copied_categories :: "mportInstance \<Rightarrow> mportPackageMeta \<Rightarrow> categories_row list" where
  "copied_categories mport pkg' =
     (if sqlite_ok mport (Do (SQL_insert_depends (name pkg'))) \<and>
         sqlite_ok mport (Do (SQL_insert_categories (name pkg')))
      then filter (\<lambda>d. categories_pkg d = name pkg') (categories (stub (db mport))) else [])"

definition copied_conflicts :: "mportInstance \<Rightarrow> mportPackageMeta \<Rightarrow> conflicts_row list" where
  "copied_conflicts mport pkg' =
     (if sqlite_ok mport (Do (SQL_insert_depends (name pkg'))) \<and>
         sqlite_ok mport (Do (SQL_insert_categories (name pkg'))) \<and>
         sqlite_ok mport (Do (SQL_insert_conflicts (name pkg')))
      then filter (\<lambda>d. conflicts_pkg d = name pkg') (conflicts (stub (db mport))) else [])"

text \<open>The tables other than \<open>assets\<close> after the statements before \<open>BEGIN TRANSACTION\<close>.\<close>

definition rows_written :: "mportInstance \<Rightarrow> mportPackageMeta \<Rightarrow> tables \<Rightarrow> bool" where
  "rows_written mport pkg' t \<longleftrightarrow>
     packages t = packages (live (db mport)) @ [package_row_of pkg'] \<and>
     depends t = depends (live (db mport)) @ copied_depends mport pkg' \<and>
     categories t = categories (live (db mport)) @ copied_categories mport pkg' \<and>
     conflicts t = conflicts (live (db mport)) @ copied_conflicts mport pkg'"

lemma do_actual_install_rows [consumes 1, case_names early rows loop]:
  assumes run: "do_actual_install env mport pkg' = Some (res, mport')"
  obtains
    (early) "get_file_count mport (name pkg') \<noteq> MPORT_OK \<or>
             fst (mport_bundle_read_get_assetlist_ACTUALINSTALL mport pkg') \<noteq> MPORT_OK \<or>
             fst (create_package_row mport pkg') \<noteq> MPORT_OK"
      and "mport' = mport" and "res \<noteq> Installed"
  | (rows) "get_file_count mport (name pkg') = MPORT_OK"
      and "fst (mport_bundle_read_get_assetlist_ACTUALINSTALL mport pkg') = MPORT_OK"
      and "fst (create_package_row mport pkg') = MPORT_OK"
      and "txn (db mport') = txn (db mport)" and "rows_written mport pkg' (live (db mport'))"
      and "assets (live (db mport')) = assets (live (db mport))"
      and "res \<noteq> Installed"
  | (loop) m4 m5 b where "get_file_count mport (name pkg') = MPORT_OK"
      and "fst (mport_bundle_read_get_assetlist_ACTUALINSTALL mport pkg') = MPORT_OK"
      and "fst (create_package_row mport pkg') = MPORT_OK"
      and "txn (db m4) = txn (db mport)" and "rows_written mport pkg' (live (db m4))"
      and "assets (live (db m4)) = assets (live (db mport))"
      and "sqlite_ok m4 = sqlite_ok mport"
      and "sqlite_ok mport (Do (SQL_insert_depends (name pkg')))"
      and "sqlite_ok mport (Do (SQL_insert_categories (name pkg')))"
      and "sqlite_ok mport (Do (SQL_insert_conflicts (name pkg')))"
      and "install_assets env pkg' (snd (mport_bundle_read_get_assetlist_ACTUALINSTALL mport pkg'))
             0 (fit (prefix pkg')) (file_uninit env) (begin_transaction m4) = Some (b, m5)"
      and "b \<longrightarrow> commit m5 = (if res = Installed then MPORT_OK else MPORT_ERR_FATAL, mport')"
      and "\<not> b \<longrightarrow> mport' = m5 \<and> res \<noteq> Installed"
proof -
  obtain r0 alist where al: "mport_bundle_read_get_assetlist_ACTUALINSTALL mport pkg' = (r0, alist)"
    by (cases "mport_bundle_read_get_assetlist_ACTUALINSTALL mport pkg'")
  obtain r1 m1 where c1: "create_package_row mport pkg' = (r1, m1)"
    by (cases "create_package_row mport pkg'")
  obtain r2 m2 where c2: "create_depends m1 pkg' = (r2, m2)" by (cases "create_depends m1 pkg'")
  obtain r3 m3 where c3: "create_categories m2 pkg' = (r3, m3)"
    by (cases "create_categories m2 pkg'")
  obtain r4 m4 where c4: "create_conflicts m3 pkg' = (r4, m4)"
    by (cases "create_conflicts m3 pkg'")
  note f1 = create_package_row_frame[OF c1]
  note f2 = create_rows_frame(1)[OF c2]
  note f3 = create_rows_frame(2)[OF c3]
  note f4 = create_rows_frame(3)[OF c4]
  note l1 = create_package_row_live[OF c1]
  note l2 = create_depends_live[OF c2]
  note l3 = create_categories_live[OF c3]
  note l4 = create_conflicts_live[OF c4]
  show ?thesis
  proof (cases "get_file_count mport (name pkg') \<noteq> MPORT_OK \<or> r0 \<noteq> MPORT_OK \<or> r1 \<noteq> MPORT_OK")
    case True
    then have "mport' = mport \<and> res \<noteq> Installed"
      using run al c1 f1 by (auto simp: do_actual_install_def split: if_splits)
    then show ?thesis using early True al c1 by simp
  next
    case ok1: False
    then have r1: "r1 = MPORT_OK" and g: "get_file_count mport (name pkg') = MPORT_OK"
      and r0: "r0 = MPORT_OK" by simp_all
    have s1: "sqlite_ok m1 = sqlite_ok mport" "stub (db m1) = stub (db mport)"
      "txn (db m1) = txn (db mport)" using f1 by simp_all
    have s2: "sqlite_ok m2 = sqlite_ok mport" "stub (db m2) = stub (db mport)"
      "txn (db m2) = txn (db mport)" using f2 s1 by simp_all
    have s3: "sqlite_ok m3 = sqlite_ok mport" "stub (db m3) = stub (db mport)"
      "txn (db m3) = txn (db mport)" using f3 s2 by simp_all
    have s4: "sqlite_ok m4 = sqlite_ok mport" "stub (db m4) = stub (db mport)"
      "txn (db m4) = txn (db mport)" using f4 s3 by simp_all
    have p1: "packages (live (db m1)) = packages (live (db mport)) @ [package_row_of pkg']"
      using f1 r1 by simp
    have a1: "assets (live (db m1)) = assets (live (db mport))" using f1 by simp
    have e2: "r2 = MPORT_OK \<longleftrightarrow> sqlite_ok mport (Do (SQL_insert_depends (name pkg')))"
      using l2 s1 by simp
    have e3: "r3 = MPORT_OK \<longleftrightarrow> sqlite_ok mport (Do (SQL_insert_categories (name pkg')))"
      using l3 s2 by simp
    have e4: "r4 = MPORT_OK \<longleftrightarrow> sqlite_ok mport (Do (SQL_insert_conflicts (name pkg')))"
      using l4 s3 by simp
    show ?thesis
    proof (cases "r2 = MPORT_OK")
      case n2: False
      with run al c1 c2 ok1 have m: "mport' = m2" "res \<noteq> Installed"
        by (auto simp: do_actual_install_def split: if_splits)
      from n2 f2 have "m2 = m1" by simp
      with m p1 a1 l1 s1 n2 e2 have "rows_written mport pkg' (live (db mport'))"
        "assets (live (db mport')) = assets (live (db mport))" "txn (db mport') = txn (db mport)"
        by (simp_all add: rows_written_def copied_depends_def copied_categories_def
              copied_conflicts_def)
      with m g r0 r1 al c1 show ?thesis using rows by simp
    next
      case y2: True
      have d2: "depends (live (db m2)) = depends (live (db mport)) @ copied_depends mport pkg'"
        using l2 l1 y2 e2 s1 by (simp add: copied_depends_def)
      have o2: "packages (live (db m2)) = packages (live (db mport)) @ [package_row_of pkg']"
        "assets (live (db m2)) = assets (live (db mport))"
        "categories (live (db m2)) = categories (live (db mport))"
        "conflicts (live (db m2)) = conflicts (live (db mport))"
        using f2 p1 a1 l2 l1 by simp_all
      show ?thesis
      proof (cases "r3 = MPORT_OK")
        case n3: False
        with run al c1 c2 c3 ok1 y2 have m: "mport' = m3" "res \<noteq> Installed"
          by (auto simp: do_actual_install_def split: if_splits)
        from n3 f3 have "m3 = m2" by simp
        with m d2 o2 s2 n3 e3 e2 y2 have "rows_written mport pkg' (live (db mport'))"
          "assets (live (db mport')) = assets (live (db mport))" "txn (db mport') = txn (db mport)"
          by (simp_all add: rows_written_def copied_categories_def copied_conflicts_def)
        with m g r0 r1 al c1 show ?thesis using rows by simp
      next
        case y3: True
        have d3: "categories (live (db m3)) =
                    categories (live (db mport)) @ copied_categories mport pkg'"
          using l3 o2 y3 e3 e2 y2 s2 by (simp add: copied_categories_def)
        have o3: "packages (live (db m3)) = packages (live (db mport)) @ [package_row_of pkg']"
          "assets (live (db m3)) = assets (live (db mport))"
          "depends (live (db m3)) = depends (live (db mport)) @ copied_depends mport pkg'"
          "conflicts (live (db m3)) = conflicts (live (db mport))"
          using f3 o2 d2 l3 by simp_all
        have d4: "conflicts (live (db m4)) =
                    conflicts (live (db mport)) @ copied_conflicts mport pkg'"
          using l4 o3 e4 e3 y3 e2 y2 s3 by (auto simp: copied_conflicts_def)
        have o4: "packages (live (db m4)) = packages (live (db mport)) @ [package_row_of pkg']"
          "assets (live (db m4)) = assets (live (db mport))"
          "depends (live (db m4)) = depends (live (db mport)) @ copied_depends mport pkg'"
          "categories (live (db m4)) = categories (live (db mport)) @ copied_categories mport pkg'"
          using f4 o3 d3 l4 by simp_all
        have w4: "rows_written mport pkg' (live (db m4))"
          using o4 d4 by (simp add: rows_written_def)
        show ?thesis
        proof (cases "r4 \<noteq> MPORT_OK \<or>
                  \<not> sqlite_ok m4 (Prepare (SQL_insert_asset (name pkg') 0)) \<or>
                  \<not> chdir_ok env (fit (prefix pkg'))")
          case True
          with run al c1 c2 c3 c4 ok1 y2 y3 have m: "mport' = m4" "res \<noteq> Installed"
            by (auto simp: do_actual_install_def split: if_splits)
          with w4 o4 s4 g r0 r1 al c1 show ?thesis using rows by simp
        next
          case ok4: False
          from run al c1 c2 c3 c4 ok1 y2 y3 ok4 obtain b m5 where
            ia: "install_assets env pkg' alist 0 (fit (prefix pkg')) (file_uninit env)
                   (begin_transaction m4) = Some (b, m5)"
            by (cases "install_assets env pkg' alist 0 (fit (prefix pkg')) (file_uninit env)
                         (begin_transaction m4)")
               (auto simp: do_actual_install_def split: if_splits bool.splits)
          have fin: "(b \<longrightarrow> commit m5 = (if res = Installed then MPORT_OK else MPORT_ERR_FATAL, mport')) \<and>
                     (\<not> b \<longrightarrow> mport' = m5 \<and> res \<noteq> Installed)"
            using run al c1 c2 c3 c4 ok1 y2 y3 ok4 ia
            by (cases "commit m5")
               (auto simp: do_actual_install_def commit_def MPORT_OK_def MPORT_ERR_FATAL_def
                  split: if_splits bool.splits)
          from ok4 e4 have y4: "sqlite_ok mport (Do (SQL_insert_conflicts (name pkg')))" by simp
          show ?thesis
            using loop[of m4 b m5] g r0 r1 al c1 s4 w4 o4 y2 y3 y4 e2 e3 ia fin by simp
        qed
      qed
    qed
  qed
qed

text \<open>
  Claim C1, as amended.  Phase 2 is not one transaction: \<open>do_actual_install\<close> writes the
  packages row (with status \<open>dirty\<close>) and copies the depends, categories and conflicts
  rows before \<open>BEGIN TRANSACTION\<close>; only the assets rows are written between \<open>BEGIN\<close>
  and \<open>COMMIT\<close>.  Started without an open transaction: when the file count, the asset
  list or the insert of the packages row fails, the run fails and leaves the instance as
  it was.  In every other run, failed or not, the database holds the packages row of the
  incoming package and the depends, categories and conflicts rows of each copy that ran.
  On success all three copies have run, one assets row for each entry of the asset list
  is in the live tables and no transaction is open; on failure, if \<open>BEGIN\<close> was accepted,
  no assets row has been committed.
\<close>

theorem do_actual_install_database:
  assumes run: "do_actual_install env mport pkg' = Some (res, mport')"
    and idle: "txn (db mport) = None"
  shows "(get_file_count mport (name pkg') \<noteq> MPORT_OK \<or>
          fst (mport_bundle_read_get_assetlist_ACTUALINSTALL mport pkg') \<noteq> MPORT_OK \<or>
          fst (create_package_row mport pkg') \<noteq> MPORT_OK \<longrightarrow>
            res \<noteq> Installed \<and> mport' = mport) \<and>
         (get_file_count mport (name pkg') = MPORT_OK \<and>
          fst (mport_bundle_read_get_assetlist_ACTUALINSTALL mport pkg') = MPORT_OK \<and>
          fst (create_package_row mport pkg') = MPORT_OK \<longrightarrow>
            rows_written mport pkg' (durable (db mport'))) \<and>
         (res = Installed \<longrightarrow>
            txn (db mport') = None \<and>
            rows_written mport pkg' (live (db mport')) \<and>
            sqlite_ok mport (Do (SQL_insert_depends (name pkg'))) \<and>
            sqlite_ok mport (Do (SQL_insert_categories (name pkg'))) \<and>
            sqlite_ok mport (Do (SQL_insert_conflicts (name pkg'))) \<and>
            length (assets (live (db mport'))) =
              length (assets (live (db mport))) +
              length (snd (mport_bundle_read_get_assetlist_ACTUALINSTALL mport pkg'))) \<and>
         (res \<noteq> Installed \<longrightarrow> sqlite_ok mport (Do SQL_begin) \<longrightarrow>
            assets (durable (db mport')) = assets (live (db mport)))"
  using run
proof (cases rule: do_actual_install_rows)
  case early
  then show ?thesis using idle by (auto simp: durable_def)
next
  case rows
  then show ?thesis using idle by (simp add: durable_def)
next
  case (loop m4 m5 b)
  let ?al = "snd (mport_bundle_read_get_assetlist_ACTUALINSTALL mport pkg')"
  have t4: "txn (db m4) = None" using loop(4) idle by simp
  note bt = begin_transaction_frame[of m4]
  from install_assets_frame[OF loop(11)] obtain rws where
    t5: "txn (db m5) = txn (db (begin_transaction m4))"
    and p5: "packages (live (db m5)) = packages (live (db (begin_transaction m4)))"
    and d5: "depends (live (db m5)) = depends (live (db (begin_transaction m4)))"
    and c5: "categories (live (db m5)) = categories (live (db (begin_transaction m4)))"
    and k5: "conflicts (live (db m5)) = conflicts (live (db (begin_transaction m4)))"
    and a5: "assets (live (db m5)) = assets (live (db (begin_transaction m4))) @ rws"
    and l5: "b \<longrightarrow> length rws = length ?al"
    by blast
  have t5': "txn (db m5) = (if sqlite_ok mport (Do SQL_begin) then Some (live (db m4)) else None)"
    using t5 bt t4 loop(7) by simp
  have w5: "rows_written mport pkg' (live (db m5))"
    using loop(5) p5 d5 c5 k5 bt by (simp add: rows_written_def)
  have a5': "assets (live (db m5)) = assets (live (db mport)) @ rws"
    using a5 bt loop(6) by simp
  have dur5: "rows_written mport pkg' (durable (db m5))"
    using t5' w5 loop(5) by (simp add: durable_def)
  have dura5: "sqlite_ok mport (Do SQL_begin) \<longrightarrow>
               assets (durable (db m5)) = assets (live (db mport))"
    using t5' loop(6) by (simp add: durable_def)
  note oks = loop(1,2,3,8,9,10)
  show ?thesis
  proof (cases b)
    case False
    with loop(13) dur5 dura5 oks show ?thesis by simp
  next
    case True
    with loop(12) have c: "commit m5 = (if res = Installed then MPORT_OK else MPORT_ERR_FATAL, mport')"
      by simp
    note cf = commit_frame[OF c]
    show ?thesis
    proof (cases "res = Installed")
      case True
      with cf have "txn (db mport') = None" "live (db mport') = live (db m5)" by simp_all
      with True w5 a5' l5 \<open>b\<close> oks show ?thesis by (simp add: durable_def)
    next
      case False
      with cf have "mport' = m5" by (simp add: MPORT_OK_def MPORT_ERR_FATAL_def)
      with False dur5 dura5 oks show ?thesis by simp
    qed
  qed
qed

theorem do_actual_install_database_witness:
  "(\<exists>res mport'.
      do_actual_install (env_ok\<lparr> extract_ok := (\<lambda>_. False) \<rparr>)
        (instance_of no_tables foo_bundle) foo_meta = Some (res, mport') \<and>
      txn (db (instance_of no_tables foo_bundle)) = None \<and>
      get_file_count (instance_of no_tables foo_bundle) (name foo_meta) = MPORT_OK \<and>
      fst (mport_bundle_read_get_assetlist_ACTUALINSTALL (instance_of no_tables foo_bundle)
             foo_meta) = MPORT_OK \<and>
      fst (create_package_row (instance_of no_tables foo_bundle) foo_meta) = MPORT_OK \<and>
      sqlite_ok (instance_of no_tables foo_bundle) (Do SQL_begin) \<and>
      res \<noteq> Installed \<and>
      rows_written (instance_of no_tables foo_bundle) foo_meta (durable (db mport')) \<and>
      packages (durable (db mport')) = [package_row_of foo_meta] \<and>
      depends (durable (db mport')) = [depends_on ''foo'' ''bar''] \<and>
      assets (durable (db mport')) = []) \<and>
   (\<exists>res mport'.
      do_actual_install env_ok
        (instance_of (no_tables\<lparr> packages := [installed ''foo'' ''1.0'' 0 0] \<rparr>) foo_bundle)
        foo_meta = Some (res, mport') \<and>
      fst (create_package_row
             (instance_of (no_tables\<lparr> packages := [installed ''foo'' ''1.0'' 0 0] \<rparr>) foo_bundle)
             foo_meta) \<noteq> MPORT_OK \<and>
      res \<noteq> Installed \<and>
      mport' = instance_of (no_tables\<lparr> packages := [installed ''foo'' ''1.0'' 0 0] \<rparr>) foo_bundle) \<and>
   (\<exists>mport'.
      do_actual_install env_ok (instance_of no_tables foo_bundle) foo_meta
        = Some (Installed, mport') \<and>
      txn (db mport') = None \<and>
      packages (live (db mport')) = [package_row_of foo_meta] \<and>
      depends (live (db mport')) = [depends_on ''foo'' ''bar''] \<and>
      length (assets (live (db mport'))) = 1)"
proof -
  let ?E = "env_ok\<lparr> extract_ok := (\<lambda>_. False) \<rparr>"
  let ?I = "instance_of no_tables foo_bundle"
  let ?J = "instance_of (no_tables\<lparr> packages := [installed ''foo'' ''1.0'' 0 0] \<rparr>) foo_bundle"
  have idle: "txn (db ?I) = None" "txn (db ?J) = None" by (simp_all add: instance_of_def)
  have pre: "get_file_count ?I (name foo_meta) = MPORT_OK"
    "fst (mport_bundle_read_get_assetlist_ACTUALINSTALL ?I foo_meta) = MPORT_OK"
    "fst (create_package_row ?I foo_meta) = MPORT_OK"
    "sqlite_ok ?I (Do SQL_begin)"
    by code_simp+
  have old: "packages (live (db ?I)) = []" "depends (live (db ?I)) = []"
    "assets (live (db ?I)) = []"
    "copied_depends ?I foo_meta = [depends_on ''foo'' ''bar'']"
    "length (snd (mport_bundle_read_get_assetlist_ACTUALINSTALL ?I foo_meta)) = 1"
    by code_simp+
  have "map_option fst (do_actual_install ?E ?I foo_meta) = Some (Failed MPORT_ERR_FATAL)"
    by code_simp
  then obtain m1 where
    run1: "do_actual_install ?E ?I foo_meta = Some (Failed MPORT_ERR_FATAL, m1)"
    by (cases "do_actual_install ?E ?I foo_meta") auto
  from do_actual_install_database[OF run1 idle(1)] pre old
  have w1: "rows_written ?I foo_meta (durable (db m1))" "assets (durable (db m1)) = []"
    by simp_all
  with old have r1: "packages (durable (db m1)) = [package_row_of foo_meta]"
    "depends (durable (db m1)) = [depends_on ''foo'' ''bar'']"
    by (simp_all add: rows_written_def)
  have nok: "fst (create_package_row ?J foo_meta) \<noteq> MPORT_OK" by code_simp
  have "map_option fst (do_actual_install env_ok ?J foo_meta) = Some (Failed MPORT_ERR_FATAL)"
    by code_simp
  then obtain m2 where
    run2: "do_actual_install env_ok ?J foo_meta = Some (Failed MPORT_ERR_FATAL, m2)"
    by (cases "do_actual_install env_ok ?J foo_meta") auto
  from do_actual_install_database[OF run2 idle(2)] nok have e2: "m2 = ?J" by simp
  have "map_option fst (do_actual_install env_ok ?I foo_meta) = Some Installed"
    by code_simp
  then obtain m3 where
    run3: "do_actual_install env_ok ?I foo_meta = Some (Installed, m3)"
    by (cases "do_actual_install env_ok ?I foo_meta") auto
  from do_actual_install_database[OF run3 idle(1)] old
  have w3: "txn (db m3) = None" "rows_written ?I foo_meta (live (db m3))"
    "length (assets (live (db m3))) = 1" by simp_all
  with old have r3: "packages (live (db m3)) = [package_row_of foo_meta]"
    "depends (live (db m3)) = [depends_on ''foo'' ''bar'']"
    by (simp_all add: rows_written_def)
  have c1: "\<exists>res mport'.
      do_actual_install ?E ?I foo_meta = Some (res, mport') \<and>
      txn (db ?I) = None \<and>
      get_file_count ?I (name foo_meta) = MPORT_OK \<and>
      fst (mport_bundle_read_get_assetlist_ACTUALINSTALL ?I foo_meta) = MPORT_OK \<and>
      fst (create_package_row ?I foo_meta) = MPORT_OK \<and>
      sqlite_ok ?I (Do SQL_begin) \<and>
      res \<noteq> Installed \<and>
      rows_written ?I foo_meta (durable (db mport')) \<and>
      packages (durable (db mport')) = [package_row_of foo_meta] \<and>
      depends (durable (db mport')) = [depends_on ''foo'' ''bar''] \<and>
      assets (durable (db mport')) = []"
    using run1 idle(1) pre w1 r1 by (intro exI[of _ "Failed MPORT_ERR_FATAL"] exI[of _ m1]) simp
  have c2: "\<exists>res mport'.
      do_actual_install env_ok ?J foo_meta = Some (res, mport') \<and>
      fst (create_package_row ?J foo_meta) \<noteq> MPORT_OK \<and>
      res \<noteq> Installed \<and> mport' = ?J"
    using run2 nok e2 by (intro exI[of _ "Failed MPORT_ERR_FATAL"] exI[of _ m2]) simp
  have c3: "\<exists>mport'.
      do_actual_install env_ok ?I foo_meta = Some (Installed, mport') \<and>
      txn (db mport') = None \<and>
      packages (live (db mport')) = [package_row_of foo_meta] \<and>
      depends (live (db mport')) = [depends_on ''foo'' ''bar''] \<and>
      length (assets (live (db mport'))) = 1"
    using run3 w3 r3 by (intro exI[of _ m3]) simp
  from c1 c2 c3 show ?thesis by (intro conjI)
qed

text \<open>
  Claim C1, as stated, fails: when the extraction of the first file fails, the code goes
  to \<open>ERROR\<close>, which issues no \<open>ROLLBACK\<close>, and the packages row and the depends row of
  the incoming package, written before \<open>BEGIN TRANSACTION\<close>, stay in a database that was
  empty before the install.
\<close>

theorem do_actual_install_leaves_package_row_counterexample:
  "map_option fst
     (do_actual_install (env_ok\<lparr> extract_ok := (\<lambda>_. False) \<rparr>)
        (instance_of no_tables foo_bundle) foo_meta) = Some (Failed MPORT_ERR_FATAL) \<and>
   map_option (map pkg \<circ> packages \<circ> durable \<circ> db \<circ> snd)
     (do_actual_install (env_ok\<lparr> extract_ok := (\<lambda>_. False) \<rparr>)
        (instance_of no_tables foo_bundle) foo_meta) = Some [''foo''] \<and>
   map_option (map depends_pkg \<circ> depends \<circ> durable \<circ> db \<circ> snd)
     (do_actual_install (env_ok\<lparr> extract_ok := (\<lambda>_. False) \<rparr>)
        (instance_of no_tables foo_bundle) foo_meta) = Some [''foo''] \<and>
   packages (durable (db (instance_of no_tables foo_bundle))) = []"
  by code_simp

section \<open>Updating a package (libmport/update_primative.c)\<close>

text \<open>
  \<open>mport_bundle_read_install_pkg\<close>: the three phases.  \<open>do_pre_install\<close> and the part of
  \<open>do_post_install\<close> before \<open>mark_complete\<close> work on the file system and on scripts;
  whether they succeed is an input.  \<open>mark_complete\<close> sets the status of the package to
  \<open>clean\<close>.
\<close>

datatype precheck =
  MPORT_PRECHECK_CONFLICTS | MPORT_PRECHECK_DEPENDS | MPORT_PRECHECK_UPGRADEABLE

definition MPORT_UNLOCKED :: int where
  "MPORT_UNLOCKED = 0"

definition MPORT_LOCKED :: int where
  "MPORT_LOCKED = 1"

text \<open>
  The calls of \<open>mport_update_primative\<close> into code that is not among the sources:
  whether \<open>mport_bundle_read_init\<close>, \<open>mport_bundle_read_prep_for_install\<close> (which
  attaches the stub database) and \<open>mport_bundle_read_finish\<close> succeed, the clock
  \<open>mport_get_time\<close>, and the result of \<open>mport_check_preconditions\<close>.
\<close>

record update_env =
  install :: install_env
  pre_install_ok :: "mportPackageMeta \<Rightarrow> bool"
  post_install_ok :: "mportPackageMeta \<Rightarrow> bool"
  bundle_read_init_ok :: bool
  bundle_read_prep_ok :: bool
  bundle_read_finish_ok :: bool
  mport_get_time :: int
  mport_check_preconditions :: "mportInstance \<Rightarrow> mportPackageMeta \<Rightarrow> precheck list \<Rightarrow> int"

definition mark_complete :: "mportInstance \<Rightarrow> mportPackageMeta \<Rightarrow> int \<times> mportInstance" where
  "mark_complete mport pkg' =
     (if \<not> sqlite_ok mport (Do (SQL_mark_complete (name pkg'))) then (MPORT_ERR_FATAL, mport)
      else (MPORT_OK,
            mport\<lparr> db := insert_live
                     (\<lambda>t. t\<lparr> packages :=
                               map (\<lambda>r. if pkg r = name pkg' then r\<lparr> status := ''clean'' \<rparr> else r)
                                   (packages t) \<rparr>)
                     (db mport) \<rparr>))"

definition do_post_install ::
  "update_env \<Rightarrow> mportInstance \<Rightarrow> mportPackageMeta \<Rightarrow> int \<times> mportInstance" where
  "do_post_install env mport pkg' =
     (if \<not> post_install_ok env pkg' then (err_code (install env), mport)
      else mark_complete mport pkg')"

definition mport_bundle_read_install_pkg ::
  "update_env \<Rightarrow> mportInstance \<Rightarrow> mportPackageMeta \<Rightarrow> (int \<times> mportInstance) option" where
  "mport_bundle_read_install_pkg env mport pkg' =
     (if \<not> pre_install_ok env pkg' \<and> err_code (install env) \<noteq> MPORT_OK
      then Some (err_code (install env), mport)
      else
        (case do_actual_install (install env) mport pkg' of
           None \<Rightarrow> None
         | Some (res, mport1) \<Rightarrow>
             (let r = (case res of Installed \<Rightarrow> MPORT_OK | Failed c \<Rightarrow> c)
              in if r \<noteq> MPORT_OK then Some (r, mport1)
                 else
                   (case do_post_install env mport1 pkg' of
                      (r2, mport2) \<Rightarrow>
                        if r2 \<noteq> MPORT_OK then Some (r2, mport2)
                        else Some (MPORT_OK, mport2)))))"

text \<open>
  Modelled from the spec: \<open>mport_bundle_read_update_pkg\<close> is not among the sources.  The
  specification describes the upgrade of a single package as the installer run ``on a
  mode that first deletes the old row'', and the deletion as the removal of the
  \<open>packages\<close>, \<open>depends\<close>, \<open>assets\<close>, \<open>categories\<close> and \<open>conflicts\<close> rows of the package.
\<close>

definition delete_rows :: "string \<Rightarrow> tables \<Rightarrow> tables" where
  "delete_rows n t =
     t\<lparr> packages := filter (\<lambda>r. pkg r \<noteq> n) (packages t),
        depends := filter (\<lambda>r. depends_pkg r \<noteq> n) (depends t),
        assets := filter (\<lambda>r. assets_pkg r \<noteq> n) (assets t),
        categories := filter (\<lambda>r. categories_pkg r \<noteq> n) (categories t),
        conflicts := filter (\<lambda>r. conflicts_pkg r \<noteq> n) (conflicts t) \<rparr>"

definition mport_bundle_read_update_pkg ::
  "update_env \<Rightarrow> mportInstance \<Rightarrow> mportPackageMeta \<Rightarrow> (int \<times> mportInstance) option" where
  "mport_bundle_read_update_pkg env mport pkg' =
     mport_bundle_read_install_pkg env
       (mport\<lparr> db := insert_live (delete_rows (name pkg')) (db mport) \<rparr>) pkg'"

text \<open>
  Modelled from the spec: \<open>mport_lock_islocked\<close> is not among the sources.  The
  specification gives \<open>locked\<close> as a boolean attribute of the package record.
\<close>

definition mport_lock_islocked :: "mportPackageMeta \<Rightarrow> int" where
  "mport_lock_islocked pkg' = (if locked pkg' \<noteq> 0 then MPORT_LOCKED else MPORT_UNLOCKED)"

definition set_prefix_to_installed ::
  "mportInstance \<Rightarrow> mportPackageMeta \<Rightarrow> int \<times> mportPackageMeta" where
  "set_prefix_to_installed mport pkg' =
     (if \<not> sqlite_ok mport (Prepare (SQL_select_prefix (name pkg')))
      then (MPORT_ERR_FATAL, pkg')
      else if \<not> sqlite_ok mport (Step (SQL_select_prefix (name pkg')))
      then (MPORT_ERR_FATAL, pkg')
      else
        (case filter (\<lambda>r. pkg r = name pkg') (packages (live (db mport))) of
           [] \<Rightarrow> (MPORT_ERR_FATAL, pkg')
         | r # _ \<Rightarrow>
             (MPORT_OK,
              if pkg_prefix r \<noteq> prefix pkg' then pkg'\<lparr> prefix := pkg_prefix r \<rparr> else pkg')))"

text \<open>
  The body of the loop of \<open>mport_update_primative\<close> for one package of the stub
  database.  Errors of the update are reported through the message callback and
  cleared, so the loop goes on.
\<close>

definition update_one ::
  "update_env \<Rightarrow> mportInstance \<Rightarrow> mportPackageMeta \<Rightarrow> mportInstance option" where
  "update_one env mport pkg0 =
     (let pkg1 = pkg0\<lparr> install_date := mport_get_time env \<rparr>;
          pkg2 = (case mport_pkgmeta_search_master mport (\<lambda>r. pkg r = name pkg1) of
                    QVec (already_installed # _) \<Rightarrow>
                      pkg1\<lparr> automatic := automatic already_installed,
                            locked := locked already_installed \<rparr>
                  | _ \<Rightarrow> pkg1)
      in if mport_lock_islocked pkg2 = MPORT_LOCKED then Some mport
         else
           (let flag = [MPORT_PRECHECK_CONFLICTS, MPORT_PRECHECK_DEPENDS] @
                       (if \<not> force mport then [MPORT_PRECHECK_UPGRADEABLE] else [])
            in if mport_check_preconditions env mport pkg2 flag \<noteq> MPORT_OK then Some mport
               else
                 (case set_prefix_to_installed mport pkg2 of
                    (r, pkg3) \<Rightarrow>
                      if r \<noteq> MPORT_OK then Some mport
                      else map_option snd (mport_bundle_read_update_pkg env mport pkg3))))"

fun update_loop ::
  "update_env \<Rightarrow> mportInstance \<Rightarrow> mportPackageMeta list \<Rightarrow> mportInstance option" where
  "update_loop env mport [] = Some mport"
| "update_loop env mport (pkg' # pkgs) =
     (case update_one env mport pkg' of
        None \<Rightarrow> None
      | Some mport1 \<Rightarrow> update_loop env mport1 pkgs)"

definition mport_update_primative ::
  "update_env \<Rightarrow> mportInstance \<Rightarrow> (int \<times> mportInstance) option" where
  "mport_update_primative env mport =
     (if \<not> bundle_read_init_ok env then Some (err_code (install env), mport)
      else if \<not> bundle_read_prep_ok env then Some (err_code (install env), mport)
      else
        (case mport_pkgmeta_read_stub mport of
           QVec pkgs \<Rightarrow>
             (case update_loop env mport pkgs of
                None \<Rightarrow> None
              | Some mport1 \<Rightarrow>
                  if \<not> bundle_read_finish_ok env then Some (err_code (install env), mport1)
                  else Some (MPORT_OK, mport1))
         | QOverflow \<Rightarrow> None
         | QNull \<Rightarrow> None
         | QError c \<Rightarrow> Some (err_code (install env), mport)))"

subsection \<open>The flags and the prefix of an updated package\<close>

lemma install_assets_sqlite_ok:
  "install_assets env pkg' es i cwd fl m = Some (b, m') \<Longrightarrow> sqlite_ok m' = sqlite_ok m"
proof (induction es arbitrary: i cwd fl m)
  case Nil
  then show ?case by simp
next
  case (Cons e es)
  from Cons.prems obtain sw where sw: "asset_switch env m pkg' e cwd fl = Some sw"
    by (cases "asset_switch env m pkg' e cwd fl") auto
  show ?case
  proof (cases sw)
    case None
    with Cons.prems sw show ?thesis by simp
  next
    case (Some cf)
    obtain cwd' fl' where cf: "cf = (cwd', fl')" by (cases cf)
    from Cons.prems sw Some cf obtain row where row: "asset_row m pkg' e cwd' fl' = Some row"
      by (cases "asset_row m pkg' e cwd' fl'") auto
    show ?thesis
    proof (cases "sqlite_ok m (Step (SQL_insert_asset (name pkg') i))")
      case False
      with Cons.prems sw Some cf row show ?thesis by simp
    next
      case True
      let ?m1 = "m\<lparr> db := insert_live (\<lambda>t. t\<lparr> assets := assets t @ [row] \<rparr>) (db m) \<rparr>"
      from Cons.prems sw Some cf row True
      have rec: "install_assets env pkg' es (Suc i) cwd' fl' ?m1 = Some (b, m')" by simp
      from Cons.IH[OF rec] show ?thesis by simp
    qed
  qed
qed

lemma do_actual_install_packages:
  assumes run: "do_actual_install env mport pkg' = Some (res, mport')"
  shows "sqlite_ok mport' = sqlite_ok mport \<and>
         (packages (live (db mport')) = packages (live (db mport)) \<or>
          packages (live (db mport')) = packages (live (db mport)) @ [package_row_of pkg'])"
  using run
proof (cases rule: do_actual_install_cases)
  case early
  then show ?thesis by simp
next
  case (rows m1 m4)
  note f1 = create_package_row_frame[OF rows(1)]
  from f1 rows show ?thesis by simp
next
  case (loop m1 m4 m5 b)
  note f1 = create_package_row_frame[OF loop(1)]
  note bt = begin_transaction_frame[of m4]
  note ia = install_assets_frame[OF loop(6)]
  note so = install_assets_sqlite_ok[OF loop(6)]
  have p5: "packages (live (db m5)) = packages (live (db mport)) @ [package_row_of pkg']"
    using ia bt f1 loop(3) by simp
  have s5: "sqlite_ok m5 = sqlite_ok mport" using so bt loop(5) by simp
  show ?thesis
  proof (cases b)
    case False
    with loop(8) p5 s5 show ?thesis by simp
  next
    case True
    with loop(7) have c: "commit m5 = (if res = Installed then MPORT_OK else MPORT_ERR_FATAL, mport')"
      by simp
    then have "live (db mport') = live (db m5) \<and> sqlite_ok mport' = sqlite_ok m5"
      by (auto simp: commit_def split: if_splits)
    with p5 s5 show ?thesis by simp
  qed
qed

lemma install_pkg_packages:
  assumes "mport_bundle_read_install_pkg env m pkg' = Some (r, m')"
  shows "sqlite_ok m' = sqlite_ok m \<and>
         (\<forall>x\<in>set (packages (live (db m'))).
            \<exists>y\<in>set (packages (live (db m)) @ [package_row_of pkg']).
              x = y \<or> x = y\<lparr> status := ''clean'' \<rparr>)"
proof (cases "\<not> pre_install_ok env pkg' \<and> err_code (install env) \<noteq> MPORT_OK")
  case True
  with assms show ?thesis by (auto simp: mport_bundle_read_install_pkg_def)
next
  case False
  with assms obtain res m1 where
    ai: "do_actual_install (install env) m pkg' = Some (res, m1)"
    by (cases "do_actual_install (install env) m pkg'")
       (auto simp: mport_bundle_read_install_pkg_def)
  note p1 = do_actual_install_packages[OF ai]
  have base: "\<forall>x\<in>set (packages (live (db m1))).
                \<exists>y\<in>set (packages (live (db m)) @ [package_row_of pkg']). x = y"
    using p1 by auto
  let ?r = "(case res of Installed \<Rightarrow> MPORT_OK | Failed c \<Rightarrow> c)"
  show ?thesis
  proof (cases "?r \<noteq> MPORT_OK")
    case True
    with assms False ai have "m' = m1"
      by (auto simp: mport_bundle_read_install_pkg_def Let_def)
    with p1 base show ?thesis by auto
  next
    case ok: False
    obtain r2 m2 where po: "do_post_install env m1 pkg' = (r2, m2)"
      by (cases "do_post_install env m1 pkg'")
    with assms False ai ok have m': "m' = m2"
      by (auto simp: mport_bundle_read_install_pkg_def Let_def split: if_splits)
    have "sqlite_ok m2 = sqlite_ok m1 \<and>
          (\<forall>x\<in>set (packages (live (db m2))).
             \<exists>y\<in>set (packages (live (db m1))). x = y \<or> x = y\<lparr> status := ''clean'' \<rparr>)"
      using po
      by (auto simp: do_post_install_def mark_complete_def insert_live_def split: if_splits)
    with m' p1 base show ?thesis by (metis (no_types, lifting))
  qed
qed

text \<open>
  The invariant of the loop for an installed row \<open>r0\<close>: every row of that name carries
  the automatic flag, the locked flag and the prefix of \<open>r0\<close>.  \<open>search_ok\<close>: SQLite
  answers the lookup \<open>pkg=%Q\<close> of the loop without an error.
\<close>

definition keeps_flags :: "packages_row \<Rightarrow> mportInstance \<Rightarrow> bool" where
  "keeps_flags r0 m =
     (\<forall>r\<in>set (packages (live (db m))).
        pkg r = pkg r0 \<longrightarrow>
          pkg_automatic r = pkg_automatic r0 \<and> pkg_locked r = pkg_locked r0 \<and>
          pkg_prefix r = pkg_prefix r0)"

definition search_ok :: "mportInstance \<Rightarrow> bool" where
  "search_ok m =
     (sqlite_ok m (Prepare SQL_count_where) \<and> sqlite_ok m (Step SQL_count_where) \<and>
      sqlite_ok m (Prepare SQL_select_where) \<and> sqlite_ok m (Step SQL_select_where))"

lemma search_master_result:
  assumes "search_ok m"
  shows "mport_pkgmeta_search_master m wh =
           (if filter wh (packages (live (db m))) = [] then QNull
            else QVec (map populate_meta_from_stmt (filter wh (packages (live (db m))))))"
  using assms
  by (simp add: search_ok_def mport_pkgmeta_search_master_def mport_pkgmeta_count_def Let_def
        populate_vec_from_stmt_def)

lemma update_one_keeps:
  assumes k: "keeps_flags r0 m" and s: "search_ok m" and u: "update_one env m pkg0 = Some m'"
  shows "keeps_flags r0 m' \<and> sqlite_ok m' = sqlite_ok m"
proof -
  let ?P = "packages (live (db m))"
  let ?wh = "\<lambda>r. pkg r = name pkg0"
  define pkg1 where "pkg1 = pkg0\<lparr> install_date := mport_get_time env \<rparr>"
  define pkg2 where "pkg2 =
    (case mport_pkgmeta_search_master m (\<lambda>r. pkg r = name pkg1) of
       QVec (already_installed # _) \<Rightarrow>
         pkg1\<lparr> automatic := automatic already_installed, locked := locked already_installed \<rparr>
     | _ \<Rightarrow> pkg1)"
  define flag where "flag = [MPORT_PRECHECK_CONFLICTS, MPORT_PRECHECK_DEPENDS] @
                       (if \<not> force m then [MPORT_PRECHECK_UPGRADEABLE] else [])"
  have n1: "name pkg1 = name pkg0" by (simp add: pkg1_def)
  have sr: "mport_pkgmeta_search_master m (\<lambda>r. pkg r = name pkg1) =
            (if filter ?wh ?P = [] then QNull
             else QVec (map populate_meta_from_stmt (filter ?wh ?P)))"
    using search_master_result[OF s, of ?wh] n1 by simp
  have n2: "name pkg2 = name pkg0"
    unfolding pkg2_def sr using n1 by (cases "filter ?wh ?P") auto
  have fl2: "automatic pkg2 = pkg_automatic r \<and> locked pkg2 = pkg_locked r"
    if "filter ?wh ?P = r # rs" for r rs
    unfolding pkg2_def sr using that by (simp add: populate_meta_from_stmt_def)
  obtain r3 pkg3 where sp: "set_prefix_to_installed m pkg2 = (r3, pkg3)"
    by (cases "set_prefix_to_installed m pkg2")
  have u': "(if mport_lock_islocked pkg2 = MPORT_LOCKED then Some m
             else if mport_check_preconditions env m pkg2 flag \<noteq> MPORT_OK then Some m
             else if r3 \<noteq> MPORT_OK then Some m
             else map_option snd (mport_bundle_read_update_pkg env m pkg3)) = Some m'"
    using u sp unfolding update_one_def Let_def pkg1_def[symmetric] pkg2_def[symmetric]
      flag_def[symmetric]
    by (auto split: if_splits)
  show ?thesis
  proof (cases "mport_lock_islocked pkg2 = MPORT_LOCKED \<or>
                mport_check_preconditions env m pkg2 flag \<noteq> MPORT_OK \<or> r3 \<noteq> MPORT_OK")
    case True
    with u' have "m' = m" by (auto split: if_splits)
    with k show ?thesis by simp
  next
    case False
    then have nl: "mport_lock_islocked pkg2 \<noteq> MPORT_LOCKED" and r3: "r3 = MPORT_OK" by simp_all
    from nl have l0: "locked pkg2 = 0"
      by (simp add: mport_lock_islocked_def MPORT_LOCKED_def MPORT_UNLOCKED_def split: if_splits)
    from sp r3 n2 obtain r rs where fr: "filter ?wh ?P = r # rs"
      and p3: "pkg3 = (if pkg_prefix r \<noteq> prefix pkg2 then pkg2\<lparr> prefix := pkg_prefix r \<rparr> else pkg2)"
      by (cases "filter ?wh ?P")
         (auto simp: set_prefix_to_installed_def MPORT_OK_def MPORT_ERR_FATAL_def
            split: if_splits)
    have "r \<in> set (filter ?wh ?P)" using fr by simp
    then have rin: "r \<in> set ?P" and rn: "pkg r = name pkg0" by simp_all
    have f3: "name pkg3 = name pkg0" "automatic pkg3 = pkg_automatic r"
      "prefix pkg3 = pkg_prefix r" "pkg_locked r = 0"
      using p3 n2 fl2[OF fr] l0 by auto
    let ?md = "m\<lparr> db := insert_live (delete_rows (name pkg3)) (db m) \<rparr>"
    from u' False obtain ret where
      ip: "mport_bundle_read_install_pkg env ?md pkg3 = Some (ret, m')"
      by (cases "mport_bundle_read_install_pkg env ?md pkg3")
         (auto simp: mport_bundle_read_update_pkg_def)
    note ipp = install_pkg_packages[OF ip]
    have so: "sqlite_ok m' = sqlite_ok m" using ipp by simp
    have "keeps_flags r0 m'"
      unfolding keeps_flags_def
    proof (intro ballI impI)
      fix x assume x: "x \<in> set (packages (live (db m')))" and xn: "pkg x = pkg r0"
      from ipp x obtain y where
        y: "y \<in> set (packages (live (db ?md)) @ [package_row_of pkg3])"
        and xy: "x = y \<or> x = y\<lparr> status := ''clean'' \<rparr>" by blast
      from xy xn have yn: "pkg y = pkg r0" by auto
      have "pkg_automatic y = pkg_automatic r0 \<and> pkg_locked y = pkg_locked r0 \<and>
            pkg_prefix y = pkg_prefix r0"
      proof (cases "y = package_row_of pkg3")
        case True
        then have "pkg y = name pkg0" using f3 by (simp add: package_row_of_def)
        with yn rn have "pkg r = pkg r0" by simp
        with k rin have "pkg_automatic r = pkg_automatic r0 \<and> pkg_locked r = pkg_locked r0 \<and>
                         pkg_prefix r = pkg_prefix r0"
          by (simp add: keeps_flags_def)
        with True f3 show ?thesis by (simp add: package_row_of_def)
      next
        case False
        with y have "y \<in> set ?P" by (auto simp: insert_live_def delete_rows_def)
        with k yn show ?thesis by (simp add: keeps_flags_def)
      qed
      with xy show "pkg_automatic x = pkg_automatic r0 \<and> pkg_locked x = pkg_locked r0 \<and>
                    pkg_prefix x = pkg_prefix r0" by auto
    qed
    with so show ?thesis by simp
  qed
qed

lemma update_loop_keeps:
  "keeps_flags r0 m \<Longrightarrow> search_ok m \<Longrightarrow> update_loop env m pkgs = Some m' \<Longrightarrow>
   keeps_flags r0 m'"
proof (induction pkgs arbitrary: m)
  case Nil
  then show ?case by simp
next
  case (Cons p pkgs)
  from Cons.prems(3) obtain m1 where u1: "update_one env m p = Some m1"
    and rest: "update_loop env m1 pkgs = Some m'"
    by (cases "update_one env m p") auto
  from update_one_keeps[OF Cons.prems(1,2) u1]
  have k1: "keeps_flags r0 m1" and s1: "search_ok m1"
    using Cons.prems(2) by (simp_all add: search_ok_def)
  from Cons.IH[OF k1 s1 rest] show ?case .
qed

definition update_env_ok :: update_env where
  "update_env_ok =
     \<lparr> install = env_ok, pre_install_ok = (\<lambda>_. True), post_install_ok = (\<lambda>_. True),
       bundle_read_init_ok = True, bundle_read_prep_ok = True, bundle_read_finish_ok = True,
       mport_get_time = 1000, mport_check_preconditions = (\<lambda>_ _ _. 0) \<rparr>"

definition foo_installed :: packages_row where
  "foo_installed = (installed ''foo'' ''1.0'' 1 0)\<lparr> pkg_prefix := ''/opt'' \<rparr>"

text \<open>
  Claim C4, as amended.  Let SQLite answer the lookup \<open>pkg=%Q\<close> of the installed row
  without an error, and let package names be unique in the live database.  Then for a
  package that is installed when \<open>mport_update_primative\<close> runs, every row of its name in
  the live database afterwards has the automatic flag, the locked flag and the prefix of
  the row before the run, whatever the stub database of the bundle carries.
\<close>

theorem mport_update_primative_preserves_flags:
  assumes run: "mport_update_primative env mport = Some (ret, mport')"
    and s: "search_ok mport"
    and r0: "r0 \<in> set (packages (live (db mport)))"
    and d: "distinct (map pkg (packages (live (db mport))))"
  shows "\<forall>r\<in>set (packages (live (db mport'))).
           pkg r = pkg r0 \<longrightarrow>
             pkg_automatic r = pkg_automatic r0 \<and> pkg_locked r = pkg_locked r0 \<and>
             pkg_prefix r = pkg_prefix r0"
proof -
  have k0: "keeps_flags r0 mport"
    unfolding keeps_flags_def
  proof (intro ballI impI)
    fix r assume "r \<in> set (packages (live (db mport)))" and "pkg r = pkg r0"
    with r0 d have "r = r0" by (meson distinct_map inj_onD)
    then show "pkg_automatic r = pkg_automatic r0 \<and> pkg_locked r = pkg_locked r0 \<and>
               pkg_prefix r = pkg_prefix r0" by simp
  qed
  show ?thesis
  proof (cases "mport' = mport")
    case True
    with k0 show ?thesis by (simp add: keeps_flags_def)
  next
    case False
    with run obtain pkgs where "update_loop env mport pkgs = Some mport'"
      by (auto simp: mport_update_primative_def
            split: if_splits pkg_vec_result.splits option.splits)
    from update_loop_keeps[OF k0 s this] show ?thesis by (simp add: keeps_flags_def)
  qed
qed

theorem mport_update_primative_preserves_flags_witness:
  "\<exists>ret mport'.
     mport_update_primative update_env_ok
       (instance_of (no_tables\<lparr> packages := [foo_installed] \<rparr>) foo_bundle) = Some (ret, mport') \<and>
     search_ok (instance_of (no_tables\<lparr> packages := [foo_installed] \<rparr>) foo_bundle) \<and>
     foo_installed \<in> set [foo_installed] \<and> distinct (map pkg [foo_installed]) \<and>
     map pkg_version (packages (live (db mport'))) = [''1.1''] \<and>
     (\<forall>r\<in>set (packages (live (db mport'))).
        pkg r = ''foo'' \<longrightarrow>
          pkg_automatic r = 1 \<and> pkg_locked r = 0 \<and> pkg_prefix r = ''/opt'')"
proof -
  let ?I = "instance_of (no_tables\<lparr> packages := [foo_installed] \<rparr>) foo_bundle"
  have ev: "map_option (map pkg_version \<circ> packages \<circ> live \<circ> db \<circ> snd)
              (mport_update_primative update_env_ok ?I) = Some [''1.1'']"
    by code_simp
  then obtain ret mport' where
    run: "mport_update_primative update_env_ok ?I = Some (ret, mport')"
    by (cases "mport_update_primative update_env_ok ?I") auto
  with ev have v: "map pkg_version (packages (live (db mport'))) = [''1.1'']" by simp
  have s: "search_ok ?I" by (simp add: search_ok_def instance_of_def)
  have r0: "foo_installed \<in> set (packages (live (db ?I)))"
    by (simp add: instance_of_def no_tables_def)
  have d: "distinct (map pkg (packages (live (db ?I))))"
    by (simp add: instance_of_def no_tables_def)
  have f: "pkg foo_installed = ''foo''" "pkg_automatic foo_installed = 1"
    "pkg_locked foo_installed = 0" "pkg_prefix foo_installed = ''/opt''"
    by (simp_all add: foo_installed_def installed_def)
  from mport_update_primative_preserves_flags[OF run s r0 d] f run s v
  show ?thesis by auto
qed

text \<open>
  The live database of an instance in which SQLite refuses to prepare the statement
  \<open>SELECT count(*) FROM packages WHERE ...\<close> and answers every other statement.
\<close>

definition count_fails :: "mportInstance \<Rightarrow> mportInstance" where
  "count_fails m = m\<lparr> sqlite_ok := (\<lambda>op. op \<noteq> Prepare SQL_count_where) \<rparr>"

text \<open>
  Claim C4, as stated, fails: \<open>mport_pkgmeta_count\<close> returns 0 when its statement cannot
  be prepared, \<open>mport_pkgmeta_search_master\<close> then reports no installed package with
  \<open>MPORT_OK\<close>, and the loop copies neither flag and goes on.  The installed \<open>foo\<close>,
  automatic, is updated to version 1.1 with the automatic flag 0 of the bundle, and a
  locked \<open>foo\<close> is updated and its lock is lost; the call returns \<open>MPORT_OK\<close>.  The prefix,
  which \<open>set_prefix_to_installed\<close> reads with a statement of its own, is kept.
\<close>

theorem mport_update_primative_loses_flags_counterexample:
  "map_option fst
     (mport_update_primative update_env_ok
        (count_fails (instance_of (no_tables\<lparr> packages := [foo_installed] \<rparr>) foo_bundle)))
     = Some MPORT_OK \<and>
   map pkg_automatic [foo_installed] = [1] \<and>
   map_option (map pkg_automatic \<circ> packages \<circ> live \<circ> db \<circ> snd)
     (mport_update_primative update_env_ok
        (count_fails (instance_of (no_tables\<lparr> packages := [foo_installed] \<rparr>) foo_bundle)))
     = Some [0] \<and>
   map_option (map pkg_version \<circ> packages \<circ> live \<circ> db \<circ> snd)
     (mport_update_primative update_env_ok
        (count_fails (instance_of (no_tables\<lparr> packages := [foo_installed] \<rparr>) foo_bundle)))
     = Some [''1.1''] \<and>
   map_option (map pkg_locked \<circ> packages \<circ> live \<circ> db \<circ> snd)
     (mport_update_primative update_env_ok
        (count_fails (instance_of
           (no_tables\<lparr> packages := [foo_installed\<lparr> pkg_locked := 1 \<rparr>] \<rparr>) foo_bundle)))
     = Some [0] \<and>
   map_option (map pkg_version \<circ> packages \<circ> live \<circ> db \<circ> snd)
     (mport_update_primative update_env_ok
        (count_fails (instance_of
           (no_tables\<lparr> packages := [foo_installed\<lparr> pkg_locked := 1 \<rparr>] \<rparr>) foo_bundle)))
     = Some [''1.1'']"
  by code_simp

section \<open>Autoremove (\<open>mport_autoremove\<close>)\<close>

text \<open>
  Modelled from the spec: \<open>mport_delete_primative\<close> is not among the sources.  Called
  with \<open>force\<close>, it skips the checks for locks and for packages that depend on the
  package; the specification has it remove the \<open>packages\<close>, \<open>depends\<close>, \<open>assets\<close>,
  \<open>categories\<close> and \<open>conflicts\<close> rows of the package.  Whether the hooks and the removal
  of the files succeed is an input.
\<close>

definition mport_delete_primative_force ::
  "(mportPackageMeta \<Rightarrow> bool) \<Rightarrow> mportInstance \<Rightarrow> mportPackageMeta \<Rightarrow> int \<times> mportInstance" where
  "mport_delete_primative_force delete_ok mport pack =
     (if \<not> delete_ok pack then (MPORT_ERR_FATAL, mport)
      else (MPORT_OK, mport\<lparr> db := insert_live (delete_rows (name pack)) (db mport) \<rparr>))"

text \<open>
  The outcome of \<open>mport_autoremove\<close>, with the instance as it is then: a return code; a
  read through a pointer that does not point to a vector; or a loop that does not end.
\<close>

datatype autoremove_outcome =
    Returns int mportInstance
  | Undefined_read mportInstance
  | Loops_forever mportInstance

text \<open>The second inner loop: \<open>mport_delete_primative\<close> on every entry of \<open>depends\<close>.\<close>

fun delete_all ::
  "(mportPackageMeta \<Rightarrow> bool) \<Rightarrow> mportInstance \<Rightarrow> mportPackageMeta list \<Rightarrow> mportInstance" where
  "delete_all delete_ok mport [] = mport"
| "delete_all delete_ok mport (d # ds) =
     delete_all delete_ok (snd (mport_delete_primative_force delete_ok mport d)) ds"

text \<open>
  The outer loop over \<open>packs\<close>.  \<open>start\<close> is the value of the local variable \<open>start\<close>,
  which is never assigned: \<open>None\<close> when it does not point to a NULL-terminated vector,
  otherwise the vector it points to.  After \<open>mport_pkgmeta_get_updepends\<close> has set
  \<open>depends\<close>, the code overwrites it with \<open>start\<close>.  When the query fails, \<open>continue\<close>
  repeats the iteration for the same package.
\<close>

fun autoremove_loop ::
  "(mportPackageMeta \<Rightarrow> bool) \<Rightarrow> mportPackageMeta list option \<Rightarrow> mportInstance
     \<Rightarrow> mportPackageMeta list \<Rightarrow> autoremove_outcome" where
  "autoremove_loop delete_ok start mport [] = Returns MPORT_OK mport"
| "autoremove_loop delete_ok start mport (p # packs) =
     (if automatic p = MPORT_EXPLICIT then autoremove_loop delete_ok start mport packs
      else
        (case mport_pkgmeta_get_updepends mport p of
           QError c \<Rightarrow> Loops_forever mport
         | QOverflow \<Rightarrow> Undefined_read mport
         | _ \<Rightarrow>
             (case start of
                None \<Rightarrow> Undefined_read mport
              | Some depends' \<Rightarrow>
                  if list_ex (\<lambda>d. automatic d = MPORT_EXPLICIT) depends'
                  then autoremove_loop delete_ok start mport packs
                  else autoremove_loop delete_ok start
                         (delete_all delete_ok mport depends') packs)))"

definition mport_autoremove ::
  "(mportPackageMeta \<Rightarrow> bool) \<Rightarrow> mportPackageMeta list option \<Rightarrow> mportInstance
     \<Rightarrow> autoremove_outcome" where
  "mport_autoremove delete_ok start mport =
     (case mport_pkgmeta_list mport of
        QError c \<Rightarrow> Returns c mport
      | QOverflow \<Rightarrow> Undefined_read mport
      | QNull \<Rightarrow> Returns MPORT_OK mport
      | QVec packs \<Rightarrow> autoremove_loop delete_ok start mport packs)"

text \<open>The names of the installed packages after an outcome.\<close>

fun installed_after :: "autoremove_outcome \<Rightarrow> string list" where
  "installed_after (Returns c m) = map pkg (packages (live (db m)))"
| "installed_after (Undefined_read m) = map pkg (packages (live (db m)))"
| "installed_after (Loops_forever m) = map pkg (packages (live (db m)))"

fun is_defined :: "autoremove_outcome \<Rightarrow> bool" where
  "is_defined (Returns c m) = True"
| "is_defined (Undefined_read m) = False"
| "is_defined (Loops_forever m) = False"

text \<open>
  Claim C5.  \<open>mport_autoremove\<close> is to delete exactly the automatic packages that no
  explicit package requires.  Take \<open>libfoo\<close>, automatic, the only installed package:
  nothing requires it.  The code reads \<open>depends\<close> through the unassigned \<open>start\<close>; when
  that is not a vector the read is undefined, and when it is an empty vector the run
  returns with \<open>libfoo\<close> still installed.  The package in turn is never passed to
  \<open>mport_delete_primative\<close>: what is deleted is the entries of \<open>depends\<close>, so that with
  \<open>app\<close> (automatic, requiring \<open>libfoo\<close>) in the vector, \<open>app\<close> is deleted in the turn of
  each package and \<open>libfoo\<close> stays.
\<close>

theorem mport_autoremove_keeps_orphan:
  "is_defined (mport_autoremove (\<lambda>_. True) None
     (instance_of (no_tables\<lparr> packages := [installed ''libfoo'' ''1.0'' 1 0] \<rparr>) no_tables)) = False \<and>
   installed_after (mport_autoremove (\<lambda>_. True) None
     (instance_of (no_tables\<lparr> packages := [installed ''libfoo'' ''1.0'' 1 0] \<rparr>) no_tables)) = [''libfoo''] \<and>
   installed_after (mport_autoremove (\<lambda>_. True) (Some [])
     (instance_of (no_tables\<lparr> packages := [installed ''libfoo'' ''1.0'' 1 0] \<rparr>) no_tables)) = [''libfoo''] \<and>
   installed_after (mport_autoremove (\<lambda>_. True)
     (Some [populate_meta_from_stmt (installed ''app'' ''2.0'' 1 0)])
     (instance_of (no_tables\<lparr> packages := [installed ''app'' ''2.0'' 1 0,
                                                installed ''libfoo'' ''1.0'' 1 0],
                                  depends := [depends_on ''app'' ''libfoo''] \<rparr>) no_tables)) = [''libfoo'']"
  by code_simp

section \<open>The upgrade planner (\<open>mport_upgrade\<close>, \<open>mport_update_down\<close>)\<close>

text \<open>
  The calls that change the installation, in the order in which a run makes them:
  \<open>mport_update\<close> with its return code, \<open>mport_delete_primative\<close>, and
  \<open>mport_install_single\<close> with the \<open>automatic\<close> flag it is given.
\<close>

datatype call = Update string int | Delete string | Install string int

text \<open>
  The functions of the library that the planner calls and that are inputs here:
  \<open>mport_update\<close> downloads a bundle and runs \<open>mport_update_primative\<close> on it, and
  the index and the front end are outside the sources.  Each takes the instance;
  those that change it return the new one with their code.
  \<open>mport_index_lookup_pkgname\<close> gives its code and its vector (\<open>None\<close> for NULL) of
  the \<open>pkgname\<close> fields of the entries.  \<open>ohash_interval\<close> is the hash function of the
  \<open>ohash\<close> tables, which belongs to the C library.
\<close>

record upgrade_env =
  mport_update :: "mportInstance \<Rightarrow> string \<Rightarrow> int \<times> mportInstance"
  mport_index_check :: "mportInstance \<Rightarrow> mportPackageMeta \<Rightarrow> int"
  mport_index_lookup_pkgname :: "mportInstance \<Rightarrow> string \<Rightarrow> int \<times> string list option"
  mport_delete_primative :: "mportInstance \<Rightarrow> mportPackageMeta \<Rightarrow> int \<times> mportInstance"
  mport_install_single :: "mportInstance \<Rightarrow> string \<Rightarrow> int \<Rightarrow> int \<times> mportInstance"
  confirm_cb :: "string \<Rightarrow> string \<Rightarrow> string \<Rightarrow> int \<Rightarrow> int"
  ohash_interval :: "string \<Rightarrow> nat"

text \<open>
  The table \<open>h\<close> stores pointers to names, not copies.  A name lies in the vector
  \<open>packs_orig\<close> of \<open>mport_upgrade\<close>, in an entry of the index, or in the vector that one
  call of \<open>mport_pkgmeta_get_downdepends\<close> returned; the vectors of down-depends are
  numbered in the order of the calls.
\<close>

datatype block = Packs_orig | Index_entries | Depends_vec nat

text \<open>
  The state of a run: the instance; the entries of the table \<open>h\<close> of processed packages,
  each a key with the block that its pointer points into, in the order of insertion; the
  entries of the table \<open>index_cache\<close>, each the name it was inserted for with the \<open>result\<close>
  field of the \<open>index_check_cache_t\<close>; the vectors that \<open>mport_pkgmeta_vec_free\<close> has
  freed; the number of vectors of down-depends allocated so far; and the calls made so
  far.
\<close>

record upgrade_state =
  inst :: mportInstance
  h_entries :: "(string \<times> block) list"
  index_cache :: "(string \<times> int) list"
  freed :: "block list"
  next_vec :: nat
  calls :: "call list"

text \<open>The keys of the table \<open>h\<close>: the processed set.\<close>

definition h_tab :: "upgrade_state \<Rightarrow> string list" where
  "h_tab st = map fst (h_entries st)"

text \<open>
  \<open>ohash_qlookup\<close> followed by \<open>ohash_find\<close> on the table \<open>h\<close>, whose keys are the stored
  pointers themselves (\<open>key_offset\<close> 0).  The probe compares the key with the stored
  string in the slots whose stored hash value is that of the key.  When the string of
  such a slot lies in a freed vector the comparison reads freed memory, and the result
  is \<open>None\<close>; a slot of equal hash value is taken to be reached by the probe.  Otherwise
  the result is whether the key is in the table.
\<close>

definition ohash_find ::
  "(string \<Rightarrow> nat) \<Rightarrow> block list \<Rightarrow> (string \<times> block) list \<Rightarrow> string \<Rightarrow> bool option" where
  "ohash_find hv fr t k =
     (if list_ex (\<lambda>e. hv (fst e) = hv k \<and> snd e \<in> set fr) t then None
      else Some (k \<in> set (map fst t)))"

text \<open>
  \<open>ohash_qlookup\<close> followed by \<open>ohash_insert\<close> of a pointer into block \<open>b\<close>: the slot of
  the key, if the table has it, takes the new pointer; otherwise the entry is new.
\<close>

definition ohash_insert ::
  "(string \<Rightarrow> nat) \<Rightarrow> block list \<Rightarrow> (string \<times> block) list \<Rightarrow> string \<Rightarrow> block
     \<Rightarrow> (string \<times> block) list option" where
  "ohash_insert hv fr t k b =
     (case ohash_find hv fr t k of
        None \<Rightarrow> None
      | Some True \<Rightarrow> Some (map (\<lambda>e. if fst e = k then (k, b) else e) t)
      | Some False \<Rightarrow> Some (t @ [(k, b)]))"

text \<open>
  The table \<open>index_cache\<close> is created with \<open>key_offset\<close> 0 as well, and its entries are
  \<open>index_check_cache_t\<close> structures: the key that a probe compares with a package name
  is the memory of the structure read as a string, that is the bytes of \<open>int result\<close>
  (four of them, the least significant first, as on amd64) and of \<open>bool cached\<close> up to
  the first zero byte; the padding that \<open>ecalloc\<close> has cleared ends it.  A probe finds
  the first entry of equal hash value whose key is the name.
\<close>

definition struct_bytes :: "int \<Rightarrow> char list" where
  "struct_bytes r =
     map (\<lambda>i. char_of (r div 256 ^ i)) [0, 1, 2, 3] @ [CHR 0x01, NUL, NUL, NUL]"

definition cache_entry_key :: "int \<Rightarrow> string" where
  "cache_entry_key r = takeWhile (\<lambda>c. c \<noteq> NUL) (struct_bytes r)"

definition cache_find :: "(string \<Rightarrow> nat) \<Rightarrow> (string \<times> int) list \<Rightarrow> string \<Rightarrow> int option" where
  "cache_find hv c k =
     map_option snd (find (\<lambda>e. hv (fst e) = hv k \<and> cache_entry_key (snd e) = k) c)"

text \<open>
  The block that precedes every use of \<open>match\<close>: the \<open>result\<close> of the entry that the probe
  of \<open>index_cache\<close> finds for the name, or else \<open>mport_index_check\<close>, whose result is
  inserted for the name.
\<close>

definition cached_index_check ::
  "upgrade_env \<Rightarrow> mportPackageMeta \<Rightarrow> upgrade_state \<Rightarrow> int \<times> upgrade_state" where
  "cached_index_check env pack st =
     (case cache_find (ohash_interval env) (index_cache st) (name pack) of
        Some cached \<Rightarrow> (cached, st)
      | None \<Rightarrow>
          (let match = mport_index_check env (inst st) pack
           in (match, st\<lparr> index_cache := index_cache st @ [(name pack, match)] \<rparr>)))"

text \<open>\<open>mport_update(mport, name)\<close>, with its code.\<close>

definition call_mport_update ::
  "upgrade_env \<Rightarrow> string \<Rightarrow> upgrade_state \<Rightarrow> int \<times> upgrade_state" where
  "call_mport_update env n st =
     (case mport_update env (inst st) n of
        (r, m) \<Rightarrow> (r, st\<lparr> inst := m, calls := calls st @ [Update n r] \<rparr>))"

text \<open>
  \<open>mport_update\<close> as it is called for a package without down-depends and for a
  dependency in the loop: a non-zero code prints a message; zero counts the package,
  looks its name up in \<open>h\<close> and inserts the pointer \<open>n\<close>, which lies in block \<open>b\<close>.
\<close>

definition update_and_insert ::
  "upgrade_env \<Rightarrow> string \<Rightarrow> block \<Rightarrow> upgrade_state \<Rightarrow> (int \<times> upgrade_state) option" where
  "update_and_insert env n b st =
     (case call_mport_update env n st of
        (r, st1) \<Rightarrow>
          if r \<noteq> 0 then Some (0, st1)
          else
            (case ohash_insert (ohash_interval env) (freed st1) (h_entries st1) n b of
               None \<Rightarrow> None
             | Some t \<Rightarrow> Some (1, st1\<lparr> h_entries := t \<rparr>)))"

text \<open>
  \<open>mport_update\<close> as it is called after the loop: on success the pointer is inserted only
  if \<open>h\<close> does not have the name.
\<close>

definition update_and_insert_new ::
  "upgrade_env \<Rightarrow> string \<Rightarrow> block \<Rightarrow> upgrade_state \<Rightarrow> (int \<times> upgrade_state) option" where
  "update_and_insert_new env n b st =
     (case call_mport_update env n st of
        (r, st1) \<Rightarrow>
          if r \<noteq> 0 then Some (0, st1)
          else
            (case ohash_find (ohash_interval env) (freed st1) (h_entries st1) n of
               None \<Rightarrow> None
             | Some True \<Rightarrow> Some (1, st1)
             | Some False \<Rightarrow> Some (1, st1\<lparr> h_entries := h_entries st1 @ [(n, b)] \<rparr>)))"

text \<open>\<open>mport_pkgmeta_vec_free(depends_orig)\<close> frees the vector with the names in it.\<close>

definition vec_free :: "block \<Rightarrow> upgrade_state \<Rightarrow> upgrade_state" where
  "vec_free v st = st\<lparr> freed := v # freed st \<rparr>"

text \<open>
  \<open>mport_update_down\<close>, and the loop over \<open>depends\<close> in it.  \<open>blk\<close> is the block that
  \<open>pack\<close> points into, \<open>v\<close> the vector of the loop.  The recursion follows the rows of the
  database, which may form a cycle: the first argument bounds its depth, and \<open>None\<close> is a
  run that exceeds it, that writes a vector past its end, or that reads freed memory.
\<close>

fun mport_update_down ::
  "nat \<Rightarrow> upgrade_env \<Rightarrow> mportPackageMeta \<Rightarrow> block \<Rightarrow> upgrade_state
     \<Rightarrow> (int \<times> upgrade_state) option"
and update_depends ::
  "nat \<Rightarrow> upgrade_env \<Rightarrow> mportPackageMeta list \<Rightarrow> block \<Rightarrow> int \<Rightarrow> upgrade_state
     \<Rightarrow> (int \<times> upgrade_state) option" where
  "mport_update_down 0 env pack blk st = None"
| "mport_update_down (Suc n) env pack blk st =
     (case mport_pkgmeta_get_downdepends (inst st) pack of
        QError c \<Rightarrow> Some (0, st)
      | QOverflow \<Rightarrow> None
      | QNull \<Rightarrow>
          (case ohash_find (ohash_interval env) (freed st) (h_entries st) (name pack) of
             None \<Rightarrow> None
           | Some True \<Rightarrow> Some (0, st)
           | Some False \<Rightarrow>
               (case cached_index_check env pack st of
                  (match, st1) \<Rightarrow>
                    if match \<noteq> 0 then update_and_insert env (name pack) blk st1
                    else Some (0, st1)))
      | QVec depends' \<Rightarrow>
          (case update_depends n env depends' (Depends_vec (next_vec st)) 0
                  (st\<lparr> next_vec := Suc (next_vec st) \<rparr>) of
             None \<Rightarrow> None
           | Some (ret, st1) \<Rightarrow>
               (case cached_index_check env pack st1 of
                  (match, st2) \<Rightarrow>
                    if match \<noteq> 0 then
                      (case update_and_insert_new env (name pack) blk st2 of
                         None \<Rightarrow> None
                       | Some (r, st3) \<Rightarrow>
                           Some (ret + r, vec_free (Depends_vec (next_vec st)) st3))
                    else Some (ret, vec_free (Depends_vec (next_vec st)) st2))))"
| "update_depends n env [] v ret st = Some (ret, st)"
| "update_depends n env (d # ds) v ret st =
     (case ohash_find (ohash_interval env) (freed st) (h_entries st) (name d) of
        None \<Rightarrow> None
      | Some True \<Rightarrow> update_depends n env ds v ret st
      | Some False \<Rightarrow>
          (case mport_update_down n env d v st of
             None \<Rightarrow> None
           | Some (r1, st1) \<Rightarrow>
               (case cached_index_check env d st1 of
                  (match, st2) \<Rightarrow>
                    if match \<noteq> 0 then
                      (case update_and_insert env (name d) v st2 of
                         None \<Rightarrow> None
                       | Some (r, st3) \<Rightarrow> update_depends n env ds v (ret + r1 + r) st3)
                    else update_depends n env ds v (ret + r1) st2)))"

text \<open>The question put to \<open>confirm_cb\<close> in the second loop of \<open>mport_upgrade\<close>.\<close>

definition replaced_msg :: "string \<Rightarrow> string \<Rightarrow> string" where
  "replaced_msg n pkgname =
     ''The package you have installed '' @ n @ '' appears to have been replaced by '' @
     pkgname @ ''. Do you want to update?''"

text \<open>
  The second loop of \<open>mport_upgrade\<close> (``update packages that haven't moved already''),
  from the state that the first loop, over the moved and expired packages, leaves.  The
  packages lie in \<open>packs_orig\<close>, which is freed after the loop.  The result is the return
  code with the counters \<open>updated\<close> and \<open>total\<close>.  The earlier revision of the function has
  the same loop without \<open>index_cache\<close> and without the insertion of the new name into
  \<open>h\<close>.
\<close>

fun upgrade_loop ::
  "nat \<Rightarrow> upgrade_env \<Rightarrow> mportPackageMeta list \<Rightarrow> int \<Rightarrow> int \<Rightarrow> upgrade_state
     \<Rightarrow> (int \<times> int \<times> int \<times> upgrade_state) option" where
  "upgrade_loop fuel env [] updated total' st = Some (MPORT_OK, updated, total', st)"
| "upgrade_loop fuel env (p # packs) updated total' st =
     (case ohash_find (ohash_interval env) (freed st) (h_entries st) (name p) of
        None \<Rightarrow> None
      | Some True \<Rightarrow> upgrade_loop fuel env packs updated (total' + 1) st
      | Some False \<Rightarrow>
          (case cached_index_check env p st of
             (match, st1) \<Rightarrow>
               if match = 1 then
                 (case mport_update_down fuel env p Packs_orig st1 of
                    None \<Rightarrow> None
                  | Some (r, st2) \<Rightarrow> upgrade_loop fuel env packs (updated + r) (total' + 1) st2)
               else if match = 2 then
                 (case mport_index_lookup_pkgname env (inst st1) (origin p) of
                    (c, ieUpdateMe) \<Rightarrow>
                      if c \<noteq> MPORT_OK then Some (0, updated, total', st1)
                      else
                        (case ieUpdateMe of
                           None \<Rightarrow> upgrade_loop fuel env packs updated total' st1
                         | Some [] \<Rightarrow> upgrade_loop fuel env packs updated total' st1
                         | Some (pkgname # rest) \<Rightarrow>
                             if confirm_cb env (replaced_msg (name p) pkgname)
                                  ''Update'' (''Don'' @ [CHR 0x27] @ ''t Update'') 0 \<noteq> MPORT_OK
                             then
                               (case mport_delete_primative env (inst st1) p of
                                  (c1, m1) \<Rightarrow>
                                    (case mport_install_single env m1 pkgname (automatic p) of
                                       (c2, m2) \<Rightarrow>
                                         (case ohash_insert (ohash_interval env) (freed st1)
                                                 (h_entries st1) pkgname Index_entries of
                                            None \<Rightarrow> None
                                          | Some t \<Rightarrow>
                                              upgrade_loop fuel env packs (updated + 1)
                                                (total' + 1)
                                                (st1\<lparr> inst := m2,
                                                      calls := calls st1 @
                                                        [Delete (name p),
                                                         Install pkgname (automatic p)],
                                                      h_entries := t \<rparr>))))
                             else upgrade_loop fuel env packs updated (total' + 1) st1))
               else upgrade_loop fuel env packs updated (total' + 1) st1))"

subsection \<open>The rename-reconciliation pass\<close>

text \<open>A hash function that tells the names of the examples apart, by their first byte.\<close>

definition example_hash :: "string \<Rightarrow> nat" where
  "example_hash k = (case k of [] \<Rightarrow> 0 | c # cs \<Rightarrow> of_char c)"

text \<open>
  One installed package, \<open>oldname\<close>, whose index check gives 2 (the origin matches
  under another name) and whose origin the index lists as \<open>newname\<close>; the front end
  answers every question with the code given.
\<close>

definition rename_env :: "int \<Rightarrow> upgrade_env" where
  "rename_env answer =
     \<lparr> mport_update = (\<lambda>m n. (0, m)),
       mport_index_check = (\<lambda>m p. 2),
       mport_index_lookup_pkgname = (\<lambda>m orig. (MPORT_OK, Some [''newname''])),
       mport_delete_primative = (\<lambda>m p. (MPORT_OK, m)),
       mport_install_single = (\<lambda>m n a. (MPORT_OK, m)),
       confirm_cb = (\<lambda>msg yes no def. answer),
       ohash_interval = example_hash \<rparr>"

definition fresh_run :: "tables \<Rightarrow> upgrade_state" where
  "fresh_run t =
     \<lparr> inst = instance_of t no_tables, h_entries = [], index_cache = [], freed = [],
       next_vec = 0, calls = [] \<rparr>"

definition oldname_tables :: tables where
  "oldname_tables = no_tables\<lparr> packages := [installed ''oldname'' ''1.0'' 0 0] \<rparr>"

text \<open>
  Claim C6.  The pass is to delete the old package and install its replacement exactly
  when the confirmation callback returns \<open>MPORT_OK\<close>.  The code tests
  \<open>confirm_cb(...) != MPORT_OK\<close>: when the callback returns \<open>MPORT_OK\<close> the run makes no
  call at all and counts no update, and when it returns -1 (the answer ``no'' of
  \<open>mport_default_confirm_cb\<close>) the run deletes \<open>oldname\<close>, installs \<open>newname\<close> and marks
  \<open>newname\<close> as processed.
\<close>

theorem upgrade_rename_on_refusal:
  "map_option (calls \<circ> snd \<circ> snd \<circ> snd)
     (upgrade_loop 1 (rename_env MPORT_OK)
        (map populate_meta_from_stmt (packages oldname_tables)) 0 0 (fresh_run oldname_tables))
     = Some [] \<and>
   map_option (fst \<circ> snd)
     (upgrade_loop 1 (rename_env MPORT_OK)
        (map populate_meta_from_stmt (packages oldname_tables)) 0 0 (fresh_run oldname_tables))
     = Some 0 \<and>
   map_option (calls \<circ> snd \<circ> snd \<circ> snd)
     (upgrade_loop 1 (rename_env (- 1))
        (map populate_meta_from_stmt (packages oldname_tables)) 0 0 (fresh_run oldname_tables))
     = Some [Delete ''oldname'', Install ''newname'' MPORT_EXPLICIT] \<and>
   map_option (h_tab \<circ> snd \<circ> snd \<circ> snd)
     (upgrade_loop 1 (rename_env (- 1))
        (map populate_meta_from_stmt (packages oldname_tables)) 0 0 (fresh_run oldname_tables))
     = Some [''newname'']"
  by code_simp

subsection \<open>The order of the upgrades\<close>


definition ab_env :: "int \<Rightarrow> upgrade_env" where
  "ab_env code_b =
     \<lparr> mport_update = (\<lambda>m n. (if n = ''b'' then code_b else 0, m)),
       mport_index_check = (\<lambda>m p. 1),
       mport_index_lookup_pkgname = (\<lambda>m orig. (MPORT_OK, None)),
       mport_delete_primative = (\<lambda>m p. (MPORT_OK, m)),
       mport_install_single = (\<lambda>m n a. (MPORT_OK, m)),
       confirm_cb = (\<lambda>msg yes no def. MPORT_OK),
       ohash_interval = example_hash \<rparr>"

definition meta_a :: mportPackageMeta where
  "meta_a = populate_meta_from_stmt (installed ''a'' ''1.0'' 0 0)"





text \<open>
  The packages that a list of calls has passed to \<open>mport_update\<close>, and the packages for
  which \<open>index_cache\<close> records an index check with result 0: nothing to update.
\<close>

fun update_name :: "call \<Rightarrow> string list" where
  "update_name (Update q r) = [q]"
| "update_name (Delete q) = []"
| "update_name (Install q a) = []"

definition updated :: "call list \<Rightarrow> string list" where
  "updated cs = concat (map update_name cs)"

definition current :: "(string \<times> int) list \<Rightarrow> string list" where
  "current c = map fst (filter (\<lambda>e. snd e = 0) c)"







subsection \<open>The result of the down-depends query in the setting\<close>

lemma name_populate_meta [simp]: "name (populate_meta_from_stmt r) = pkg r"
  by (simp add: populate_meta_from_stmt_def)





subsection \<open>Lookups in the tables\<close>



subsection \<open>What a part of a run changes\<close>


lemma updated_append [simp]: "updated (xs @ ys) = updated xs @ updated ys"
  by (simp add: updated_def)

lemma updated_simps [simp]:
  "updated [] = []" "updated [Update n r] = [n]"
  by (simp_all add: updated_def)






subsection \<open>Ordered calls\<close>






lemma current_append [simp]: "current (xs @ ys) = current xs @ current ys"
  by (simp add: current_def)





subsection \<open>The steps of \<open>mport_update_down\<close> in the setting\<close>





subsection \<open>The post-order of \<open>mport_update_down\<close>\<close>















definition diamond_tables :: tables where
  "diamond_tables =
     no_tables\<lparr> packages := [installed ''a'' ''1.0'' 0 0, installed ''b'' ''1.0'' 1 0,
                              installed ''c'' ''1.0'' 1 0],
                 depends := [depends_on ''a'' ''b'', depends_on ''a'' ''c'',
                             depends_on ''b'' ''c''] \<rparr>"


text \<open>
  The processed set keeps pointers into the vectors of down-depends, which
  \<open>mport_update_down\<close> frees when it returns.  In the diamond the key \<open>c\<close> is inserted
  while \<open>b\<close> is processed, with a pointer into the vector of \<open>b\<close>; when the loop of \<open>a\<close>
  comes to \<open>c\<close>, the lookup compares the name with the freed string.
\<close>

lemma mport_update_down_reads_freed_name:
  "mport_update_down 3 (ab_env 0) meta_a Packs_orig (fresh_run diamond_tables) = None"
  by code_simp



end
